theory Spec2Isabelle
  imports Complex_Main
begin

section \<open>Numbers\<close>

text \<open>
  A JavaScript number is an IEEE 754 double.  A finite double is a rational
  \<open>m * 2^e\<close> with \<open>|m| < 2^53\<close> and \<open>-1074 \<le> e\<close>, and an arithmetic operator
  returns the exact result rounded to the nearest double, on a tie to the one whose
  \<open>m\<close> is even.  \<open>toDouble\<close> is that rounding.  Values whose magnitude reaches
  \<open>2^1024\<close> (Infinity), NaN and the sign of zero are not modelled.
\<close>

definition pow2 :: "int \<Rightarrow> rat" where
  "pow2 e = (if 0 \<le> e then 2 ^ nat e else 1 / 2 ^ nat (- e))"

text \<open>The number of binary digits of a positive integer.\<close>

function bitLength :: "int \<Rightarrow> int" where
  "bitLength n = (if n \<le> 0 then 0 else 1 + bitLength (n div 2))"
  by pat_completeness auto
termination
  by (relation "measure nat") auto

declare bitLength.simps [simp del]

text \<open>The exponent \<open>e\<close> of the leading bit of a positive rational:
  \<open>2^e \<le> x < 2^(e+1)\<close>.\<close>

definition leadingExponent :: "rat \<Rightarrow> int" where
  "leadingExponent x =
     (let k = bitLength (fst (quotient_of x)) - bitLength (snd (quotient_of x))
      in if pow2 k \<le> x then k else k - 1)"

definition roundHalfEven :: "rat \<Rightarrow> int" where
  "roundHalfEven x =
     (let f = \<lfloor>x\<rfloor> in
      if x - of_int f < 1 / 2 then f
      else if 1 / 2 < x - of_int f then f + 1
      else if even f then f else f + 1)"

definition toDouble :: "rat \<Rightarrow> rat" where
  "toDouble x =
     (if x = 0 then 0
      else let e = max (leadingExponent \<bar>x\<bar> - 52) (- 1074)
           in sgn x * of_int (roundHalfEven (\<bar>x\<bar> / pow2 e)) * pow2 e)"

text \<open>
  The type of JavaScript numbers, with the operators \<open>+\<close>, \<open>-\<close>, unary \<open>-\<close>,
  \<open><=\<close> and \<open><\<close> of the language; \<open>double x\<close> is the number a decimal literal or
  \<open>Number\<close>, \<open>parseInt\<close> and \<open>parseFloat\<close> make of a text that denotes \<open>x\<close>.
\<close>

datatype number = Number rat

instantiation number :: "{zero, plus, minus, uminus, ord}"
begin

definition zero_number :: number where
  "zero_number = Number 0"

fun plus_number :: "number \<Rightarrow> number \<Rightarrow> number" where
  "plus_number (Number x) (Number y) = Number (toDouble (x + y))"

fun minus_number :: "number \<Rightarrow> number \<Rightarrow> number" where
  "minus_number (Number x) (Number y) = Number (toDouble (x - y))"

fun uminus_number :: "number \<Rightarrow> number" where
  "uminus_number (Number x) = Number (- x)"

fun less_eq_number :: "number \<Rightarrow> number \<Rightarrow> bool" where
  "less_eq_number (Number x) (Number y) = (x \<le> y)"

fun less_number :: "number \<Rightarrow> number \<Rightarrow> bool" where
  "less_number (Number x) (Number y) = (x < y)"

instance ..

end

definition double :: "rat \<Rightarrow> number" where
  "double x = Number (toDouble x)"

text \<open>
  Whole numbers of magnitude up to \<open>2^53\<close> are doubles, and a sum or difference of
  whole numbers that stays in that range is exact.  The forms modelled below read their
  amount with \<open>parseInt\<close>, except the dice bet form, which reads \<open>Number(amount)\<close>:
  that need not be whole, and a balance that a bet of that form has lowered is what a
  transfer then computes with.  The documents therefore take the type of their numbers as
  a parameter.  The dice bet form and the transfer operations are written for any type of
  numbers, \<open>int\<close> as well as \<open>number\<close>; the other operations are written on
  \<open>int\<close>, that is for whole amounts and balances.
\<close>

section \<open>The document store\<close>

text \<open>
  The application keeps all of its state in collections of documents addressed by id.
  A collection is the list of its documents in store order, each paired with its id;
  a query returns the matching documents in that order.  The interest rate of an
  investment, which the administrator enters as a decimal and \<open>parseFloat\<close> reads, is a
  double, kept as the rational it denotes.  Timestamps are not modelled.
\<close>

type_synonym 'a collection = "(string \<times> 'a) list"

definition getDoc :: "'a collection \<Rightarrow> string \<Rightarrow> 'a option" where
  "getDoc c k = map_of c k"

definition mergeDoc :: "string \<Rightarrow> ('a \<Rightarrow> 'a) \<Rightarrow> 'a collection \<Rightarrow> 'a collection" where
  "mergeDoc k f c = map (\<lambda>(k', v). if k' = k then (k', f v) else (k', v)) c"

text \<open>\<open>updateDoc\<close> merges fields into an existing document and is rejected by the store
  when the document does not exist.\<close>

definition updateDoc :: "string \<Rightarrow> ('a \<Rightarrow> 'a) \<Rightarrow> 'a collection \<Rightarrow> 'a collection option" where
  "updateDoc k f c = (case getDoc c k of None \<Rightarrow> None | Some _ \<Rightarrow> Some (mergeDoc k f c))"

text \<open>\<open>addDoc\<close> creates a document under a fresh id chosen by the store; the id is an
  input of the model.\<close>

definition addDoc :: "string \<Rightarrow> 'a \<Rightarrow> 'a collection \<Rightarrow> 'a collection" where
  "addDoc k v c = c @ [(k, v)]"

definition query_where :: "('a \<Rightarrow> bool) \<Rightarrow> 'a collection \<Rightarrow> 'a collection" where
  "query_where p c = filter (\<lambda>(k, v). p v) c"

subsection \<open>Documents\<close>

record 'n User_of =
  username :: string
  points :: 'n
  cash :: 'n
  referralCode :: string
  referralCodeFriend :: string
  referrals :: "string list"
  approved :: bool

record 'n balanceAfter_of =
  ba_points :: 'n
  ba_cash :: 'n

text \<open>A template literal is kept as its pieces: literal text and interpolated values.\<close>

datatype 'n piece_of = Lit string | Num 'n | Rate rat

record 'n Transaction_of =
  tx_userId :: string
  tx_username :: string
  tx_amount :: "'n option"
  tx_type :: string
  tx_description :: "'n piece_of list"
  tx_balanceAfter :: "'n balanceAfter_of option"

datatype DiceColor = ColNone | White | Red | Green

datatype RoundStatus = RoundOpen | RoundClosed

record DiceRound =
  round_status :: RoundStatus
  round_numberColors :: "(int \<times> DiceColor) list"

datatype BetStatus = Pending | Won | Lost | Cancelled

datatype PayoutType = PayCash | PayFbt

record 'n DiceBet_of =
  bet_userId :: string
  bet_username :: string
  bet_roundId :: string
  bet_chosenNumber :: int
  bet_amount :: 'n
  bet_status :: BetStatus
  bet_resultColor :: "DiceColor option"
  bet_payout :: "'n option"
  bet_payoutType :: "PayoutType option"

record 'n UltraManualBet_of =
  ub_userId :: string
  ub_username :: string
  ub_amount :: 'n
  ub_note :: string
  ub_status :: BetStatus
  ub_winAmount :: "'n option"

text \<open>The requests collection holds upgrade and transfer requests; the recipient and
  amount fields belong to transfer requests and are never read on an upgrade request.\<close>

datatype RequestType = VipUpgrade | PointTransfer

datatype RequestStatus = ReqPending | ReqApproved | ReqDeclined

record 'n Request_of =
  req_userId :: string
  req_username :: string
  req_type :: RequestType
  req_recipientId :: string
  req_recipientUsername :: string
  req_amount :: 'n
  req_status :: RequestStatus
  req_declineReason :: "string option"
  req_directTransfer :: bool

datatype InvestmentStatus = InvPending | InvApproved | InvCompleted | InvDeclined

record 'n Investment_of =
  inv_userId :: string
  inv_username :: string
  inv_amount :: 'n
  inv_status :: InvestmentStatus
  inv_interestRate :: rat
  inv_releaseDate :: "int option"
  inv_adminNotes :: "string option"

record 'n Winner_of =
  win_username :: string
  win_amount :: 'n
  win_game :: string

record 'n db_of =
  users :: "'n User_of collection"
  requests :: "'n Request_of collection"
  investments :: "'n Investment_of collection"
  diceRounds :: "DiceRound collection"
  diceBets :: "'n DiceBet_of collection"
  ultraManualBets :: "'n UltraManualBet_of collection"
  winners :: "'n Winner_of list"
  transactions :: "'n Transaction_of list"

text \<open>The documents on whole numbers.\<close>

type_synonym User = "int User_of"
type_synonym balanceAfter = "int balanceAfter_of"
type_synonym piece = "int piece_of"
type_synonym Transaction = "int Transaction_of"
type_synonym DiceBet = "int DiceBet_of"
type_synonym UltraManualBet = "int UltraManualBet_of"
type_synonym Request = "int Request_of"
type_synonym Investment = "int Investment_of"
type_synonym Winner = "int Winner_of"
type_synonym db = "int db_of"

text \<open>An operation ends normally in a new store state (\<open>Inr\<close>) or with the message it
  reports and the state the store had reached when it failed (\<open>Inl\<close>).\<close>

type_synonym 'n outcome_of = "(string \<times> 'n db_of) + 'n db_of"

type_synonym outcome = "int outcome_of"

fun state_of :: "'n outcome_of \<Rightarrow> 'n db_of" where
  "state_of (Inr s) = s"
| "state_of (Inl (e, s)) = s"

definition pointsOf :: "'n db_of \<Rightarrow> string \<Rightarrow> 'n option" where
  "pointsOf s uid = map_option points (getDoc (users s) uid)"

definition cashOf :: "'n db_of \<Rightarrow> string \<Rightarrow> 'n option" where
  "cashOf s uid = map_option cash (getDoc (users s) uid)"

subsection \<open>Batched writes\<close>

text \<open>A write batch collects updates and commits them together: either every write is
  applied, in the order it was added, or (when some updated document does not exist)
  none is.\<close>

datatype batch_write =
    UpdateUser string "User \<Rightarrow> User"
  | UpdateDiceBet string "DiceBet \<Rightarrow> DiceBet"
  | UpdateUltraBet string "UltraManualBet \<Rightarrow> UltraManualBet"
  | SetTransaction Transaction
  | SetWinner Winner

fun applyWrite :: "batch_write \<Rightarrow> db \<Rightarrow> db option" where
  "applyWrite (UpdateUser k f) s = map_option (\<lambda>c. s\<lparr>users := c\<rparr>) (updateDoc k f (users s))"
| "applyWrite (UpdateDiceBet k f) s = map_option (\<lambda>c. s\<lparr>diceBets := c\<rparr>) (updateDoc k f (diceBets s))"
| "applyWrite (UpdateUltraBet k f) s =
     map_option (\<lambda>c. s\<lparr>ultraManualBets := c\<rparr>) (updateDoc k f (ultraManualBets s))"
| "applyWrite (SetTransaction t) s = Some (s\<lparr>transactions := transactions s @ [t]\<rparr>)"
| "applyWrite (SetWinner w) s = Some (s\<lparr>winners := winners s @ [w]\<rparr>)"

fun commit :: "batch_write list \<Rightarrow> db \<Rightarrow> db option" where
  "commit [] s = Some s"
| "commit (w # ws) s = (case applyWrite w s of None \<Rightarrow> None | Some s' \<Rightarrow> commit ws s')"

fun isUserWrite :: "batch_write \<Rightarrow> bool" where
  "isUserWrite (UpdateUser k f) = True"
| "isUserWrite w = False"

section \<open>Dice rounds\<close>

text \<open>\<open>closeRoundAndResolve\<close> of the dice administration panel.  Its inputs are the
  panel's state: the open round it listens to (if any) and the colour the administrator
  chose for each number.\<close>

definition colorOf :: "(int \<times> DiceColor) list \<Rightarrow> int \<Rightarrow> DiceColor" where
  "colorOf numberColors n = (case map_of numberColors n of None \<Rightarrow> ColNone | Some c \<Rightarrow> c)"

definition hasWinner :: "(int \<times> DiceColor) list \<Rightarrow> bool" where
  "hasWinner numberColors = list_ex (\<lambda>c. c \<noteq> ColNone) (map snd numberColors)"

definition payoutOf :: "DiceColor \<Rightarrow> int \<Rightarrow> int" where
  "payoutOf color amount =
     (if color = White then amount div 10 * 5
      else if color = Red \<or> color = Green then amount div 10 * 20
      else 0)"

definition payoutTypeOf :: "DiceColor \<Rightarrow> PayoutType option" where
  "payoutTypeOf color =
     (if color = White then Some PayCash
      else if color = Red \<or> color = Green then Some PayFbt
      else None)"

definition resolvedBet :: "DiceColor \<Rightarrow> int \<Rightarrow> PayoutType option \<Rightarrow> DiceBet \<Rightarrow> DiceBet" where
  "resolvedBet color payout payoutType b =
     b\<lparr>bet_status := (if color = ColNone then Lost else Won),
       bet_resultColor := Some color,
       bet_payout := Some payout,
       bet_payoutType := payoutType\<rparr>"

text \<open>The body of the loop over the round's bets: the writes one bet adds to the batch.\<close>

definition resolveBet :: "(int \<times> DiceColor) list \<Rightarrow> string \<times> DiceBet \<Rightarrow> batch_write list" where
  "resolveBet numberColors d =
     (let bet = snd d;
          color = colorOf numberColors (bet_chosenNumber bet);
          payout = payoutOf color (bet_amount bet);
          payoutType = payoutTypeOf color
      in UpdateDiceBet (fst d) (resolvedBet color payout payoutType)
         # (if color \<noteq> ColNone \<and> payout > 0 \<and> payoutType = Some PayFbt
            then [UpdateUser (bet_userId bet) (\<lambda>u. u\<lparr>points := bet_amount bet + payout\<rparr>)]
            else []))"

definition closeRound :: "string \<Rightarrow> (int \<times> DiceColor) list \<Rightarrow> db \<Rightarrow> db option" where
  "closeRound rid numberColors s =
     map_option (\<lambda>c. s\<lparr>diceRounds := c\<rparr>)
       (updateDoc rid (\<lambda>r. r\<lparr>round_status := RoundClosed, round_numberColors := numberColors\<rparr>)
          (diceRounds s))"

definition roundBets :: "string \<Rightarrow> db \<Rightarrow> DiceBet collection" where
  "roundBets rid s = query_where (\<lambda>b. bet_roundId b = rid) (diceBets s)"

definition resolveBatch :: "string \<Rightarrow> (int \<times> DiceColor) list \<Rightarrow> db \<Rightarrow> batch_write list" where
  "resolveBatch rid numberColors s = concat (map (resolveBet numberColors) (roundBets rid s))"

definition closeRoundAndResolve ::
  "(string \<times> DiceRound) option \<Rightarrow> (int \<times> DiceColor) list \<Rightarrow> db \<Rightarrow> outcome" where
  "closeRoundAndResolve rnd numberColors s =
     (case rnd of
        None \<Rightarrow> Inl (''No open round.'', s)
      | Some r \<Rightarrow>
          if \<not> hasWinner numberColors then Inl (''Set at least one color for a number.'', s)
          else (case closeRound (fst r) numberColors s of
                  None \<Rightarrow> Inl (''Failed to resolve round.'', s)
                | Some s1 \<Rightarrow>
                    (case commit (resolveBatch (fst r) numberColors s1) s1 of
                       None \<Rightarrow> Inl (''Failed to resolve round.'', s1)
                     | Some s2 \<Rightarrow> Inr s2)))"

text \<open>The store states a reader can see while \<open>closeRoundAndResolve\<close> runs: the state
  before it, and the state after each of its commits (the round's update, then the
  batch).\<close>

definition closeRoundAndResolve_observable ::
  "(string \<times> DiceRound) option \<Rightarrow> (int \<times> DiceColor) list \<Rightarrow> db \<Rightarrow> db list" where
  "closeRoundAndResolve_observable rnd numberColors s =
     (case rnd of
        None \<Rightarrow> [s]
      | Some r \<Rightarrow>
          if \<not> hasWinner numberColors then [s]
          else (case closeRound (fst r) numberColors s of
                  None \<Rightarrow> [s]
                | Some s1 \<Rightarrow>
                    (case commit (resolveBatch (fst r) numberColors s1) s1 of
                       None \<Rightarrow> [s, s1]
                     | Some s2 \<Rightarrow> [s, s1, s2])))"

subsection \<open>Auxiliary notions for the dice batch\<close>

text \<open>The effect of a batch on the bets collection, the resolution of one bet written
  as a function of the bet, and the writes that leave every cash balance alone.\<close>

definition betsAfter :: "batch_write list \<Rightarrow> DiceBet collection \<Rightarrow> DiceBet collection" where
  "betsAfter ws c = fold (\<lambda>w c. case w of UpdateDiceBet k f \<Rightarrow> mergeDoc k f c | _ \<Rightarrow> c) ws c"

definition resolve :: "(int \<times> DiceColor) list \<Rightarrow> DiceBet \<Rightarrow> DiceBet \<Rightarrow> DiceBet" where
  "resolve nc b = resolvedBet (colorOf nc (bet_chosenNumber b))
      (payoutOf (colorOf nc (bet_chosenNumber b)) (bet_amount b))
      (payoutTypeOf (colorOf nc (bet_chosenNumber b)))"

definition cashKept :: "batch_write \<Rightarrow> bool" where
  "cashKept w = (case w of UpdateUser k f \<Rightarrow> (\<forall>u. cash (f u) = cash u) | _ \<Rightarrow> True)"

subsection \<open>A dice round used in the examples\<close>

definition ex_alice :: User where
  "ex_alice = \<lparr>username = ''alice'', points = 900, cash = 0, referralCode = ''FBT100'',
     referralCodeFriend = ''Not set'', referrals = [], approved = True\<rparr>"

definition ex_bob :: User where
  "ex_bob = \<lparr>username = ''bob'', points = 500, cash = 0, referralCode = ''FBT200'',
     referralCodeFriend = ''FBT100'', referrals = [], approved = True\<rparr>"

definition ex_round :: DiceRound where
  "ex_round = \<lparr>round_status = RoundOpen,
     round_numberColors =
       [(1, ColNone), (2, ColNone), (3, ColNone), (4, ColNone), (5, ColNone), (6, ColNone)]\<rparr>"

definition ex_bet :: "string \<Rightarrow> string \<Rightarrow> int \<Rightarrow> int \<Rightarrow> DiceBet" where
  "ex_bet uid name n a = \<lparr>bet_userId = uid, bet_username = name, bet_roundId = ''r1'',
     bet_chosenNumber = n, bet_amount = a, bet_status = Pending, bet_resultColor = None,
     bet_payout = None, bet_payoutType = None\<rparr>"

definition ex_colors :: "(int \<times> DiceColor) list" where
  "ex_colors = [(1, White), (2, Red), (3, Green), (4, ColNone), (5, ColNone), (6, ColNone)]"

definition ex_dice_db :: db where
  "ex_dice_db = \<lparr>users = [(''u1'', ex_alice), (''u2'', ex_bob)], requests = [], investments = [],
     diceRounds = [(''r1'', ex_round)],
     diceBets = [(''b1'', ex_bet ''u1'' ''alice'' 1 100), (''b2'', ex_bet ''u2'' ''bob'' 2 100),
                 (''b3'', ex_bet ''u2'' ''bob'' 3 7), (''b4'', ex_bet ''u1'' ''alice'' 4 50)],
     ultraManualBets = [], winners = [], transactions = []\<rparr>"

definition ex_dice_run :: outcome where
  "ex_dice_run = closeRoundAndResolve (Some (''r1'', ex_round)) ex_colors ex_dice_db"

section \<open>Point transfers\<close>

text \<open>\<open>x || 0\<close> on a number, ASCII \<open>toLowerCase\<close> and \<open>startsWith\<close>.\<close>

definition orZero :: "'n::zero \<Rightarrow> 'n" where
  "orZero x = (if x = 0 then 0 else x)"

definition lowerChar :: "char \<Rightarrow> char" where
  "lowerChar c =
     (if 65 \<le> (of_char c :: nat) \<and> (of_char c :: nat) \<le> 90
      then char_of ((of_char c :: nat) + 32) else c)"

definition toLowerCase :: "string \<Rightarrow> string" where
  "toLowerCase str = map lowerChar str"

definition startsWith :: "string \<Rightarrow> string \<Rightarrow> bool" where
  "startsWith str pre = (take (length pre) str = pre)"

text \<open>The message of the store when \<open>updateDoc\<close> is rejected.\<close>

definition notFoundError :: string where
  "notFoundError = ''No document to update''"

definition transferOutTx ::
  "string \<Rightarrow> string \<Rightarrow> 'n \<Rightarrow> string \<Rightarrow> 'n \<Rightarrow> 'n \<Rightarrow> ('n::{zero,uminus}) Transaction_of" where
  "transferOutTx uid uname amount recipientName newSenderPoints senderCash =
     \<lparr>tx_userId = uid, tx_username = uname, tx_amount = Some (- amount),
      tx_type = ''point_transfer_out'',
      tx_description = [Lit ''Transferred '', Num amount, Lit '' points to '', Lit recipientName],
      tx_balanceAfter = Some \<lparr>ba_points = newSenderPoints, ba_cash = orZero senderCash\<rparr>\<rparr>"

definition transferInTx ::
  "string \<Rightarrow> string \<Rightarrow> 'n \<Rightarrow> string \<Rightarrow> 'n \<Rightarrow> 'n \<Rightarrow> ('n::zero) Transaction_of" where
  "transferInTx uid uname amount senderName newRecipientPoints recipientCash =
     \<lparr>tx_userId = uid, tx_username = uname, tx_amount = Some amount,
      tx_type = ''point_transfer_in'',
      tx_description = [Lit ''Received '', Num amount, Lit '' points from '', Lit senderName],
      tx_balanceAfter = Some \<lparr>ba_points = newRecipientPoints, ba_cash = orZero recipientCash\<rparr>\<rparr>"

text \<open>The query of \<open>transferPoints\<close> for the recipient: by referral code when the
  identifier starts with \<open>FBT\<close>, by lower-cased username otherwise.\<close>

definition recipientQuery :: "string \<Rightarrow> 'n User_of collection \<Rightarrow> 'n User_of collection" where
  "recipientQuery recipientIdentifier us =
     (if startsWith recipientIdentifier ''FBT''
      then query_where (\<lambda>u. referralCode u = recipientIdentifier) us
      else query_where (\<lambda>u. username u = toLowerCase recipientIdentifier) us)"

text \<open>\<open>transferPoints\<close> of the VIP store.  \<open>newId\<close> is the id the store gives the
  request document it may create.\<close>

definition transferPoints ::
  "string \<Rightarrow> string \<Rightarrow> 'n \<Rightarrow> bool \<Rightarrow> string \<Rightarrow> ('n::{zero,plus,minus,uminus,ord}) db_of
     \<Rightarrow> 'n outcome_of" where
  "transferPoints userId recipientIdentifier amount directTransfer newId s =
     (if userId = [] then Inl (''User ID is required'', s)
      else if recipientIdentifier = []
        then Inl (''Recipient username or referral code is required'', s)
      else if amount = 0 \<or> amount \<le> 0 then Inl (''Transfer amount must be greater than 0'', s)
      else case getDoc (users s) userId of
          None \<Rightarrow> Inl (''User not found'', s)
        | Some userData \<Rightarrow>
            if points userData < amount then Inl (''Insufficient points for transfer'', s)
            else case recipientQuery recipientIdentifier (users s) of
                [] \<Rightarrow> Inl (''Recipient not found'', s)
              | recipientDoc # _ \<Rightarrow>
                  let recipientData = snd recipientDoc; recipientId = fst recipientDoc in
                  if recipientId = userId then Inl (''Cannot transfer points to yourself'', s)
                  else if directTransfer then
                    (let newSenderPoints = points userData - amount in
                     case updateDoc userId (\<lambda>u. u\<lparr>points := newSenderPoints\<rparr>) (users s) of
                       None \<Rightarrow> Inl (notFoundError, s)
                     | Some us1 \<Rightarrow>
                         let recipientPoints = orZero (points recipientData);
                             newRecipientPoints = recipientPoints + amount in
                         case updateDoc recipientId (\<lambda>u. u\<lparr>points := newRecipientPoints\<rparr>) us1 of
                           None \<Rightarrow> Inl (notFoundError, s\<lparr>users := us1\<rparr>)
                         | Some us2 \<Rightarrow>
                             Inr (s\<lparr>users := us2,
                                    transactions := transactions s @
                                      [transferOutTx userId (username userData) amount
                                         (username recipientData) newSenderPoints (cash userData),
                                       transferInTx recipientId (username recipientData) amount
                                         (username userData) newRecipientPoints
                                         (cash recipientData)]\<rparr>))
                  else
                    Inr (s\<lparr>requests := addDoc newId
                           \<lparr>req_userId = userId, req_username = username userData,
                            req_type = PointTransfer, req_recipientId = recipientId,
                            req_recipientUsername = username recipientData, req_amount = amount,
                            req_status = ReqPending, req_declineReason = None,
                            req_directTransfer = directTransfer\<rparr> (requests s)\<rparr>))"

text \<open>\<open>handleTransferRequest\<close> of the VIP administration panel.  The request is the
  document the panel lists, with its id; \<open>isProcessingTransfer\<close> is the panel's flag.\<close>

definition transferRequestError :: "bool \<Rightarrow> string \<Rightarrow> string" where
  "transferRequestError approve msg =
     ''Failed to '' @ (if approve then ''approve'' else ''decline'') @ '' transfer request: '' @ msg"

definition setRequestStatus ::
  "string \<Rightarrow> RequestStatus \<Rightarrow> string option \<Rightarrow> 'n db_of \<Rightarrow> 'n db_of option" where
  "setRequestStatus rid st reason s =
     map_option (\<lambda>c. s\<lparr>requests := c\<rparr>)
       (updateDoc rid
          (\<lambda>r. r\<lparr>req_status := st,
                 req_declineReason := (case reason of None \<Rightarrow> req_declineReason r | Some x \<Rightarrow> Some x)\<rparr>)
          (requests s))"

definition handleTransferRequest ::
  "bool \<Rightarrow> string \<times> 'n Request_of \<Rightarrow> bool \<Rightarrow> ('n::{zero,plus,minus,uminus,ord}) db_of
     \<Rightarrow> 'n outcome_of" where
  "handleTransferRequest isProcessingTransfer request approve s =
     (if isProcessingTransfer then Inr s
      else case getDoc (users s) (req_userId (snd request)) of
          None \<Rightarrow> Inl (transferRequestError approve ''Sender not found'', s)
        | Some senderData \<Rightarrow>
            let currentPoints = orZero (points senderData) in
            if currentPoints < req_amount (snd request) then
              (case setRequestStatus (fst request) ReqDeclined (Some ''Insufficient points'') s of
                 None \<Rightarrow> Inl (transferRequestError approve notFoundError, s)
               | Some s1 \<Rightarrow> Inr s1)
            else if approve then
              (case getDoc (users s) (req_recipientId (snd request)) of
                 None \<Rightarrow> Inl (transferRequestError approve ''Recipient not found'', s)
               | Some recipientData \<Rightarrow>
                   let recipientPoints = orZero (points recipientData);
                       newSenderPoints = currentPoints - req_amount (snd request) in
                   case updateDoc (req_userId (snd request))
                          (\<lambda>u. u\<lparr>points := newSenderPoints\<rparr>) (users s) of
                     None \<Rightarrow> Inl (transferRequestError approve notFoundError, s)
                   | Some us1 \<Rightarrow>
                       let newRecipientPoints = recipientPoints + req_amount (snd request) in
                       case updateDoc (req_recipientId (snd request))
                              (\<lambda>u. u\<lparr>points := newRecipientPoints\<rparr>) us1 of
                         None \<Rightarrow> Inl (transferRequestError approve notFoundError, s\<lparr>users := us1\<rparr>)
                       | Some us2 \<Rightarrow>
                           (case setRequestStatus (fst request) ReqApproved None (s\<lparr>users := us2\<rparr>) of
                              None \<Rightarrow> Inl (transferRequestError approve notFoundError, s\<lparr>users := us2\<rparr>)
                            | Some s3 \<Rightarrow>
                                Inr (s3\<lparr>transactions := transactions s3 @
                                       [transferOutTx (req_userId (snd request))
                                          (req_username (snd request)) (req_amount (snd request))
                                          (req_recipientUsername (snd request)) newSenderPoints
                                          (cash senderData),
                                        transferInTx (req_recipientId (snd request))
                                          (req_recipientUsername (snd request))
                                          (req_amount (snd request)) (req_username (snd request))
                                          newRecipientPoints (cash recipientData)]\<rparr>)))
            else
              (case setRequestStatus (fst request) ReqDeclined None s of
                 None \<Rightarrow> Inl (transferRequestError approve notFoundError, s)
               | Some s1 \<Rightarrow> Inr s1))"


section \<open>Investments\<close>

text \<open>The administration panel's \<open>handleDecline\<close>, \<open>handleComplete\<close> and
  \<open>submitApproval\<close>.  An investment is passed as the panel lists it, with its id;
  \<open>confirmed\<close> is the administrator's answer to the confirmation dialog.\<close>

definition handleDecline :: "bool \<Rightarrow> string \<times> Investment \<Rightarrow> db \<Rightarrow> outcome" where
  "handleDecline confirmed investment s =
     (if \<not> confirmed then Inr s
      else case getDoc (users s) (inv_userId (snd investment)) of
          None \<Rightarrow> Inl (''Failed to decline investment'', s)
        | Some userData \<Rightarrow>
            let currentPoints = orZero (points userData) in
            case updateDoc (fst investment) (\<lambda>i. i\<lparr>inv_status := InvDeclined\<rparr>) (investments s) of
              None \<Rightarrow> Inl (''Failed to decline investment'', s)
            | Some is1 \<Rightarrow>
                (case updateDoc (inv_userId (snd investment))
                        (\<lambda>u. u\<lparr>points := currentPoints + inv_amount (snd investment)\<rparr>) (users s) of
                   None \<Rightarrow> Inl (''Failed to decline investment'', s\<lparr>investments := is1\<rparr>)
                 | Some us1 \<Rightarrow>
                     Inr (s\<lparr>investments := is1, users := us1,
                            transactions := transactions s @
                              [\<lparr>tx_userId = inv_userId (snd investment),
                                tx_username = inv_username (snd investment),
                                tx_amount = Some (inv_amount (snd investment)),
                                tx_type = ''investment_declined'',
                                tx_description =
                                  [Lit ''Investment of '', Num (inv_amount (snd investment)),
                                   Lit '' points declined and refunded''],
                                tx_balanceAfter =
                                  Some \<lparr>ba_points = currentPoints + inv_amount (snd investment),
                                        ba_cash = orZero (cash userData)\<rparr>\<rparr>]\<rparr>)))"

text \<open>\<open>Math.floor(investment.amount * (1 + investment.interestRate / 100))\<close>: the
  division, the addition and the multiplication each round to a double.\<close>

definition payoutAmountOf :: "Investment \<Rightarrow> int" where
  "payoutAmountOf i =
     \<lfloor>toDouble (of_int (inv_amount i) * toDouble (1 + toDouble (inv_interestRate i / 100)))\<rfloor>"

definition completedTx :: "Investment \<Rightarrow> int \<Rightarrow> User \<Rightarrow> Transaction" where
  "completedTx i currentPoints userData =
     \<lparr>tx_userId = inv_userId i, tx_username = inv_username i,
      tx_amount = Some (payoutAmountOf i),
      tx_type = ''investment_completed'',
      tx_description =
        [Lit ''Investment of '', Num (inv_amount i), Lit '' points completed with '',
         Rate (inv_interestRate i), Lit ''% interest ('',
         Num (payoutAmountOf i - inv_amount i), Lit '' points profit)''],
      tx_balanceAfter =
        Some \<lparr>ba_points = currentPoints + payoutAmountOf i, ba_cash = orZero (cash userData)\<rparr>\<rparr>"

definition handleComplete :: "bool \<Rightarrow> string \<times> Investment \<Rightarrow> db \<Rightarrow> outcome" where
  "handleComplete confirmed investment s =
     (if \<not> confirmed then Inr s
      else case getDoc (users s) (inv_userId (snd investment)) of
          None \<Rightarrow> Inl (''Failed to complete investment'', s)
        | Some userData \<Rightarrow>
            let currentPoints = orZero (points userData);
                payoutAmount = payoutAmountOf (snd investment) in
            case updateDoc (fst investment) (\<lambda>i. i\<lparr>inv_status := InvCompleted\<rparr>) (investments s) of
              None \<Rightarrow> Inl (''Failed to complete investment'', s)
            | Some is1 \<Rightarrow>
                (case updateDoc (inv_userId (snd investment))
                        (\<lambda>u. u\<lparr>points := currentPoints + payoutAmount\<rparr>) (users s) of
                   None \<Rightarrow> Inl (''Failed to complete investment'', s\<lparr>investments := is1\<rparr>)
                 | Some us1 \<Rightarrow>
                     Inr (s\<lparr>investments := is1, users := us1,
                            transactions := transactions s @
                              [completedTx (snd investment) currentPoints userData]\<rparr>)))"

definition isSpace :: "char \<Rightarrow> bool" where
  "isSpace c = (c \<in> set [CHR '' '', CHR 0x09, CHR 0x0A, CHR 0x0B, CHR 0x0C, CHR 0x0D])"

definition trim :: "string \<Rightarrow> string" where
  "trim str = rev (dropWhile isSpace (rev (dropWhile isSpace str)))"

text \<open>\<open>submitApproval\<close>: the rate is what \<open>parseFloat\<close> made of the input (\<open>None\<close>
  for not-a-number), the release date is the parsed date in milliseconds (\<open>None\<close> for an
  invalid date) and \<open>now\<close> the current time.\<close>

definition submitApproval ::
  "(string \<times> Investment) option \<Rightarrow> rat option \<Rightarrow> int option \<Rightarrow> string \<Rightarrow> int \<Rightarrow> db \<Rightarrow> outcome" where
  "submitApproval selectedInvestment interestRate releaseDate adminNotes now s =
     (case selectedInvestment of
        None \<Rightarrow> Inr s
      | Some sel \<Rightarrow>
          (case interestRate of
             None \<Rightarrow> Inl (''Please enter a valid interest rate'', s)
           | Some rate \<Rightarrow>
               if rate \<le> 0 then Inl (''Please enter a valid interest rate'', s)
               else (case releaseDate of
                       None \<Rightarrow> Inl (''Please enter a valid future release date'', s)
                     | Some releaseDateTime \<Rightarrow>
                         if releaseDateTime \<le> now
                         then Inl (''Please enter a valid future release date'', s)
                         else (case updateDoc (fst sel)
                                      (\<lambda>i. i\<lparr>inv_status := InvApproved, inv_interestRate := rate,
                                             inv_releaseDate := Some releaseDateTime,
                                             inv_adminNotes :=
                                               (if trim adminNotes = [] then None
                                                else Some (trim adminNotes))\<rparr>)
                                      (investments s) of
                                 None \<Rightarrow> Inl (''Failed to approve investment'', s)
                               | Some is1 \<Rightarrow>
                                   Inr (s\<lparr>investments := is1,
                                          transactions := transactions s @
                                            [\<lparr>tx_userId = inv_userId (snd sel),
                                              tx_username = inv_username (snd sel),
                                              tx_amount = None,
                                              tx_type = ''investment_approved'',
                                              tx_description =
                                                [Lit ''Investment of '', Num (inv_amount (snd sel)),
                                                 Lit '' points approved with '', Rate rate,
                                                 Lit ''% interest rate''],
                                              tx_balanceAfter = None\<rparr>]\<rparr>)))))"

text \<open>\<open>handleSubmit\<close> of the investments game.  \<open>user\<close> is the signed-in user as the
  client holds it (id and last known document), the amount is what \<open>parseInt\<close> made of
  the input (\<open>None\<close> for not-a-number).\<close>

definition InvestmentsGame_handleSubmit ::
  "(string \<times> User) option \<Rightarrow> int option \<Rightarrow> string \<Rightarrow> db \<Rightarrow> outcome" where
  "InvestmentsGame_handleSubmit user amount newId s =
     (case user of
        None \<Rightarrow> Inl (''You must be logged in to invest'', s)
      | Some usr \<Rightarrow>
          (case amount of
             None \<Rightarrow> Inl (''Please enter a valid amount'', s)
           | Some investmentAmount \<Rightarrow>
               if investmentAmount \<le> 0 then Inl (''Please enter a valid amount'', s)
               else if investmentAmount > points (snd usr)
                 then Inl (''Insufficient points for this investment'', s)
               else
                 (let s1 = s\<lparr>investments := addDoc newId
                             \<lparr>inv_userId = fst usr, inv_username = username (snd usr),
                              inv_amount = investmentAmount, inv_status = InvPending,
                              inv_interestRate = 0, inv_releaseDate = None,
                              inv_adminNotes = None\<rparr> (investments s)\<rparr> in
                  case updateDoc (fst usr)
                         (\<lambda>u. u\<lparr>points := points (snd usr) - investmentAmount\<rparr>) (users s1) of
                    None \<Rightarrow> Inl (''Failed to create investment. Please try again.'', s1)
                  | Some us1 \<Rightarrow>
                      Inr (s1\<lparr>users := us1,
                              transactions := transactions s1 @
                                [\<lparr>tx_userId = fst usr, tx_username = username (snd usr),
                                  tx_amount = Some (- investmentAmount),
                                  tx_type = ''investment_created'',
                                  tx_description =
                                    [Lit ''Investment of '', Num investmentAmount,
                                     Lit '' points created''],
                                  tx_balanceAfter =
                                    Some \<lparr>ba_points = points (snd usr) - investmentAmount,
                                          ba_cash = orZero (cash (snd usr))\<rparr>\<rparr>]\<rparr>))))"

section \<open>Ultra manual bets\<close>

definition UltraManualGame_handleSubmit ::
  "(string \<times> User) option \<Rightarrow> int option \<Rightarrow> string \<Rightarrow> string \<Rightarrow> db \<Rightarrow> outcome" where
  "UltraManualGame_handleSubmit user amount note newId s =
     (case user of
        None \<Rightarrow> Inl (''You must be logged in to place a bet'', s)
      | Some usr \<Rightarrow>
          (case amount of
             None \<Rightarrow> Inl (''Please enter a valid amount'', s)
           | Some betAmount \<Rightarrow>
               if betAmount \<le> 0 then Inl (''Please enter a valid amount'', s)
               else if betAmount > points (snd usr) then Inl (''Insufficient points for this bet'', s)
               else if trim note = [] then Inl (''Please add a note for your bet'', s)
               else if length note > 100 then Inl (''Note must be 100 characters or less'', s)
               else
                 (let s1 = s\<lparr>ultraManualBets := addDoc newId
                             \<lparr>ub_userId = fst usr, ub_username = username (snd usr),
                              ub_amount = betAmount, ub_note = trim note, ub_status = Pending,
                              ub_winAmount = None\<rparr> (ultraManualBets s)\<rparr> in
                  case updateDoc (fst usr)
                         (\<lambda>u. u\<lparr>points := points (snd usr) - betAmount\<rparr>) (users s1) of
                    None \<Rightarrow> Inl (''Failed to place bet. Please try again.'', s1)
                  | Some us1 \<Rightarrow>
                      Inr (s1\<lparr>users := us1,
                              transactions := transactions s1 @
                                [\<lparr>tx_userId = fst usr, tx_username = username (snd usr),
                                  tx_amount = Some (- betAmount),
                                  tx_type = ''ultra_manual_bet'',
                                  tx_description =
                                    [Lit ''Ultra Manual Bet: '', Num betAmount, Lit '' points''],
                                  tx_balanceAfter =
                                    Some \<lparr>ba_points = points (snd usr) - betAmount,
                                          ba_cash = orZero (cash (snd usr))\<rparr>\<rparr>]\<rparr>))))"

text \<open>The administration panel's \<open>cancelBet\<close> and \<open>processBet\<close>: one batch each.\<close>

definition cancelBet :: "string \<times> UltraManualBet \<Rightarrow> db \<Rightarrow> outcome" where
  "cancelBet bet s =
     (case commit
        [UpdateUltraBet (fst bet) (\<lambda>b. b\<lparr>ub_status := Cancelled\<rparr>),
         UpdateUser (ub_userId (snd bet)) (\<lambda>u. u\<lparr>points := points u + ub_amount (snd bet)\<rparr>),
         SetTransaction
           \<lparr>tx_userId = ub_userId (snd bet), tx_username = ub_username (snd bet),
            tx_amount = Some (ub_amount (snd bet)), tx_type = ''ultra_manual_cancelled'',
            tx_description =
              [Lit ''Ultra Manual Game bet cancelled: '', Num (ub_amount (snd bet)),
               Lit '' points returned''],
            tx_balanceAfter = None\<rparr>] s of
        None \<Rightarrow> Inl (notFoundError, s)
      | Some s1 \<Rightarrow> Inr s1)"

definition processBet :: "string \<times> UltraManualBet \<Rightarrow> bool \<Rightarrow> int option \<Rightarrow> db \<Rightarrow> outcome" where
  "processBet bet isWin winAmount s =
     (let paid = (case winAmount of None \<Rightarrow> False | Some w \<Rightarrow> isWin \<and> w \<noteq> 0) in
      case commit
        (UpdateUltraBet (fst bet)
           (\<lambda>b. b\<lparr>ub_status := (if isWin then Won else Lost),
                  ub_winAmount := (if paid then winAmount else ub_winAmount b)\<rparr>)
         # (case winAmount of
              None \<Rightarrow> []
            | Some w \<Rightarrow>
                if isWin \<and> w \<noteq> 0 then
                  [UpdateUser (ub_userId (snd bet)) (\<lambda>u. u\<lparr>points := points u + w\<rparr>),
                   SetTransaction
                     \<lparr>tx_userId = ub_userId (snd bet), tx_username = ub_username (snd bet),
                      tx_amount = Some w, tx_type = ''ultra_manual_win'',
                      tx_description = [Lit ''Ultra Manual Game win: '', Num w, Lit '' points''],
                      tx_balanceAfter = None\<rparr>,
                   SetWinner \<lparr>win_username = ub_username (snd bet), win_amount = w,
                              win_game = ''Ultra Manual''\<rparr>]
                else [])) s of
        None \<Rightarrow> Inl (notFoundError, s)
      | Some s1 \<Rightarrow> Inr s1)"

text \<open>\<open>handleWinSubmit\<close> reads the win amount from the dialog and rejects anything but a
  positive number before it calls \<open>processBet\<close>.\<close>

definition handleWinSubmit :: "(string \<times> UltraManualBet) option \<Rightarrow> int option \<Rightarrow> db \<Rightarrow> outcome" where
  "handleWinSubmit selectedBet winAmount s =
     (case selectedBet of
        None \<Rightarrow> Inr s
      | Some bet \<Rightarrow>
          (case winAmount of
             None \<Rightarrow> Inl (''Please enter a valid win amount'', s)
           | Some winAmountValue \<Rightarrow>
               if winAmountValue \<le> 0 then Inl (''Please enter a valid win amount'', s)
               else processBet bet True (Some winAmountValue) s))"

section \<open>Placing a dice bet\<close>

text \<open>\<open>handleBet\<close> of the dice game.  \<open>user\<close> and \<open>rnd\<close> are the signed-in user and
  the open round as the client holds them, \<open>amount\<close> is \<open>Number(amount)\<close> (\<open>None\<close> for
  an empty input or not-a-number) and \<open>num\<close> the number bet on.\<close>

definition DiceGame_handleBet ::
  "(string \<times> 'n User_of) option \<Rightarrow> (string \<times> DiceRound) option \<Rightarrow> 'n option \<Rightarrow> int \<Rightarrow> string
     \<Rightarrow> ('n::{zero,minus,ord}) db_of \<Rightarrow> 'n outcome_of" where
  "DiceGame_handleBet user rnd amount num newId s =
     (case user of
        None \<Rightarrow> Inl (''No active round or not logged in.'', s)
      | Some usr \<Rightarrow>
          (case rnd of
             None \<Rightarrow> Inl (''No active round or not logged in.'', s)
           | Some r \<Rightarrow>
               (case amount of
                  None \<Rightarrow> Inl (''Enter a valid amount.'', s)
                | Some a \<Rightarrow>
                    if a \<le> 0 then Inl (''Enter a valid amount.'', s)
                    else if a > points (snd usr) then Inl (''Insufficient points.'', s)
                    else
                      (let s1 = s\<lparr>diceBets := addDoc newId
                                  \<lparr>bet_userId = fst usr, bet_username = username (snd usr),
                                   bet_roundId = fst r, bet_chosenNumber = num, bet_amount = a,
                                   bet_status = Pending, bet_resultColor = None,
                                   bet_payout = None, bet_payoutType = None\<rparr> (diceBets s)\<rparr> in
                       case updateDoc (fst usr) (\<lambda>u. u\<lparr>points := points (snd usr) - a\<rparr>)
                              (users s1) of
                         None \<Rightarrow> Inl (''Failed to place bet.'', s1)
                       | Some us1 \<Rightarrow> Inr (s1\<lparr>users := us1\<rparr>)))))"

section \<open>Referral bonuses\<close>

text \<open>A natural number in decimal, as a template literal prints it.\<close>

definition digitChar :: "nat \<Rightarrow> char" where
  "digitChar n = char_of (48 + n)"

function showNat :: "nat \<Rightarrow> string" where
  "showNat n = (if n < 10 then [digitChar n] else showNat (n div 10) @ [digitChar (n mod 10)])"
  by pat_completeness auto
termination
  by (relation "measure id") auto

declare showNat.simps [simp del]

datatype BalanceField = PointsField | CashField

definition fieldName :: "BalanceField \<Rightarrow> string" where
  "fieldName f = (case f of PointsField \<Rightarrow> ''points'' | CashField \<Rightarrow> ''cash'')"

definition bonusLevels :: "int list" where
  "bonusLevels = [100, 5, 5, 10, 30]"

definition bonusGive :: "BalanceField list" where
  "bonusGive = [PointsField, CashField, CashField, CashField, CashField]"

text \<open>\<open>increment\<close> on a balance field and \<open>arrayUnion\<close> on the referrals array.\<close>

definition incrementField :: "BalanceField \<Rightarrow> int \<Rightarrow> User \<Rightarrow> User" where
  "incrementField f n u =
     (case f of PointsField \<Rightarrow> u\<lparr>points := points u + n\<rparr> | CashField \<Rightarrow> u\<lparr>cash := cash u + n\<rparr>)"

definition arrayUnion :: "string \<Rightarrow> string list \<Rightarrow> string list" where
  "arrayUnion x xs = (if x \<in> set xs then xs else xs @ [x])"

definition referralTx :: "nat \<Rightarrow> string \<Rightarrow> User \<Rightarrow> Transaction" where
  "referralTx level referrerId referrerData =
     \<lparr>tx_userId = referrerId, tx_username = username referrerData,
      tx_amount = Some (bonusLevels ! level),
      tx_type = ''referral_bonus_level_'' @ showNat (level + 1),
      tx_description =
        [Lit ''Referral bonus for level '', Num (int (level + 1)), Lit '' awarded: '',
         Num (bonusLevels ! level), Lit '' '', Lit (fieldName (bonusGive ! level))],
      tx_balanceAfter =
        Some \<lparr>ba_points = orZero (points referrerData)
                  + (if bonusGive ! level = PointsField then bonusLevels ! level else 0),
              ba_cash = orZero (cash referrerData)
                  + (if bonusGive ! level = CashField then bonusLevels ! level else 0)\<rparr>\<rparr>"

text \<open>The loop over the levels.  It reads the users collection as it is in the store
  (the batch is not committed while the loop runs) and extends the batch.\<close>

function referralLoop ::
  "User collection \<Rightarrow> string \<Rightarrow> nat \<Rightarrow> string \<Rightarrow> string list \<Rightarrow> batch_write list \<Rightarrow> batch_write list" where
  "referralLoop us userId level currentReferralCode processedReferrers batch =
     (if level < length bonusLevels then
        (if currentReferralCode = [] \<or> currentReferralCode = ''Not set'' then batch
         else case query_where (\<lambda>u. referralCode u = currentReferralCode) us of
             [] \<Rightarrow> batch
           | referrerDoc # _ \<Rightarrow>
               let referrerId = fst referrerDoc in
               if referrerId \<in> set processedReferrers then batch
               else
                 let referrerData = snd referrerDoc in
                 referralLoop us userId (level + 1) (referralCodeFriend referrerData)
                   (referrerId # processedReferrers)
                   (batch @
                     [UpdateUser referrerId
                        (\<lambda>u. incrementField (bonusGive ! level) (bonusLevels ! level)
                               (u\<lparr>referrals := arrayUnion userId (referrals u)\<rparr>)),
                      SetTransaction (referralTx level referrerId referrerData)]))
      else batch)"
  by pat_completeness auto
termination
  by (relation "measure (\<lambda>(us, userId, level, code, seen, batch). length bonusLevels - level)") auto

declare referralLoop.simps [simp del]

definition processReferralBonuses :: "string \<Rightarrow> string \<Rightarrow> db \<Rightarrow> outcome" where
  "processReferralBonuses userId referralCodeFriend' s =
     (if referralCodeFriend' = [] \<or> referralCodeFriend' = ''Not set'' then Inr s
      else case commit (referralLoop (users s) userId 0 referralCodeFriend' [] []) s of
          None \<Rightarrow> Inl (notFoundError, s)
        | Some s1 \<Rightarrow> Inr s1)"

text \<open>\<open>approveUser\<close> of the users administration panel: the same loop, in a batch that
  starts with the approval itself.\<close>

definition approveUser :: "string \<Rightarrow> db \<Rightarrow> outcome" where
  "approveUser userId s =
     (case getDoc (users s) userId of
        None \<Rightarrow> Inl (''Failed to approve user'', s)
      | Some userData \<Rightarrow>
          (case commit (referralLoop (users s) userId 0 (referralCodeFriend userData) []
                          [UpdateUser userId (\<lambda>u. u\<lparr>approved := True\<rparr>)]) s of
             None \<Rightarrow> Inl (''Failed to approve user'', s)
           | Some s1 \<Rightarrow> Inr s1))"

section \<open>Administrator balance adjustment\<close>

text \<open>\<open>updateUserBalance\<close>: the administrator is prompted for the new amount.\<close>

datatype prompt_answer = PromptCancelled | PromptNaN | PromptNumber int

definition fieldOf :: "BalanceField \<Rightarrow> User \<Rightarrow> int" where
  "fieldOf f u = (case f of PointsField \<Rightarrow> points u | CashField \<Rightarrow> cash u)"

definition showSigned :: "int \<Rightarrow> piece list" where
  "showSigned d = [Lit (if d \<ge> 0 then ''+'' else ''''), Num d]"

definition updateUserBalance :: "string \<Rightarrow> BalanceField \<Rightarrow> prompt_answer \<Rightarrow> db \<Rightarrow> outcome" where
  "updateUserBalance userId type newAmount s =
     (case newAmount of
        PromptCancelled \<Rightarrow> Inr s
      | PromptNaN \<Rightarrow> Inl (''Please enter a valid number'', s)
      | PromptNumber amount \<Rightarrow>
          (case getDoc (users s) userId of
             None \<Rightarrow> Inl (''Failed to update user '' @ fieldName type, s)
           | Some userData \<Rightarrow>
               let currentAmount = orZero (fieldOf type userData);
                   difference = amount - currentAmount in
               case updateDoc userId (incrementField type difference) (users s) of
                 None \<Rightarrow> Inl (''Failed to update user '' @ fieldName type, s)
               | Some us1 \<Rightarrow>
                   Inr (s\<lparr>users := us1,
                          transactions := transactions s @
                            [\<lparr>tx_userId = userId, tx_username = username userData,
                              tx_amount = Some difference,
                              tx_type = ''admin_'' @ fieldName type @ ''_update'',
                              tx_description =
                                [Lit ''Admin adjusted '', Lit (fieldName type), Lit '' by '']
                                @ showSigned difference,
                              tx_balanceAfter = None\<rparr>]\<rparr>)))"

section \<open>A ledger used in the examples\<close>

definition ex_request :: "string \<Rightarrow> string \<Rightarrow> string \<Rightarrow> string \<Rightarrow> int \<Rightarrow> Request" where
  "ex_request uid uname rid rname a =
     \<lparr>req_userId = uid, req_username = uname, req_type = PointTransfer, req_recipientId = rid,
      req_recipientUsername = rname, req_amount = a, req_status = ReqPending,
      req_declineReason = None, req_directTransfer = False\<rparr>"

definition ex_upgrade :: Request where
  "ex_upgrade =
     \<lparr>req_userId = ''u2'', req_username = ''bob'', req_type = VipUpgrade, req_recipientId = [],
      req_recipientUsername = [], req_amount = 0, req_status = ReqPending,
      req_declineReason = None, req_directTransfer = False\<rparr>"

definition ex_investment :: "InvestmentStatus \<Rightarrow> rat \<Rightarrow> Investment" where
  "ex_investment st rate =
     \<lparr>inv_userId = ''u1'', inv_username = ''alice'', inv_amount = 1000, inv_status = st,
      inv_interestRate = rate, inv_releaseDate = None, inv_adminNotes = None\<rparr>"

definition ex_ultra_bet :: UltraManualBet where
  "ex_ultra_bet =
     \<lparr>ub_userId = ''u2'', ub_username = ''bob'', ub_amount = 40, ub_note = ''red wins'',
      ub_status = Pending, ub_winAmount = None\<rparr>"

definition ex_ledger_db :: db where
  "ex_ledger_db =
     \<lparr>users = [(''u1'', ex_alice), (''u2'', ex_bob)],
      requests = [(''q1'', ex_request ''u1'' ''alice'' ''u2'' ''bob'' 50),
                  (''q2'', ex_request ''u2'' ''bob'' ''u1'' ''alice'' 50),
                  (''q3'', ex_request ''u2'' ''bob'' ''u1'' ''alice'' 5000),
                  (''q4'', ex_upgrade)],
      investments = [(''i1'', ex_investment InvPending 0), (''i2'', ex_investment InvApproved 5)],
      diceRounds = [], diceBets = [],
      ultraManualBets = [(''m1'', ex_ultra_bet)],
      winners = [], transactions = []\<rparr>"



subsection \<open>A ledger on JavaScript numbers\<close>

definition ex_holder :: "string \<Rightarrow> string \<Rightarrow> number \<Rightarrow> number User_of" where
  "ex_holder name code p =
     \<lparr>username = name, points = p, cash = Number 0, referralCode = code,
      referralCodeFriend = ''Not set'', referrals = [], approved = True\<rparr>"

definition ex_transfer :: "string \<Rightarrow> string \<Rightarrow> string \<Rightarrow> string \<Rightarrow> number \<Rightarrow> number Request_of" where
  "ex_transfer uid uname rid rname a =
     \<lparr>req_userId = uid, req_username = uname, req_type = PointTransfer, req_recipientId = rid,
      req_recipientUsername = rname, req_amount = a, req_status = ReqPending,
      req_declineReason = None, req_directTransfer = False\<rparr>"

text \<open>Alice holds 100 points and bob \<open>bobPoints\<close>; each has asked to transfer \<open>amount\<close>
  to the other.\<close>

definition ex_number_db :: "number \<Rightarrow> number \<Rightarrow> number db_of" where
  "ex_number_db bobPoints amount =
     \<lparr>users = [(''u1'', ex_holder ''alice'' ''FBT100'' (Number 100)),
               (''u2'', ex_holder ''bob'' ''FBT200'' bobPoints)],
      requests = [(''q1'', ex_transfer ''u1'' ''alice'' ''u2'' ''bob'' amount),
                  (''q2'', ex_transfer ''u2'' ''bob'' ''u1'' ''alice'' amount)],
      investments = [], diceRounds = [(''r1'', ex_round)], diceBets = [],
      ultraManualBets = [], winners = [], transactions = []\<rparr>"

text \<open>The administrator approves alice's request, and then bob's.\<close>

definition ex_there :: "number \<Rightarrow> number db_of \<Rightarrow> number outcome_of" where
  "ex_there amount s =
     handleTransferRequest False (''q1'', ex_transfer ''u1'' ''alice'' ''u2'' ''bob'' amount) True s"

definition ex_back :: "number \<Rightarrow> number db_of \<Rightarrow> number outcome_of" where
  "ex_back amount s =
     handleTransferRequest False (''q2'', ex_transfer ''u2'' ''bob'' ''u1'' ''alice'' amount) True
       (state_of (ex_there amount s))"

text \<open>Bob, holding 500 points, stakes 2.3 points on number 4 of the open dice round.\<close>

definition ex_stake_run :: "number outcome_of" where
  "ex_stake_run =
     DiceGame_handleBet (Some (''u2'', ex_holder ''bob'' ''FBT200'' (Number 500)))
       (Some (''r1'', ex_round)) (Some (double (23 / 10))) 4 ''b9''
       (ex_number_db (Number 500) (Number 15))"

section \<open>The referral chain of the specification\<close>

text \<open>
  The chain of ancestors reached from a referral code: the account that owns the code,
  then the account that owns that account's referrer code, and so on, followed for at most
  \<open>n\<close> links.  Unlike the loop of the code it keeps no set of visited accounts.
\<close>

fun referralChain :: "User collection \<Rightarrow> string \<Rightarrow> nat \<Rightarrow> (string \<times> User) list" where
  "referralChain us code 0 = []"
| "referralChain us code (Suc n) =
     (if code = [] \<or> code = ''Not set'' then []
      else case query_where (\<lambda>u. referralCode u = code) us of
          [] \<Rightarrow> []
        | d # _ \<Rightarrow> d # referralChain us (referralCodeFriend (snd d)) n)"

text \<open>The documented schedule: level 1 pays 100 points, levels 2 to 5 pay 5, 5, 10 and 30
  cash; the transaction of level \<open>N\<close> is tagged \<open>referral_bonus_level_N\<close>.\<close>

definition scheduledBonus :: "nat \<Rightarrow> BalanceField \<times> int" where
  "scheduledBonus level =
     (if level = 1 then (PointsField, 100)
      else if level = 2 then (CashField, 5)
      else if level = 3 then (CashField, 5)
      else if level = 4 then (CashField, 10)
      else (CashField, 30))"

definition levelTag :: "nat \<Rightarrow> string" where
  "levelTag level =
     (if level = 1 then ''referral_bonus_level_1''
      else if level = 2 then ''referral_bonus_level_2''
      else if level = 3 then ''referral_bonus_level_3''
      else if level = 4 then ''referral_bonus_level_4''
      else ''referral_bonus_level_5'')"

definition creditedAncestor :: "string \<Rightarrow> nat \<Rightarrow> User \<Rightarrow> User" where
  "creditedAncestor userId level u =
     (case fst (scheduledBonus level) of
        PointsField \<Rightarrow> u\<lparr>points := points u + snd (scheduledBonus level),
                         referrals := arrayUnion userId (referrals u)\<rparr>
      | CashField \<Rightarrow> u\<lparr>cash := cash u + snd (scheduledBonus level),
                       referrals := arrayUnion userId (referrals u)\<rparr>)"

subsection \<open>Auxiliary notions for the referral batch\<close>

text \<open>The accounts the loop visits, the two writes it adds for one of them, and the
  effect of a batch on the users collection and on the transaction log.\<close>

fun walk :: "User collection \<Rightarrow> string \<Rightarrow> nat \<Rightarrow> string list \<Rightarrow> (string \<times> User) list" where
  "walk us code 0 seen = []"
| "walk us code (Suc n) seen =
     (if code = [] \<or> code = ''Not set'' then []
      else case query_where (\<lambda>u. referralCode u = code) us of
          [] \<Rightarrow> []
        | d # _ \<Rightarrow>
            if fst d \<in> set seen then []
            else d # walk us (referralCodeFriend (snd d)) n (fst d # seen))"

definition levelCredit :: "string \<Rightarrow> nat \<Rightarrow> User \<Rightarrow> User" where
  "levelCredit userId level u =
     incrementField (bonusGive ! level) (bonusLevels ! level)
       (u\<lparr>referrals := arrayUnion userId (referrals u)\<rparr>)"

definition levelWrites :: "string \<Rightarrow> nat \<Rightarrow> string \<times> User \<Rightarrow> batch_write list" where
  "levelWrites userId level d =
     [UpdateUser (fst d) (levelCredit userId level),
      SetTransaction (referralTx level (fst d) (snd d))]"

definition usersAfter :: "batch_write list \<Rightarrow> User collection \<Rightarrow> User collection" where
  "usersAfter ws c = fold (\<lambda>w c. case w of UpdateUser k f \<Rightarrow> mergeDoc k f c | _ \<Rightarrow> c) ws c"

definition txsOf :: "batch_write list \<Rightarrow> Transaction list" where
  "txsOf ws = concat (map (\<lambda>w. case w of SetTransaction t \<Rightarrow> [t] | _ \<Rightarrow> []) ws)"

definition userWrites :: "User collection \<Rightarrow> batch_write \<Rightarrow> bool" where
  "userWrites c w =
     (case w of UpdateUser k f \<Rightarrow> getDoc c k \<noteq> None | SetTransaction t \<Rightarrow> True | _ \<Rightarrow> False)"

subsection \<open>Referral graphs used in the examples\<close>

definition ex_member :: "string \<Rightarrow> string \<Rightarrow> string \<Rightarrow> User" where
  "ex_member name code friend =
     \<lparr>username = name, points = 500, cash = 20, referralCode = code,
      referralCodeFriend = friend, referrals = [], approved = True\<rparr>"

definition ex_chain_db :: db where
  "ex_chain_db =
     \<lparr>users = [(''a1'', ex_member ''ann'' ''FBT100'' ''FBT200''),
               (''a2'', ex_member ''ben'' ''FBT200'' ''FBT300''),
               (''a3'', ex_member ''cat'' ''FBT300'' ''Not set''),
               (''n1'', (ex_member ''new'' ''FBT400'' ''FBT100'')\<lparr>approved := False\<rparr>)],
      requests = [], investments = [], diceRounds = [], diceBets = [], ultraManualBets = [],
      winners = [], transactions = []\<rparr>"

definition ex_cycle_db :: db where
  "ex_cycle_db =
     \<lparr>users = [(''a1'', ex_member ''ann'' ''FBT100'' ''FBT200''),
               (''a2'', ex_member ''ben'' ''FBT200'' ''FBT100''),
               (''n1'', (ex_member ''new'' ''FBT400'' ''FBT100'')\<lparr>approved := False\<rparr>)],
      requests = [], investments = [], diceRounds = [], diceBets = [], ultraManualBets = [],
      winners = [], transactions = []\<rparr>"

text \<open>The level at which each visited account is credited.\<close>

definition levelOf :: "(string \<times> User) list \<Rightarrow> (string \<times> nat) list" where
  "levelOf cr = map (\<lambda>(l, d). (fst d, l)) (zip [0..<5] cr)"

section \<open>Sequences of operations\<close>

text \<open>
  The operations of the user and administration panels, with the inputs the panels supply.
  A user panel passes the signed-in user as the client holds it; an administration panel
  passes a document it lists, which is the stored document: transfer requests and
  ultra-manual bets are listed while pending, an investment can be approved or declined
  while pending and completed while approved, a dice round is resolved while open, and a
  user is approved while not yet approved.
\<close>

datatype operation =
    OpTransferPoints string string int bool string
  | OpHandleTransferRequest string bool
  | OpDiceBet "(string \<times> User) option" "(string \<times> DiceRound) option" "int option" int string
  | OpCloseRoundAndResolve string "(int \<times> DiceColor) list"
  | OpInvest "(string \<times> User) option" "int option" string
  | OpApproveInvestment string "rat option" "int option" string int
  | OpDeclineInvestment string bool
  | OpCompleteInvestment string bool
  | OpUltraBet "(string \<times> User) option" "int option" string string
  | OpCancelBet string
  | OpLoseBet string
  | OpWinBet string "int option"
  | OpApproveUser string
  | OpUpdateUserBalance string BalanceField prompt_answer

definition listed :: "'a collection \<Rightarrow> string \<Rightarrow> ('a \<Rightarrow> bool) \<Rightarrow> (string \<times> 'a) option" where
  "listed c k shown =
     (case getDoc c k of None \<Rightarrow> None | Some d \<Rightarrow> if shown d then Some (k, d) else None)"

fun step :: "operation \<Rightarrow> db \<Rightarrow> outcome" where
  "step (OpTransferPoints userId recipientIdentifier amount directTransfer newId) s =
     transferPoints userId recipientIdentifier amount directTransfer newId s"
| "step (OpHandleTransferRequest rid approve) s =
     (case listed (requests s) rid (\<lambda>r. req_type r = PointTransfer \<and> req_status r = ReqPending) of
        None \<Rightarrow> Inr s
      | Some request \<Rightarrow> handleTransferRequest False request approve s)"
| "step (OpDiceBet user rnd amount num newId) s = DiceGame_handleBet user rnd amount num newId s"
| "step (OpCloseRoundAndResolve rid numberColors) s =
     closeRoundAndResolve (listed (diceRounds s) rid (\<lambda>r. round_status r = RoundOpen))
       numberColors s"
| "step (OpInvest user amount newId) s = InvestmentsGame_handleSubmit user amount newId s"
| "step (OpApproveInvestment iid interestRate releaseDate adminNotes now) s =
     submitApproval (listed (investments s) iid (\<lambda>i. inv_status i = InvPending))
       interestRate releaseDate adminNotes now s"
| "step (OpDeclineInvestment iid confirmed) s =
     (case listed (investments s) iid (\<lambda>i. inv_status i = InvPending) of
        None \<Rightarrow> Inr s
      | Some investment \<Rightarrow> handleDecline confirmed investment s)"
| "step (OpCompleteInvestment iid confirmed) s =
     (case listed (investments s) iid (\<lambda>i. inv_status i = InvApproved) of
        None \<Rightarrow> Inr s
      | Some investment \<Rightarrow> handleComplete confirmed investment s)"
| "step (OpUltraBet user amount betNote newId) s =
     UltraManualGame_handleSubmit user amount betNote newId s"
| "step (OpCancelBet bid) s =
     (case listed (ultraManualBets s) bid (\<lambda>b. ub_status b = Pending) of
        None \<Rightarrow> Inl (''Bet not found'', s)
      | Some bet \<Rightarrow> cancelBet bet s)"
| "step (OpLoseBet bid) s =
     (case listed (ultraManualBets s) bid (\<lambda>b. ub_status b = Pending) of
        None \<Rightarrow> Inl (''Bet not found'', s)
      | Some bet \<Rightarrow> processBet bet False None s)"
| "step (OpWinBet bid winAmount) s =
     (case listed (ultraManualBets s) bid (\<lambda>b. ub_status b = Pending) of
        None \<Rightarrow> Inl (''Bet not found'', s)
      | Some bet \<Rightarrow> handleWinSubmit (Some bet) winAmount s)"
| "step (OpApproveUser userId) s =
     (case listed (users s) userId (\<lambda>u. \<not> approved u) of
        None \<Rightarrow> Inr s
      | Some u \<Rightarrow> approveUser userId s)"
| "step (OpUpdateUserBalance userId field answer) s = updateUserBalance userId field answer s"

fun run :: "operation list \<Rightarrow> db \<Rightarrow> db" where
  "run [] s = s"
| "run (op # ops) s = run ops (state_of (step op s))"

text \<open>The ledger invariant: document ids of accounts are unique, no balance is negative,
  and the stored amounts of transfer requests, investments and ultra-manual bets are
  positive (interest rates are not negative).\<close>

definition userOK :: "User \<Rightarrow> bool" where
  "userOK u = (0 \<le> points u \<and> 0 \<le> cash u)"

definition ledgerOK :: "db \<Rightarrow> bool" where
  "ledgerOK s =
     (distinct (map fst (users s))
      \<and> (\<forall>(k, u) \<in> set (users s). userOK u)
      \<and> (\<forall>(k, r) \<in> set (requests s). req_type r = PointTransfer \<longrightarrow> 0 < req_amount r)
      \<and> (\<forall>(k, i) \<in> set (investments s). 0 < inv_amount i \<and> 0 \<le> inv_interestRate i)
      \<and> (\<forall>(k, b) \<in> set (ultraManualBets s). 0 < ub_amount b))"

text \<open>Every operation except an administrator's balance adjustment to a negative number.\<close>

definition admissible :: "operation \<Rightarrow> bool" where
  "admissible op =
     (case op of
        OpUpdateUserBalance userId field (PromptNumber n) \<Rightarrow> 0 \<le> n
      | _ \<Rightarrow> True)"

text \<open>The writes of a batch that keep the invariant.\<close>

definition keepsOK :: "batch_write \<Rightarrow> bool" where
  "keepsOK w =
     (case w of
        UpdateUser k f \<Rightarrow> (\<forall>u. userOK u \<longrightarrow> userOK (f u))
      | UpdateUltraBet k f \<Rightarrow> (\<forall>b. ub_amount (f b) = ub_amount b)
      | _ \<Rightarrow> True)"

definition ex_ops :: "operation list" where
  "ex_ops =
     [OpTransferPoints ''u1'' ''bob'' 50 True ''t1'',
      OpHandleTransferRequest ''q3'' True,
      OpHandleTransferRequest ''q2'' True,
      OpInvest (Some (''u2'', ex_bob)) (Some 100) ''i3'',
      OpDeclineInvestment ''i1'' True,
      OpCompleteInvestment ''i2'' True,
      OpCancelBet ''m1'',
      OpUpdateUserBalance ''u2'' CashField (PromptNumber 75)]"

section \<open>Verified properties\<close>

subsection \<open>Rounding to a double\<close>

lemma pow2_pos: "0 < pow2 e"
  by (simp add: pow2_def)

lemma roundHalfEven_nonneg: "0 \<le> x \<Longrightarrow> 0 \<le> roundHalfEven x"
  by (auto simp: roundHalfEven_def Let_def)

lemma toDouble_nonneg: "0 \<le> x \<Longrightarrow> 0 \<le> toDouble x"
  by (auto simp: toDouble_def Let_def pow2_pos roundHalfEven_nonneg less_imp_le
        intro!: mult_nonneg_nonneg)

lemma roundHalfEven_of_int: "roundHalfEven (of_int m) = m"
  by (simp add: roundHalfEven_def)

lemma bitLength_bounds:
  "0 < n \<Longrightarrow> 0 < bitLength n \<and> 2 ^ nat (bitLength n - 1) \<le> n \<and> n < 2 ^ nat (bitLength n)"
proof (induction n rule: bitLength.induct)
  case (1 n)
  show ?case
  proof (cases "n = 1")
    case True
    have "bitLength 1 = 1" by (simp add: bitLength.simps [of 1] bitLength.simps [of 0])
    with True show ?thesis by simp
  next
    case False
    with "1.prems" have h: "0 < n div 2" by simp
    from "1.prems" have n: "\<not> n \<le> 0" by simp
    from "1.IH" [OF n h] have IH: "0 < bitLength (n div 2)"
        "2 ^ nat (bitLength (n div 2) - 1) \<le> n div 2" "n div 2 < 2 ^ nat (bitLength (n div 2))"
      by simp_all
    have b: "bitLength n = 1 + bitLength (n div 2)"
      using n by (simp add: bitLength.simps [of n])
    have e: "nat (bitLength n - 1) = Suc (nat (bitLength (n div 2) - 1))"
      using IH(1) b by simp
    have e': "nat (bitLength n) = Suc (nat (bitLength (n div 2)))"
      using IH(1) b by simp
    have "2 * 2 ^ nat (bitLength (n div 2) - 1) \<le> 2 * (n div 2)" using IH(2) by simp
    also have "\<dots> \<le> n" by simp
    finally have lo: "2 ^ nat (bitLength n - 1) \<le> n" by (simp add: e)
    have "n div 2 + 1 \<le> 2 ^ nat (bitLength (n div 2))" using IH(3) by simp
    then have "2 * (n div 2) + 2 \<le> 2 * 2 ^ nat (bitLength (n div 2))" by simp
    moreover have "n < 2 * (n div 2) + 2" by presburger
    ultimately have hi: "n < 2 ^ nat (bitLength n)" by (simp add: e')
    from lo hi b IH(1) show ?thesis by simp
  qed
qed

lemma bitLength_1: "bitLength 1 = 1"
  by (simp add: bitLength.simps [of 1] bitLength.simps [of 0])

lemma leadingExponent_of_int:
  assumes "0 < n"
  shows "leadingExponent (of_int n) = bitLength n - 1"
proof -
  from bitLength_bounds [OF assms]
  have b: "0 < bitLength n" "2 ^ nat (bitLength n - 1) \<le> n" by simp_all
  have "(2::rat) ^ nat (bitLength n - 1) = of_int (2 ^ nat (bitLength n - 1))" by simp
  also have "\<dots> \<le> of_int n" using b(2) by (simp only: of_int_le_iff)
  finally have "pow2 (bitLength n - 1) \<le> of_int n" using b(1) by (simp add: pow2_def)
  then show ?thesis by (simp add: leadingExponent_def bitLength_1)
qed

lemma toDouble_of_nat_int:
  assumes "0 < n" and "n \<le> 2 ^ 53"
  shows "toDouble (of_int n) = of_int n"
proof -
  from bitLength_bounds [OF assms(1)]
  have b: "0 < bitLength n" "2 ^ nat (bitLength n - 1) \<le> n" by simp_all
  from b(2) assms(2) have le: "(2::int) ^ nat (bitLength n - 1) \<le> 2 ^ 53" by (rule order_trans)
  have "nat (bitLength n - 1) \<le> 53" by (rule power_le_imp_le_exp [OF _ le]) simp
  then have k: "bitLength n - 1 \<le> 53" using b(1) by simp
  define e where "e = bitLength n - 1 - 52"
  have e: "- 52 \<le> e" "e \<le> 1" using k b(1) by (simp_all add: e_def)
  have m: "max (leadingExponent \<bar>of_int n\<bar> - 52) (- 1074) = e"
    using assms(1) e by (simp add: leadingExponent_of_int e_def)
  have "\<exists>m. (of_int n :: rat) / pow2 e = of_int m"
  proof (cases "e \<le> 0")
    case True
    have "(of_int n :: rat) / pow2 e = of_int (n * 2 ^ nat (- e))"
      using True by (auto simp: pow2_def)
    then show ?thesis by blast
  next
    case False
    with e have e1: "e = 1" by simp
    then have "bitLength n - 1 = 53" by (simp add: e_def)
    with b(2) assms(2) have "n = 2 ^ 53" by simp
    then have "(of_int n :: rat) / pow2 e = of_int (2 ^ 52)" by (simp add: e1 pow2_def)
    then show ?thesis by blast
  qed
  then obtain m where mm: "(of_int n :: rat) / pow2 e = of_int m" by blast
  have "of_int m * pow2 e = (of_int n :: rat)"
    using mm pow2_pos [of e] by (simp add: field_simps)
  then show ?thesis
    using assms(1) m mm by (simp add: toDouble_def roundHalfEven_of_int)
qed

lemma toDouble_of_int:
  assumes "\<bar>n\<bar> \<le> 2 ^ 53"
  shows "toDouble (of_int n) = of_int n"
proof (cases "n = 0")
  case True
  then show ?thesis by (simp add: toDouble_def)
next
  case False
  show ?thesis
  proof (cases "0 < n")
    case True
    with assms show ?thesis by (simp add: toDouble_of_nat_int)
  next
    case False
    with \<open>n \<noteq> 0\<close> assms have p: "0 < - n" "- n \<le> 2 ^ 53" by simp_all
    have neg: "toDouble (- x) = - toDouble x" for x
      by (simp add: toDouble_def Let_def)
    have "toDouble (of_int n) = - toDouble (of_int (- n))"
      using neg [of "of_int (- n)"] by simp
    also have "\<dots> = - of_int (- n)" using toDouble_of_nat_int [OF p] by simp
    finally show ?thesis by simp
  qed
qed

subsection \<open>The store\<close>

lemma getDoc_mergeDoc:
  "getDoc (mergeDoc k f c) k' = (if k' = k then map_option f (getDoc c k) else getDoc c k')"
  by (induction c) (auto simp: getDoc_def mergeDoc_def)

lemma map_fst_mergeDoc [simp]: "map fst (mergeDoc k f c) = map fst c"
  by (induction c) (auto simp: mergeDoc_def)

lemma getDoc_distinct: "distinct (map fst c) \<Longrightarrow> (k, v) \<in> set c \<Longrightarrow> getDoc c k = Some v"
  by (simp add: getDoc_def)

lemma getDoc_in_set: "getDoc c k = Some v \<Longrightarrow> (k, v) \<in> set c"
  by (simp add: getDoc_def map_of_SomeD)

lemma map_fst_cond:
  "map fst (map (\<lambda>(k, b). if P b then (k, h b) else (k, b)) c) = map fst c"
  by (induction c) auto

lemma fold_mergeDoc:
  "distinct (map fst bs) \<Longrightarrow>
     fold (\<lambda>(k, b) c. mergeDoc k (g b) c) bs c =
     map (\<lambda>(k, v). case map_of bs k of Some b \<Rightarrow> (k, g b v) | None \<Rightarrow> (k, v)) c"
proof (induction bs arbitrary: c)
  case Nil
  then show ?case by simp
next
  case (Cons x bs)
  obtain k b where x: "x = (k, b)" by (cases x)
  from Cons.prems x have notin: "map_of bs k = None"
    by (simp add: map_of_eq_None_iff)
  from Cons.prems have d: "distinct (map fst bs)" by simp
  have "fold (\<lambda>(k, b) c. mergeDoc k (g b) c) (x # bs) c =
        map (\<lambda>(k', v). case map_of bs k' of Some b' \<Rightarrow> (k', g b' v) | None \<Rightarrow> (k', v))
          (mergeDoc k (g b) c)"
    by (simp add: x Cons.IH [OF d])
  also have "\<dots> =
        map (\<lambda>(k', v). case map_of (x # bs) k' of Some b' \<Rightarrow> (k', g b' v) | None \<Rightarrow> (k', v)) c"
    using notin by (auto simp: x mergeDoc_def)
  finally show ?case .
qed

lemma map_of_filter_distinct:
  "distinct (map fst c) \<Longrightarrow> (k, v) \<in> set c \<Longrightarrow>
     map_of (filter (\<lambda>(k, v). P v) c) k = (if P v then Some v else None)"
proof (induction c)
  case Nil
  then show ?case by simp
next
  case (Cons x c)
  then show ?case
    by (auto simp: map_of_eq_None_iff image_iff rev_image_eqI split: prod.splits)
qed

subsection \<open>Settling a dice round\<close>

lemma commit_diceBets:
  "commit ws s = Some s' \<Longrightarrow> diceBets s' = betsAfter ws (diceBets s)"
proof (induction ws arbitrary: s)
  case Nil
  then show ?case by (simp add: betsAfter_def)
next
  case (Cons w ws)
  then show ?case
    by (cases w) (auto simp: betsAfter_def updateDoc_def split: option.splits)
qed

lemma commit_diceRounds: "commit ws s = Some s' \<Longrightarrow> diceRounds s' = diceRounds s"
proof (induction ws arbitrary: s)
  case Nil
  then show ?case by simp
next
  case (Cons w ws)
  then show ?case
    by (cases w) (auto simp: updateDoc_def split: option.splits)
qed

lemma betsAfter_resolve:
  "betsAfter (concat (map (resolveBet nc) bs)) c =
     fold (\<lambda>(k, b) c. mergeDoc k (resolve nc b) c) bs c"
  by (induction bs arbitrary: c) (auto simp: betsAfter_def resolveBet_def resolve_def Let_def)

lemma closeRound_frame:
  "closeRound rid nc s = Some s1 \<Longrightarrow>
     diceBets s1 = diceBets s \<and> users s1 = users s \<and> transactions s1 = transactions s"
  by (auto simp: closeRound_def)

lemma closeRound_closed:
  "closeRound rid nc s = Some s1 \<Longrightarrow>
     map_option round_status (getDoc (diceRounds s1) rid) = Some RoundClosed"
  by (auto simp: closeRound_def updateDoc_def getDoc_mergeDoc split: option.splits)

lemma closeRoundAndResolve_Inr:
  "closeRoundAndResolve (Some (rid, r)) nc s = Inr s' \<Longrightarrow>
     \<exists>s1. closeRound rid nc s = Some s1 \<and> commit (resolveBatch rid nc s1) s1 = Some s'"
  by (auto simp: closeRoundAndResolve_def split: if_splits option.splits)

lemma resolved_round_bets:
  assumes "closeRound rid nc s = Some s1"
      and "commit (resolveBatch rid nc s1) s1 = Some s'"
      and "distinct (map fst (diceBets s))"
    shows "diceBets s' =
           map (\<lambda>(k, b). if bet_roundId b = rid then (k, resolve nc b b) else (k, b)) (diceBets s)"
proof -
  have bets1: "diceBets s1 = diceBets s" using closeRound_frame [OF assms(1)] by simp
  let ?bs = "filter (\<lambda>(k, b). bet_roundId b = rid) (diceBets s)"
  have d: "distinct (map fst ?bs)" using assms(3) by (simp add: distinct_map_filter)
  have "diceBets s' = fold (\<lambda>(k, b) c. mergeDoc k (resolve nc b) c) ?bs (diceBets s)"
    using commit_diceBets [OF assms(2)]
    by (simp add: resolveBatch_def roundBets_def query_where_def bets1 betsAfter_resolve)
  also have "\<dots> = map (\<lambda>(k, v). case map_of ?bs k of Some b \<Rightarrow> (k, resolve nc b v) | None \<Rightarrow> (k, v))
                     (diceBets s)"
    by (rule fold_mergeDoc [OF d])
  also have "\<dots> = map (\<lambda>(k, b). if bet_roundId b = rid then (k, resolve nc b b) else (k, b))
                     (diceBets s)"
    using map_of_filter_distinct [OF assms(3), where P = "\<lambda>b. bet_roundId b = rid"]
    by (intro map_cong) auto
  finally show ?thesis .
qed

lemma commit_cash:
  "commit ws s = Some s' \<Longrightarrow> \<forall>w \<in> set ws. cashKept w \<Longrightarrow> cashOf s' uid = cashOf s uid"
proof (induction ws arbitrary: s)
  case Nil
  then show ?case by simp
next
  case (Cons w ws)
  then show ?case
    by (cases w)
       (auto simp: cashKept_def cashOf_def updateDoc_def getDoc_mergeDoc option.map_comp comp_def
             split: option.splits)
qed

lemma resolveBatch_cashKept: "\<forall>w \<in> set (resolveBatch rid nc s). cashKept w"
  by (auto simp: resolveBatch_def resolveBet_def cashKept_def Let_def)

lemma dice_bet_resolved:
  assumes run: "closeRoundAndResolve (Some (rid, r)) nc s = Inr s'"
      and ids: "distinct (map fst (diceBets s))"
      and bet: "(bid, b) \<in> set (diceBets s)" "bet_roundId b = rid"
    shows "getDoc (diceBets s') bid = Some (resolve nc b b)"
proof -
  from run obtain s1 where s1: "closeRound rid nc s = Some s1"
      and c: "commit (resolveBatch rid nc s1) s1 = Some s'"
    using closeRoundAndResolve_Inr by blast
  note form = resolved_round_bets [OF s1 c ids]
  have "(bid, resolve nc b b) \<in> set (diceBets s')"
    using bet by (force simp: form)
  moreover have "distinct (map fst (diceBets s'))"
    using ids unfolding form map_fst_cond .
  ultimately show ?thesis
    by (rule getDoc_distinct [rotated])
qed

lemma dice_cash_unchanged:
  assumes run: "closeRoundAndResolve (Some (rid, r)) nc s = Inr s'"
  shows "cashOf s' uid = cashOf s uid"
proof -
  from run obtain s1 where s1: "closeRound rid nc s = Some s1"
      and c: "commit (resolveBatch rid nc s1) s1 = Some s'"
    using closeRoundAndResolve_Inr by blast
  have "cashOf s' uid = cashOf s1 uid"
    using commit_cash [OF c resolveBatch_cashKept] .
  also have "\<dots> = cashOf s uid"
    using closeRound_frame [OF s1] by (simp add: cashOf_def)
  finally show ?thesis .
qed

lemmas ex_dice_defs = ex_alice_def ex_bob_def ex_round_def ex_bet_def ex_colors_def ex_dice_db_def
  ex_dice_run_def

lemmas dice_defs = closeRoundAndResolve_def closeRoundAndResolve_observable_def closeRound_def
  updateDoc_def getDoc_def mergeDoc_def resolveBatch_def roundBets_def query_where_def
  resolveBet_def colorOf_def hasWinner_def payoutOf_def payoutTypeOf_def resolvedBet_def
  cashOf_def pointsOf_def

lemma ex_dice_run_ok: "ex_dice_run = Inr (state_of ex_dice_run)"
  by (simp add: ex_dice_defs dice_defs)

text \<open>
  C1, as stated, fails on the code.  In the example round alice stakes 100 on a number
  coloured white and bob, who holds 500 points, stakes 100 on a number coloured red.  The
  round settles without error; alice's cash is still 0, not \<open>0 + floor(100/10)*5\<close>, and
  bob's points are 300 (his stake plus the payout), not \<open>500 + floor(100/10)*20\<close>.
\<close>

theorem dice_payout_not_credited:
  "\<not> isl ex_dice_run
   \<and> cashOf ex_dice_db ''u1'' = Some 0
   \<and> cashOf (state_of ex_dice_run) ''u1'' \<noteq> Some (0 + 100 div 10 * 5)
   \<and> pointsOf ex_dice_db ''u2'' = Some 500
   \<and> pointsOf (state_of ex_dice_run) ''u2'' \<noteq> Some (500 + 100 div 10 * 20)"
  by (simp add: ex_dice_defs dice_defs)

text \<open>
  C1 (amended).  When a dice round is settled, every bet of the round whose chosen number
  is mapped to a winning colour is marked won, and its payout is recorded on the bet by
  the fixed formula: a white outcome records \<open>floor(amount/10)*5\<close> with payout type
  cash, a red or green outcome records \<open>floor(amount/10)*20\<close> with payout type FBT.
  Settlement credits no cash balance: every account's cash is what it was before.
\<close>

theorem dice_won_bet_payout_recorded:
  assumes "closeRoundAndResolve (Some (rid, r)) numberColors s = Inr s'"
      and "distinct (map fst (diceBets s))"
      and "(bid, b) \<in> set (diceBets s)" and "bet_roundId b = rid"
      and "colorOf numberColors (bet_chosenNumber b) = color" and "color \<noteq> ColNone"
    shows "getDoc (diceBets s') bid =
             Some (b\<lparr>bet_status := Won, bet_resultColor := Some color,
                     bet_payout := Some (if color = White then bet_amount b div 10 * 5
                                         else bet_amount b div 10 * 20),
                     bet_payoutType := Some (if color = White then PayCash else PayFbt)\<rparr>)
           \<and> cashOf s' uid = cashOf s uid"
proof -
  have "resolve numberColors b b =
          b\<lparr>bet_status := Won, bet_resultColor := Some color,
            bet_payout := Some (if color = White then bet_amount b div 10 * 5
                                else bet_amount b div 10 * 20),
            bet_payoutType := Some (if color = White then PayCash else PayFbt)\<rparr>"
    using assms(5,6)
    by (cases color) (simp_all add: resolve_def resolvedBet_def payoutOf_def payoutTypeOf_def)
  then show ?thesis
    using dice_bet_resolved [OF assms(1-4)] dice_cash_unchanged [OF assms(1)] by simp
qed

theorem dice_won_bet_payout_recorded_witness:
  "closeRoundAndResolve (Some (''r1'', ex_round)) ex_colors ex_dice_db = Inr (state_of ex_dice_run)
   \<and> distinct (map fst (diceBets ex_dice_db))
   \<and> (''b2'', ex_bet ''u2'' ''bob'' 2 100) \<in> set (diceBets ex_dice_db)
   \<and> bet_roundId (ex_bet ''u2'' ''bob'' 2 100) = ''r1''
   \<and> colorOf ex_colors (bet_chosenNumber (ex_bet ''u2'' ''bob'' 2 100)) = Red
   \<and> getDoc (diceBets (state_of ex_dice_run)) ''b2'' =
        Some ((ex_bet ''u2'' ''bob'' 2 100)\<lparr>bet_status := Won, bet_resultColor := Some Red,
               bet_payout := Some 200, bet_payoutType := Some PayFbt\<rparr>)
   \<and> cashOf (state_of ex_dice_run) ''u1'' = cashOf ex_dice_db ''u1''"
proof -
  have run: "closeRoundAndResolve (Some (''r1'', ex_round)) ex_colors ex_dice_db
               = Inr (state_of ex_dice_run)"
    using ex_dice_run_ok by (simp add: ex_dice_run_def)
  have ids: "distinct (map fst (diceBets ex_dice_db))"
    by (simp add: ex_dice_db_def)
  have bet: "(''b2'', ex_bet ''u2'' ''bob'' 2 100) \<in> set (diceBets ex_dice_db)"
    by (simp add: ex_dice_db_def)
  have rid: "bet_roundId (ex_bet ''u2'' ''bob'' 2 100) = ''r1''"
    by (simp add: ex_bet_def)
  have col: "colorOf ex_colors (bet_chosenNumber (ex_bet ''u2'' ''bob'' 2 100)) = Red"
    by (simp add: ex_bet_def ex_colors_def colorOf_def)
  from dice_won_bet_payout_recorded [OF run ids bet rid col, of "''u1''"]
  show ?thesis using run ids bet rid col by (simp add: ex_bet_def)
qed

text \<open>
  C10.  A dice bet whose chosen number is assigned a winning colour but whose wagered
  amount is below 10 (a wager is never negative) is marked won with a computed payout
  of 0, and settlement adds no balance update for that bet to the batch.
\<close>

theorem dice_small_bet_won_with_zero_payout:
  assumes "closeRoundAndResolve (Some (rid, r)) numberColors s = Inr s'"
      and "distinct (map fst (diceBets s))"
      and "(bid, b) \<in> set (diceBets s)" and "bet_roundId b = rid"
      and "colorOf numberColors (bet_chosenNumber b) = color" and "color \<noteq> ColNone"
      and "0 \<le> bet_amount b" and "bet_amount b < 10"
    shows "getDoc (diceBets s') bid =
             Some (b\<lparr>bet_status := Won, bet_resultColor := Some color, bet_payout := Some 0,
                     bet_payoutType := payoutTypeOf color\<rparr>)
           \<and> \<not> list_ex isUserWrite (resolveBet numberColors (bid, b))"
proof -
  have z: "bet_amount b div 10 = 0" using assms(7,8) by simp
  have "resolve numberColors b b =
          b\<lparr>bet_status := Won, bet_resultColor := Some color, bet_payout := Some 0,
            bet_payoutType := payoutTypeOf color\<rparr>"
    using assms(5,6) z by (simp add: resolve_def resolvedBet_def payoutOf_def)
  moreover have "\<not> list_ex isUserWrite (resolveBet numberColors (bid, b))"
    using assms(5) z by (simp add: resolveBet_def payoutOf_def Let_def)
  ultimately show ?thesis
    using dice_bet_resolved [OF assms(1-4)] by simp
qed

theorem dice_small_bet_won_with_zero_payout_witness:
  "closeRoundAndResolve (Some (''r1'', ex_round)) ex_colors ex_dice_db = Inr (state_of ex_dice_run)
   \<and> distinct (map fst (diceBets ex_dice_db))
   \<and> (''b3'', ex_bet ''u2'' ''bob'' 3 7) \<in> set (diceBets ex_dice_db)
   \<and> bet_roundId (ex_bet ''u2'' ''bob'' 3 7) = ''r1''
   \<and> colorOf ex_colors (bet_chosenNumber (ex_bet ''u2'' ''bob'' 3 7)) = Green
   \<and> 0 \<le> bet_amount (ex_bet ''u2'' ''bob'' 3 7) \<and> bet_amount (ex_bet ''u2'' ''bob'' 3 7) < 10
   \<and> getDoc (diceBets (state_of ex_dice_run)) ''b3'' =
        Some ((ex_bet ''u2'' ''bob'' 3 7)\<lparr>bet_status := Won, bet_resultColor := Some Green,
               bet_payout := Some 0, bet_payoutType := Some PayFbt\<rparr>)
   \<and> \<not> list_ex isUserWrite (resolveBet ex_colors (''b3'', ex_bet ''u2'' ''bob'' 3 7))"
proof -
  have run: "closeRoundAndResolve (Some (''r1'', ex_round)) ex_colors ex_dice_db
               = Inr (state_of ex_dice_run)"
    using ex_dice_run_ok by (simp add: ex_dice_run_def)
  have ids: "distinct (map fst (diceBets ex_dice_db))"
    by (simp add: ex_dice_db_def)
  have bet: "(''b3'', ex_bet ''u2'' ''bob'' 3 7) \<in> set (diceBets ex_dice_db)"
    by (simp add: ex_dice_db_def)
  have rid: "bet_roundId (ex_bet ''u2'' ''bob'' 3 7) = ''r1''"
    by (simp add: ex_bet_def)
  have col: "colorOf ex_colors (bet_chosenNumber (ex_bet ''u2'' ''bob'' 3 7)) = Green"
    by (simp add: ex_bet_def ex_colors_def colorOf_def)
  have lo: "0 \<le> bet_amount (ex_bet ''u2'' ''bob'' 3 7)" by (simp add: ex_bet_def)
  have hi: "bet_amount (ex_bet ''u2'' ''bob'' 3 7) < 10" by (simp add: ex_bet_def)
  from dice_small_bet_won_with_zero_payout [OF run ids bet rid col _ lo hi]
  show ?thesis using run ids bet rid col lo hi by (simp add: payoutTypeOf_def)
qed

lemma commit_users:
  "commit ws s = Some s' \<Longrightarrow> users s' = usersAfter ws (users s)"
proof (induction ws arbitrary: s)
  case Nil
  then show ?case by (simp add: usersAfter_def)
next
  case (Cons w ws)
  then show ?case
    by (cases w) (auto simp: usersAfter_def updateDoc_def split: option.splits)
qed

lemma closeRound_resolveBatch:
  "closeRound rid nc s = Some s1 \<Longrightarrow> resolveBatch rid nc s1 = resolveBatch rid nc s"
  by (auto simp: closeRound_def resolveBatch_def roundBets_def)

lemma ex_dice_credits:
  "usersAfter (resolveBatch ''r1'' ex_colors ex_dice_db) (users ex_dice_db)
     = [(''u1'', ex_alice), (''u2'', ex_bob\<lparr>points := 300\<rparr>)]"
  by (simp add: ex_dice_defs dice_defs usersAfter_def)

text \<open>
  C4, as stated, fails on the code: the round is closed by a write of its own, before the
  bets are read and the batch is built.  In the example round, the state after that first
  write shows the round closed while bet \<open>b1\<close> is still pending.
\<close>

theorem dice_round_closed_with_pending_bets:
  "map_option round_status
     (getDoc (diceRounds
        (closeRoundAndResolve_observable (Some (''r1'', ex_round)) ex_colors ex_dice_db ! 1)) ''r1'')
     = Some RoundClosed
   \<and> map_option bet_status
     (getDoc (diceBets
        (closeRoundAndResolve_observable (Some (''r1'', ex_round)) ex_colors ex_dice_db ! 1)) ''b1'')
     = Some Pending"
  by (simp add: ex_dice_defs dice_defs)

text \<open>
  C4 (amended).  Resolving a dice round first commits the round's transition from open to
  closed as a write of its own, and then commits all bet status updates and points
  credits as one atomic batch.  So every state a reader can observe either still has all
  bets and all accounts exactly as they were before the operation (the round may already
  be closed in it), or has the round closed and every write of the batch applied: every
  bet of the round is resolved (won or lost) and every points credit of the batch is made.
  No state has some of the round's bets resolved and others not, or bets resolved and a
  credit missing.
\<close>

theorem dice_round_bets_resolved_together:
  assumes "t \<in> set (closeRoundAndResolve_observable (Some (rid, r)) numberColors s)"
      and "distinct (map fst (diceBets s))"
    shows "(diceBets t = diceBets s \<and> users t = users s)
           \<or> (map_option round_status (getDoc (diceRounds t) rid) = Some RoundClosed
              \<and> diceBets t = betsAfter (resolveBatch rid numberColors s) (diceBets s)
              \<and> users t = usersAfter (resolveBatch rid numberColors s) (users s)
              \<and> (\<forall>(k, b) \<in> set (roundBets rid t). bet_status b = Won \<or> bet_status b = Lost))"
proof (cases "hasWinner numberColors")
  case False
  with assms(1) have "t = s" by (simp add: closeRoundAndResolve_observable_def)
  then show ?thesis by simp
next
  case True
  show ?thesis
  proof (cases "closeRound rid numberColors s")
    case None
    with assms(1) True have "t = s" by (simp add: closeRoundAndResolve_observable_def)
    then show ?thesis by simp
  next
    case (Some s1)
    note s1 = this
    have frame: "diceBets s1 = diceBets s" "users s1 = users s"
      using closeRound_frame [OF s1] by simp_all
    note batch = closeRound_resolveBatch [OF s1]
    show ?thesis
    proof (cases "commit (resolveBatch rid numberColors s1) s1")
      case None
      with assms(1) True s1 have "t = s \<or> t = s1"
        by (simp add: closeRoundAndResolve_observable_def)
      then show ?thesis using frame by blast
    next
      case (Some s2)
      note form = resolved_round_bets [OF s1 Some assms(2)]
      have closed: "map_option round_status (getDoc (diceRounds s2) rid) = Some RoundClosed"
        using closeRound_closed [OF s1] commit_diceRounds [OF Some] by simp
      have bets: "diceBets s2 = betsAfter (resolveBatch rid numberColors s) (diceBets s)"
        using commit_diceBets [OF Some] by (simp add: batch frame)
      have credits: "users s2 = usersAfter (resolveBatch rid numberColors s) (users s)"
        using commit_users [OF Some] by (simp add: batch frame)
      have "bet_status b = Won \<or> bet_status b = Lost" if "(k, b) \<in> set (roundBets rid s2)" for k b
      proof -
        from that obtain b0 where "b = resolve numberColors b0 b0"
          by (auto simp: roundBets_def query_where_def form split: if_splits)
        then show ?thesis by (simp add: resolve_def resolvedBet_def)
      qed
      then have all: "\<forall>(k, b) \<in> set (roundBets rid s2). bet_status b = Won \<or> bet_status b = Lost"
        by blast
      from assms(1) True s1 Some have "t = s \<or> t = s1 \<or> t = s2"
        by (simp add: closeRoundAndResolve_observable_def)
      then show ?thesis using frame closed bets credits all by blast
    qed
  qed
qed

theorem dice_round_bets_resolved_together_witness:
  "state_of ex_dice_run
     \<in> set (closeRoundAndResolve_observable (Some (''r1'', ex_round)) ex_colors ex_dice_db)
   \<and> distinct (map fst (diceBets ex_dice_db))
   \<and> \<not> (diceBets (state_of ex_dice_run) = diceBets ex_dice_db
        \<and> users (state_of ex_dice_run) = users ex_dice_db)
   \<and> map_option round_status (getDoc (diceRounds (state_of ex_dice_run)) ''r1'') = Some RoundClosed
   \<and> diceBets (state_of ex_dice_run)
        = betsAfter (resolveBatch ''r1'' ex_colors ex_dice_db) (diceBets ex_dice_db)
   \<and> users (state_of ex_dice_run) = [(''u1'', ex_alice), (''u2'', ex_bob\<lparr>points := 300\<rparr>)]
   \<and> list_all (\<lambda>(k, b). bet_status b = Won \<or> bet_status b = Lost)
         (roundBets ''r1'' (state_of ex_dice_run))"
proof -
  have mem: "state_of ex_dice_run
     \<in> set (closeRoundAndResolve_observable (Some (''r1'', ex_round)) ex_colors ex_dice_db)"
    by (simp add: ex_dice_defs dice_defs)
  have ids: "distinct (map fst (diceBets ex_dice_db))"
    by (simp add: ex_dice_db_def)
  have changed: "\<not> (diceBets (state_of ex_dice_run) = diceBets ex_dice_db
        \<and> users (state_of ex_dice_run) = users ex_dice_db)"
    by (simp add: ex_dice_defs dice_defs)
  from dice_round_bets_resolved_together [OF mem ids] changed
  have "map_option round_status (getDoc (diceRounds (state_of ex_dice_run)) ''r1'') = Some RoundClosed
        \<and> diceBets (state_of ex_dice_run)
            = betsAfter (resolveBatch ''r1'' ex_colors ex_dice_db) (diceBets ex_dice_db)
        \<and> users (state_of ex_dice_run)
            = usersAfter (resolveBatch ''r1'' ex_colors ex_dice_db) (users ex_dice_db)
        \<and> (\<forall>(k, b) \<in> set (roundBets ''r1'' (state_of ex_dice_run)).
              bet_status b = Won \<or> bet_status b = Lost)"
    by blast
  with mem ids changed show ?thesis
    by (simp add: list_all_iff ex_dice_credits)
qed

subsection \<open>Point transfers\<close>

lemma orZero_id [simp]: "orZero x = x"
  by (simp add: orZero_def)

lemma updateDoc_Some: "getDoc c k = Some v \<Longrightarrow> updateDoc k f c = Some (mergeDoc k f c)"
  by (simp add: updateDoc_def)

lemma updateDoc_None: "getDoc c k = None \<Longrightarrow> updateDoc k f c = None"
  by (simp add: updateDoc_def)

lemma query_where_mergeDoc:
  assumes "\<forall>u. p (f u) = p u"
  shows "query_where p (mergeDoc k f c) = mergeDoc k f (query_where p c)"
proof (induction c)
  case Nil
  show ?case by (simp add: query_where_def mergeDoc_def)
next
  case (Cons x c)
  obtain k' v where x: "x = (k', v)" by (cases x)
  from Cons have IH: "filter (\<lambda>(k, v). p v) (mergeDoc k f c) = mergeDoc k f (filter (\<lambda>(k, v). p v) c)"
    by (simp add: query_where_def)
  have pf: "p (f v) = p v" using assms by simp
  show ?case
    unfolding query_where_def x
    using IH pf by (simp add: mergeDoc_def)
qed

lemma recipientQuery_mergeDoc:
  assumes "\<forall>u. username (f u) = username u" and "\<forall>u. referralCode (f u) = referralCode u"
  shows "recipientQuery ident (mergeDoc k f c) = mergeDoc k f (recipientQuery ident c)"
proof -
  have "query_where (\<lambda>u. referralCode u = ident) (mergeDoc k f c)
          = mergeDoc k f (query_where (\<lambda>u. referralCode u = ident) c)"
    by (rule query_where_mergeDoc) (simp add: assms(2))
  moreover have "query_where (\<lambda>u. username u = toLowerCase ident) (mergeDoc k f c)
          = mergeDoc k f (query_where (\<lambda>u. username u = toLowerCase ident) c)"
    by (rule query_where_mergeDoc) (simp add: assms(1))
  ultimately show ?thesis by (simp add: recipientQuery_def)
qed

lemma recipientQuery_subset: "set (recipientQuery ident c) \<subseteq> set c"
  by (auto simp: recipientQuery_def query_where_def)

lemma mergeDoc_Cons: "mergeDoc k f ((k', v) # c) = (k', if k' = k then f v else v) # mergeDoc k f c"
  by (simp add: mergeDoc_def)

lemma direct_transfer_result:
  assumes "userId \<noteq> []" and "ident \<noteq> []" and "\<not> (amount = 0 \<or> amount \<le> 0)"
      and "getDoc (users s) userId = Some userData" and "\<not> points userData < amount"
      and "recipientQuery ident (users s) = (recipientId, recipientData) # rest"
      and "recipientId \<noteq> userId"
      and "getDoc (users s) recipientId = Some recipientData"
    shows "\<exists>s'. transferPoints userId ident amount True newId s = Inr s'
             \<and> users s' = mergeDoc recipientId (\<lambda>u. u\<lparr>points := points recipientData + amount\<rparr>)
                             (mergeDoc userId (\<lambda>u. u\<lparr>points := points userData - amount\<rparr>) (users s))"
  using assms
  by (simp add: transferPoints_def updateDoc_Some getDoc_mergeDoc Let_def)

lemma approved_transfer_result:
  assumes "getDoc (users s) (req_userId r) = Some senderData"
      and "\<not> points senderData < req_amount r"
      and "getDoc (users s) (req_recipientId r) = Some recipientData"
      and "req_recipientId r \<noteq> req_userId r"
      and "getDoc (requests s) rid = Some stored"
    shows "\<exists>s'. handleTransferRequest False (rid, r) True s = Inr s'
             \<and> users s' = mergeDoc (req_recipientId r)
                               (\<lambda>u. u\<lparr>points := points recipientData + req_amount r\<rparr>)
                             (mergeDoc (req_userId r)
                               (\<lambda>u. u\<lparr>points := points senderData - req_amount r\<rparr>) (users s))
             \<and> requests s' = mergeDoc rid (\<lambda>q. q\<lparr>req_status := ReqApproved\<rparr>) (requests s)"
  using assms
  by (simp add: handleTransferRequest_def setRequestStatus_def updateDoc_Some getDoc_mergeDoc Let_def)

lemmas ex_ledger_defs = ex_alice_def ex_bob_def ex_request_def ex_upgrade_def ex_investment_def
  ex_ultra_bet_def ex_ledger_db_def

lemma lower_bob: "toLowerCase ''bob'' = ''bob''"
  by code_simp

text \<open>
  C5.  When the administrator processes a point-transfer request, approving or declining,
  and the sender's points at that moment are less than the requested amount, the request
  is marked declined with the reason \<open>Insufficient points\<close>; no account and no
  transaction log entry is written, so there is no partial transfer.
\<close>

theorem transfer_request_auto_declined:
  assumes "getDoc (users s) (req_userId r) = Some senderData"
      and "points senderData < req_amount r"
      and "getDoc (requests s) rid = Some stored"
    shows "\<exists>s'. handleTransferRequest False (rid, r) approve s = Inr s'
             \<and> users s' = users s \<and> transactions s' = transactions s
             \<and> getDoc (requests s') rid =
                 Some (stored\<lparr>req_status := ReqDeclined,
                              req_declineReason := Some ''Insufficient points''\<rparr>)"
  using assms
  by (simp add: handleTransferRequest_def setRequestStatus_def updateDoc_Some getDoc_mergeDoc)

theorem transfer_request_auto_declined_witness:
  "getDoc (users ex_ledger_db) (req_userId (ex_request ''u2'' ''bob'' ''u1'' ''alice'' 5000)) = Some ex_bob
   \<and> points ex_bob < req_amount (ex_request ''u2'' ''bob'' ''u1'' ''alice'' 5000)
   \<and> getDoc (requests ex_ledger_db) ''q3'' = Some (ex_request ''u2'' ''bob'' ''u1'' ''alice'' 5000)
   \<and> (\<exists>s'. handleTransferRequest False (''q3'', ex_request ''u2'' ''bob'' ''u1'' ''alice'' 5000) True
               ex_ledger_db = Inr s'
          \<and> users s' = users ex_ledger_db \<and> transactions s' = transactions ex_ledger_db
          \<and> getDoc (requests s') ''q3'' =
              Some ((ex_request ''u2'' ''bob'' ''u1'' ''alice'' 5000)
                      \<lparr>req_status := ReqDeclined, req_declineReason := Some ''Insufficient points''\<rparr>))"
proof -
  have a: "getDoc (users ex_ledger_db) (req_userId (ex_request ''u2'' ''bob'' ''u1'' ''alice'' 5000))
             = Some ex_bob"
    by (simp add: ex_ledger_db_def ex_request_def getDoc_def)
  have b: "points ex_bob < req_amount (ex_request ''u2'' ''bob'' ''u1'' ''alice'' 5000)"
    by (simp add: ex_bob_def ex_request_def)
  have c: "getDoc (requests ex_ledger_db) ''q3'' = Some (ex_request ''u2'' ''bob'' ''u1'' ''alice'' 5000)"
    by (simp add: ex_ledger_db_def getDoc_def)
  from transfer_request_auto_declined [OF a b c, of True] a b c show ?thesis by blast
qed

text \<open>
  C8.  A transfer requested without the direct flag (the only way the user panel calls
  \<open>transferPoints\<close>), by a sender with sufficient points to a recipient that resolves
  to another account, creates one pending \<open>point_transfer\<close> request; the accounts and
  the transaction log are left exactly as they were.
\<close>

theorem transfer_request_created_without_balance_change:
  assumes "userId \<noteq> []" and "recipientIdentifier \<noteq> []" and "0 < (amount::int)"
      and "getDoc (users s) userId = Some userData" and "amount \<le> points userData"
      and "recipientQuery recipientIdentifier (users s) = (recipientId, recipientData) # rest"
      and "recipientId \<noteq> userId"
    shows "\<exists>s'. transferPoints userId recipientIdentifier amount False newId s = Inr s'
             \<and> users s' = users s \<and> transactions s' = transactions s
             \<and> requests s' = requests s @
                 [(newId, \<lparr>req_userId = userId, req_username = username userData,
                           req_type = PointTransfer, req_recipientId = recipientId,
                           req_recipientUsername = username recipientData, req_amount = amount,
                           req_status = ReqPending, req_declineReason = None,
                           req_directTransfer = False\<rparr>)]"
  using assms
  by (simp add: transferPoints_def addDoc_def)

theorem transfer_request_created_without_balance_change_witness:
  "''u1'' \<noteq> [] \<and> ''bob'' \<noteq> [] \<and> (0::int) < 50
   \<and> getDoc (users ex_ledger_db) ''u1'' = Some ex_alice \<and> 50 \<le> points ex_alice
   \<and> recipientQuery ''bob'' (users ex_ledger_db) = (''u2'', ex_bob) # []
   \<and> ''u2'' \<noteq> ''u1''
   \<and> (\<exists>s'. transferPoints ''u1'' ''bob'' 50 False ''q9'' ex_ledger_db = Inr s'
          \<and> users s' = users ex_ledger_db \<and> transactions s' = transactions ex_ledger_db
          \<and> requests s' = requests ex_ledger_db @
                 [(''q9'', \<lparr>req_userId = ''u1'', req_username = username ex_alice,
                           req_type = PointTransfer, req_recipientId = ''u2'',
                           req_recipientUsername = username ex_bob, req_amount = 50,
                           req_status = ReqPending, req_declineReason = None,
                           req_directTransfer = False\<rparr>)])"
proof -
  have a: "''u1'' \<noteq> []" and b: "''bob'' \<noteq> []" and c: "(0::int) < 50" and g: "''u2'' \<noteq> ''u1''"
    by simp_all
  have d: "getDoc (users ex_ledger_db) ''u1'' = Some ex_alice"
    by (simp add: ex_ledger_db_def getDoc_def)
  have e: "50 \<le> points ex_alice" by (simp add: ex_alice_def)
  have f: "recipientQuery ''bob'' (users ex_ledger_db) = (''u2'', ex_bob) # []"
    by (simp add: ex_ledger_defs recipientQuery_def startsWith_def lower_bob query_where_def)
  from transfer_request_created_without_balance_change [OF a b c d e f g, of "''q9''"] a b c d e f g
  show ?thesis by blast
qed

lemma whole_sub:
  "\<bar>x - y\<bar> \<le> 2 ^ 53 \<Longrightarrow> Number (of_int x) - Number (of_int y) = Number (of_int (x - y))"
  using toDouble_of_int [of "x - y"] by simp

lemma whole_add:
  "\<bar>x + y\<bar> \<le> 2 ^ 53 \<Longrightarrow> Number (of_int x) + Number (of_int y) = Number (of_int (x + y))"
  using toDouble_of_int [of "x + y"] by simp

lemma there_and_back_users:
  assumes "getDoc c a = Some ua" and "getDoc c b = Some ub" and "a \<noteq> b"
      and "pa = points ua" and "pb = points ub"
  shows "getDoc (mergeDoc a (\<lambda>u. u\<lparr>points := pa\<rparr>)
                  (mergeDoc b (\<lambda>u. u\<lparr>points := pb\<rparr>)
                     (mergeDoc b (\<lambda>u. u\<lparr>points := y\<rparr>)
                        (mergeDoc a (\<lambda>u. u\<lparr>points := x\<rparr>) c)))) uid
         = getDoc c uid"
  using assms by (simp add: getDoc_mergeDoc)

text \<open>
  C9, as stated, fails on the code, whose balances are doubles.  Bob, holding 500 points,
  stakes 2.3 points on the dice and holds 497.7.  Alice's transfer of 15 points to him is
  approved, and then his transfer of 15 points back to her: alice is back at 100 points,
  bob is at 497.70000000000005.  Whole numbers fail as well once they leave the range in
  which doubles are exact: with bob at \<open>2^53 = 9007199254740992\<close> points, the transfer
  of 1 point to him leaves him at \<open>2^53\<close>, and the transfer back at \<open>2^53 - 1\<close>.
\<close>

theorem transfer_round_trip_not_exact:
  "\<not> isl ex_stake_run
   \<and> pointsOf (state_of ex_stake_run) ''u1'' = Some (Number 100)
   \<and> pointsOf (state_of ex_stake_run) ''u2'' = Some (double (4977 / 10))
   \<and> \<not> isl (ex_there (Number 15) (state_of ex_stake_run))
   \<and> pointsOf (state_of (ex_there (Number 15) (state_of ex_stake_run))) ''u1'' = Some (Number 85)
   \<and> pointsOf (state_of (ex_there (Number 15) (state_of ex_stake_run))) ''u2''
        = Some (double (5127 / 10))
   \<and> \<not> isl (ex_back (Number 15) (state_of ex_stake_run))
   \<and> pointsOf (state_of (ex_back (Number 15) (state_of ex_stake_run))) ''u1'' = Some (Number 100)
   \<and> pointsOf (state_of (ex_back (Number 15) (state_of ex_stake_run))) ''u2''
        = Some (double (49770000000000005 / 100000000000000))
   \<and> double (49770000000000005 / 100000000000000) \<noteq> double (4977 / 10)
   \<and> pointsOf (ex_number_db (Number 9007199254740992) (Number 1)) ''u2''
        = Some (Number 9007199254740992)
   \<and> \<not> isl (ex_there (Number 1) (ex_number_db (Number 9007199254740992) (Number 1)))
   \<and> pointsOf (state_of (ex_there (Number 1) (ex_number_db (Number 9007199254740992) (Number 1))))
        ''u2'' = Some (Number 9007199254740992)
   \<and> \<not> isl (ex_back (Number 1) (ex_number_db (Number 9007199254740992) (Number 1)))
   \<and> pointsOf (state_of (ex_back (Number 1) (ex_number_db (Number 9007199254740992) (Number 1))))
        ''u1'' = Some (Number 100)
   \<and> pointsOf (state_of (ex_back (Number 1) (ex_number_db (Number 9007199254740992) (Number 1))))
        ''u2'' = Some (Number 9007199254740991)"
  by code_simp

text \<open>
  C9 (amended).  For two distinct accounts A and B whose balances are whole numbers, and a
  whole amount with \<open>0 < amount \<le> points A \<le> 2^53\<close>, \<open>0 \<le> points B\<close> and
  \<open>points B + amount \<le> 2^53\<close>, a transfer of the amount from A to B leaves A with its
  balance less the amount and B with its balance plus the amount, and a following transfer
  of the same amount from B to A leaves every account document as it was before, both for
  direct transfers by \<open>transferPoints\<close> and for transfer requests approved by
  \<open>handleTransferRequest\<close>.
\<close>

theorem transfer_round_trip:
  fixes s :: "number db_of"
  assumes ids: "distinct (map fst (users s))"
      and ne: "a \<noteq> []" "b \<noteq> []" "a \<noteq> b" "identA \<noteq> []" "identB \<noteq> []"
      and qa: "recipientQuery identA (users s) = (a, ua) # restA"
      and qb: "recipientQuery identB (users s) = (b, ub) # restB"
      and whole: "points ua = Number (of_int pa)" "points ub = Number (of_int pb)"
        "amount = Number (of_int n)"
      and amt: "0 < n" "n \<le> pa" "pa \<le> 2 ^ 53" "0 \<le> pb" "pb + n \<le> 2 ^ 53"
      and r1: "req_userId r1 = a" "req_recipientId r1 = b" "req_amount r1 = amount"
      and r2: "req_userId r2 = b" "req_recipientId r2 = a" "req_amount r2 = amount"
      and st: "getDoc (requests s) rid1 = Some q1" "getDoc (requests s) rid2 = Some q2"
    shows "(\<exists>s1 s2. transferPoints a identB amount True n1 s = Inr s1
              \<and> pointsOf s1 a = Some (Number (of_int (pa - n)))
              \<and> pointsOf s1 b = Some (Number (of_int (pb + n)))
              \<and> transferPoints b identA amount True n2 s1 = Inr s2
              \<and> (\<forall>uid. getDoc (users s2) uid = getDoc (users s) uid))
         \<and> (\<exists>s1 s2. handleTransferRequest False (rid1, r1) True s = Inr s1
              \<and> pointsOf s1 a = Some (Number (of_int (pa - n)))
              \<and> pointsOf s1 b = Some (Number (of_int (pb + n)))
              \<and> handleTransferRequest False (rid2, r2) True s1 = Inr s2
              \<and> (\<forall>uid. getDoc (users s2) uid = getDoc (users s) uid))"
proof
  have ga: "getDoc (users s) a = Some ua"
    using recipientQuery_subset [of identA "users s"] qa ids by (auto intro: getDoc_distinct)
  have gb: "getDoc (users s) b = Some ub"
    using recipientQuery_subset [of identB "users s"] qb ids by (auto intro: getDoc_distinct)
  have pos: "\<not> (amount = 0 \<or> amount \<le> 0)"
    using amt(1) by (simp add: whole zero_number_def)
  have le: "\<not> points ua < amount"
    using amt(2) by (simp add: whole)
  have debit: "points ua - amount = Number (of_int (pa - n))"
    unfolding whole using amt by (intro whole_sub) simp
  have credit: "points ub + amount = Number (of_int (pb + n))"
    unfolding whole using amt by (intro whole_add) simp
  have le': "\<not> Number (of_int (pb + n)) < amount"
    using amt(4) by (simp add: whole)
  let ?ua1 = "ua\<lparr>points := Number (of_int (pa - n))\<rparr>"
  let ?ub1 = "ub\<lparr>points := Number (of_int (pb + n))\<rparr>"
  have back_b: "points ?ub1 - amount = points ub"
    unfolding whole using amt whole_sub [of "pb + n" n] by simp
  have back_a: "points ?ua1 + amount = points ua"
    unfolding whole using amt whole_add [of "pa - n" n] by simp
  let ?us1 = "mergeDoc b (\<lambda>u. u\<lparr>points := Number (of_int (pb + n))\<rparr>)
                (mergeDoc a (\<lambda>u. u\<lparr>points := Number (of_int (pa - n))\<rparr>) (users s))"
  have ga1: "getDoc ?us1 a = Some ?ua1" and gb1: "getDoc ?us1 b = Some ?ub1"
    using ga gb ne(3) by (simp_all add: getDoc_mergeDoc)
  have restored: "getDoc (mergeDoc a (\<lambda>u. u\<lparr>points := points ua\<rparr>)
                  (mergeDoc b (\<lambda>u. u\<lparr>points := points ub\<rparr>) ?us1)) uid = getDoc (users s) uid" for uid
    using ga gb ne(3) by (rule there_and_back_users) simp_all
  show "\<exists>s1 s2. transferPoints a identB amount True n1 s = Inr s1
              \<and> pointsOf s1 a = Some (Number (of_int (pa - n)))
              \<and> pointsOf s1 b = Some (Number (of_int (pb + n)))
              \<and> transferPoints b identA amount True n2 s1 = Inr s2
              \<and> (\<forall>uid. getDoc (users s2) uid = getDoc (users s) uid)"
  proof -
    from direct_transfer_result [OF ne(1) ne(5) pos ga le qb _ gb, of n1] ne(3)
    obtain s1 where t1: "transferPoints a identB amount True n1 s = Inr s1"
        and u1: "users s1 = ?us1"
      by (auto simp: debit credit)
    have qa1: "recipientQuery identA (users s1)
                 = (a, ?ua1)
                   # mergeDoc b (\<lambda>u. u\<lparr>points := Number (of_int (pb + n))\<rparr>)
                       (mergeDoc a (\<lambda>u. u\<lparr>points := Number (of_int (pa - n))\<rparr>) restA)"
      using ne(3) by (simp add: u1 recipientQuery_mergeDoc qa mergeDoc_Cons)
    have le1: "\<not> points ?ub1 < amount" using le' by simp
    from direct_transfer_result [OF ne(2) ne(4) pos gb1 [folded u1] le1 qa1 ne(3) ga1 [folded u1], of n2]
    obtain s2 where t2: "transferPoints b identA amount True n2 s1 = Inr s2"
        and u2: "users s2 = mergeDoc a (\<lambda>u. u\<lparr>points := points ?ua1 + amount\<rparr>)
                   (mergeDoc b (\<lambda>u. u\<lparr>points := points ?ub1 - amount\<rparr>) (users s1))"
      by blast
    have "\<forall>uid. getDoc (users s2) uid = getDoc (users s) uid"
      unfolding u2 r2 back_a back_b u1 using restored by blast
    with t1 t2 ga1 gb1 show ?thesis by (auto simp: pointsOf_def u1)
  qed
  show "\<exists>s1 s2. handleTransferRequest False (rid1, r1) True s = Inr s1
              \<and> pointsOf s1 a = Some (Number (of_int (pa - n)))
              \<and> pointsOf s1 b = Some (Number (of_int (pb + n)))
              \<and> handleTransferRequest False (rid2, r2) True s1 = Inr s2
              \<and> (\<forall>uid. getDoc (users s2) uid = getDoc (users s) uid)"
  proof -
    have ga': "getDoc (users s) (req_userId r1) = Some ua" using ga r1 by simp
    have gb': "getDoc (users s) (req_recipientId r1) = Some ub" using gb r1 by simp
    have le1: "\<not> points ua < req_amount r1" using le r1 by simp
    have ne1: "req_recipientId r1 \<noteq> req_userId r1" using ne(3) r1 by simp
    from approved_transfer_result [OF ga' le1 gb' ne1 st(1)]
    obtain s1 where t1: "handleTransferRequest False (rid1, r1) True s = Inr s1"
        and u1: "users s1 = ?us1"
        and q1: "requests s1 = mergeDoc rid1 (\<lambda>q. q\<lparr>req_status := ReqApproved\<rparr>) (requests s)"
      using r1 by (auto simp: debit credit)
    have gb1': "getDoc (users s1) (req_userId r2) = Some ?ub1"
      using gb1 r2 by (simp add: u1)
    have ga1': "getDoc (users s1) (req_recipientId r2) = Some ?ua1"
      using ga1 r2 by (simp add: u1)
    have le2: "\<not> points ?ub1 < req_amount r2" using le' r2 by simp
    have ne2: "req_recipientId r2 \<noteq> req_userId r2" using ne(3) r2 by simp
    have "getDoc (requests s1) rid2 \<noteq> None"
      using st by (simp add: q1 getDoc_mergeDoc)
    then obtain q2' where st2: "getDoc (requests s1) rid2 = Some q2'"
      by blast
    from approved_transfer_result [OF gb1' le2 ga1' ne2 st2]
    obtain s2 where t2: "handleTransferRequest False (rid2, r2) True s1 = Inr s2"
        and u2: "users s2 = mergeDoc (req_recipientId r2)
                     (\<lambda>u. u\<lparr>points := points ?ua1 + req_amount r2\<rparr>)
                   (mergeDoc (req_userId r2)
                     (\<lambda>u. u\<lparr>points := points ?ub1 - req_amount r2\<rparr>) (users s1))"
      by blast
    have "\<forall>uid. getDoc (users s2) uid = getDoc (users s) uid"
      unfolding u2 r2 back_a back_b u1 using restored by blast
    with t1 t2 ga1 gb1 show ?thesis by (auto simp: pointsOf_def u1)
  qed
qed

theorem transfer_round_trip_witness:
  "distinct (map fst (users (ex_number_db (Number 500) (Number 15))))
   \<and> ''u1'' \<noteq> [] \<and> ''u2'' \<noteq> [] \<and> ''u1'' \<noteq> ''u2'' \<and> ''FBT100'' \<noteq> [] \<and> ''bob'' \<noteq> []
   \<and> recipientQuery ''FBT100'' (users (ex_number_db (Number 500) (Number 15)))
        = (''u1'', ex_holder ''alice'' ''FBT100'' (Number 100)) # []
   \<and> recipientQuery ''bob'' (users (ex_number_db (Number 500) (Number 15)))
        = (''u2'', ex_holder ''bob'' ''FBT200'' (Number 500)) # []
   \<and> points (ex_holder ''alice'' ''FBT100'' (Number 100)) = Number (of_int 100)
   \<and> points (ex_holder ''bob'' ''FBT200'' (Number 500)) = Number (of_int 500)
   \<and> Number 15 = Number (of_int 15)
   \<and> (0::int) < 15 \<and> (15::int) \<le> 100 \<and> (100::int) \<le> 2 ^ 53 \<and> (0::int) \<le> 500
   \<and> (500::int) + 15 \<le> 2 ^ 53
   \<and> getDoc (requests (ex_number_db (Number 500) (Number 15))) ''q1''
        = Some (ex_transfer ''u1'' ''alice'' ''u2'' ''bob'' (Number 15))
   \<and> getDoc (requests (ex_number_db (Number 500) (Number 15))) ''q2''
        = Some (ex_transfer ''u2'' ''bob'' ''u1'' ''alice'' (Number 15))
   \<and> (\<exists>s1 s2. transferPoints ''u1'' ''bob'' (Number 15) True ''n1''
                  (ex_number_db (Number 500) (Number 15)) = Inr s1
          \<and> pointsOf s1 ''u1'' = Some (Number 85)
          \<and> pointsOf s1 ''u2'' = Some (Number 515)
          \<and> transferPoints ''u2'' ''FBT100'' (Number 15) True ''n2'' s1 = Inr s2
          \<and> (\<forall>uid. getDoc (users s2) uid
                = getDoc (users (ex_number_db (Number 500) (Number 15))) uid))
   \<and> (\<exists>s1 s2. handleTransferRequest False
                  (''q1'', ex_transfer ''u1'' ''alice'' ''u2'' ''bob'' (Number 15)) True
                  (ex_number_db (Number 500) (Number 15)) = Inr s1
          \<and> pointsOf s1 ''u1'' = Some (Number 85)
          \<and> pointsOf s1 ''u2'' = Some (Number 515)
          \<and> handleTransferRequest False
               (''q2'', ex_transfer ''u2'' ''bob'' ''u1'' ''alice'' (Number 15)) True s1 = Inr s2
          \<and> (\<forall>uid. getDoc (users s2) uid
                = getDoc (users (ex_number_db (Number 500) (Number 15))) uid))"
proof -
  let ?D = "ex_number_db (Number 500) (Number 15)"
  have ids: "distinct (map fst (users ?D))" by (simp add: ex_number_db_def)
  have ne: "''u1'' \<noteq> []" "''u2'' \<noteq> []" "''u1'' \<noteq> ''u2''" "''FBT100'' \<noteq> []" "''bob'' \<noteq> []"
    by simp_all
  have qa: "recipientQuery ''FBT100'' (users ?D) = (''u1'', ex_holder ''alice'' ''FBT100'' (Number 100)) # []"
    by (simp add: ex_number_db_def ex_holder_def recipientQuery_def startsWith_def query_where_def)
  have qb: "recipientQuery ''bob'' (users ?D) = (''u2'', ex_holder ''bob'' ''FBT200'' (Number 500)) # []"
    by (simp add: ex_number_db_def ex_holder_def recipientQuery_def startsWith_def lower_bob
          query_where_def)
  have whole: "points (ex_holder ''alice'' ''FBT100'' (Number 100)) = Number (of_int 100)"
    "points (ex_holder ''bob'' ''FBT200'' (Number 500)) = Number (of_int 500)"
    "Number 15 = Number (of_int 15)"
    by (simp_all add: ex_holder_def)
  have amt: "(0::int) < 15" "(15::int) \<le> 100" "(100::int) \<le> 2 ^ 53" "(0::int) \<le> 500"
    "(500::int) + 15 \<le> 2 ^ 53"
    by simp_all
  have r1: "req_userId (ex_transfer ''u1'' ''alice'' ''u2'' ''bob'' (Number 15)) = ''u1''"
    "req_recipientId (ex_transfer ''u1'' ''alice'' ''u2'' ''bob'' (Number 15)) = ''u2''"
    "req_amount (ex_transfer ''u1'' ''alice'' ''u2'' ''bob'' (Number 15)) = Number 15"
    by (simp_all add: ex_transfer_def)
  have r2: "req_userId (ex_transfer ''u2'' ''bob'' ''u1'' ''alice'' (Number 15)) = ''u2''"
    "req_recipientId (ex_transfer ''u2'' ''bob'' ''u1'' ''alice'' (Number 15)) = ''u1''"
    "req_amount (ex_transfer ''u2'' ''bob'' ''u1'' ''alice'' (Number 15)) = Number 15"
    by (simp_all add: ex_transfer_def)
  have st: "getDoc (requests ?D) ''q1'' = Some (ex_transfer ''u1'' ''alice'' ''u2'' ''bob'' (Number 15))"
    "getDoc (requests ?D) ''q2'' = Some (ex_transfer ''u2'' ''bob'' ''u1'' ''alice'' (Number 15))"
    by (simp_all add: ex_number_db_def getDoc_def)
  have v: "Number (of_int (100 - 15)) = Number 85" "Number (of_int (500 + 15)) = Number 515"
    by simp_all
  from transfer_round_trip [OF ids ne qa qb whole amt r1 r2 st, of "''n1''" "''n2''"]
  have "(\<exists>s1 s2. transferPoints ''u1'' ''bob'' (Number 15) True ''n1'' ?D = Inr s1
          \<and> pointsOf s1 ''u1'' = Some (Number 85)
          \<and> pointsOf s1 ''u2'' = Some (Number 515)
          \<and> transferPoints ''u2'' ''FBT100'' (Number 15) True ''n2'' s1 = Inr s2
          \<and> (\<forall>uid. getDoc (users s2) uid = getDoc (users ?D) uid))
   \<and> (\<exists>s1 s2. handleTransferRequest False
                  (''q1'', ex_transfer ''u1'' ''alice'' ''u2'' ''bob'' (Number 15)) True ?D = Inr s1
          \<and> pointsOf s1 ''u1'' = Some (Number 85)
          \<and> pointsOf s1 ''u2'' = Some (Number 515)
          \<and> handleTransferRequest False
               (''q2'', ex_transfer ''u2'' ''bob'' ''u1'' ''alice'' (Number 15)) True s1 = Inr s2
          \<and> (\<forall>uid. getDoc (users s2) uid = getDoc (users ?D) uid))"
    unfolding v .
  with ids ne qa qb whole amt st show ?thesis by blast
qed

subsection \<open>Investments and refunds\<close>
















subsection \<open>The referral walk\<close>

lemma bonus_length [simp]: "length bonusLevels = 5"
  by (simp add: bonusLevels_def)

lemma levelCredit_fun:
  "levelCredit userId level =
     (\<lambda>u. incrementField (bonusGive ! level) (bonusLevels ! level)
            (u\<lparr>referrals := arrayUnion userId (referrals u)\<rparr>))"
  by (rule ext) (simp add: levelCredit_def)

lemma upt_5: "level < 5 \<Longrightarrow> [level..<5] = level # [Suc level..<5]"
  by (simp add: upt_conv_Cons)

lemma referralLoop_eq:
  "referralLoop us userId level code seen batch =
     batch @ concat (map (\<lambda>(l, d). levelWrites userId l d)
                       (zip [level..<5] (walk us code (5 - level) seen)))"
proof (induction us userId level code seen batch rule: referralLoop.induct)
  case (1 us userId level code seen batch)
  show ?case
  proof (cases "level < 5")
    case False
    then show ?thesis by (simp add: referralLoop.simps [of us userId level])
  next
    case True
    then obtain m where m: "5 - level = Suc m" and m': "5 - Suc level = m"
      by (cases "5 - level") auto
    show ?thesis
    proof (cases "code = [] \<or> code = ''Not set''")
      case True
      then show ?thesis using \<open>level < 5\<close> m
        by (simp add: referralLoop.simps [of us userId level])
    next
      case False
      note code = this
      show ?thesis
      proof (cases "query_where (\<lambda>u. referralCode u = code) us")
        case Nil
        then show ?thesis using \<open>level < 5\<close> m code
          by (simp add: referralLoop.simps [of us userId level])
      next
        case (Cons d rest)
        show ?thesis
        proof (cases "fst d \<in> set seen")
          case True
          then show ?thesis using \<open>level < 5\<close> m code Cons
            by (simp add: referralLoop.simps [of us userId level] Let_def)
        next
          case False
          have lt: "level < length bonusLevels" using \<open>level < 5\<close> by simp
          from code have c1: "\<not> (code = [] \<or> code = ''Not set'')" .
          note IH = "1.IH" [OF lt c1 Cons refl False refl]
          have "referralLoop us userId level code seen batch =
                  referralLoop us userId (level + 1) (referralCodeFriend (snd d)) (fst d # seen)
                    (batch @ levelWrites userId level d)"
            using \<open>level < 5\<close> code Cons False
            by (simp add: referralLoop.simps [of us userId level] Let_def levelWrites_def
                  levelCredit_fun)
          also have "\<dots> = (batch @ levelWrites userId level d) @
                  concat (map (\<lambda>(l, d). levelWrites userId l d)
                       (zip [level + 1..<5] (walk us (referralCodeFriend (snd d)) (5 - (level + 1))
                          (fst d # seen))))"
            using IH by (simp add: levelWrites_def levelCredit_fun)
          also have "\<dots> = batch @ concat (map (\<lambda>(l, d). levelWrites userId l d)
                       (zip [level..<5] (walk us code (5 - level) seen)))"
            using code Cons False m m' by (simp add: upt_5 [OF \<open>level < 5\<close>])
          finally show ?thesis .
        qed
      qed
    qed
  qed
qed

lemma getDoc_mergeDoc_None: "getDoc (mergeDoc k f c) k' = None \<longleftrightarrow> getDoc c k' = None"
  by (simp add: getDoc_mergeDoc)

lemma userWrites_mergeDoc: "userWrites (mergeDoc k f c) w = userWrites c w"
  by (cases w) (simp_all add: userWrites_def getDoc_mergeDoc_None)

lemma commit_users_txs:
  "\<forall>w \<in> set ws. userWrites (users s) w \<Longrightarrow>
     commit ws s = Some (s\<lparr>users := usersAfter ws (users s),
                           transactions := transactions s @ txsOf ws\<rparr>)"
proof (induction ws arbitrary: s)
  case Nil
  then show ?case by (simp add: usersAfter_def txsOf_def)
next
  case (Cons w ws)
  show ?case
  proof (cases w)
    case (UpdateUser k f)
    with Cons.prems obtain v where v: "getDoc (users s) k = Some v"
      by (auto simp: userWrites_def)
    let ?s1 = "s\<lparr>users := mergeDoc k f (users s)\<rparr>"
    have "\<forall>w \<in> set ws. userWrites (users ?s1) w"
      using Cons.prems by (simp add: userWrites_mergeDoc)
    from Cons.IH [OF this] show ?thesis
      using UpdateUser v by (simp add: updateDoc_Some usersAfter_def txsOf_def)
  next
    case (SetTransaction t)
    let ?s1 = "s\<lparr>transactions := transactions s @ [t]\<rparr>"
    have "\<forall>w \<in> set ws. userWrites (users ?s1) w"
      using Cons.prems by simp
    from Cons.IH [OF this] show ?thesis
      using SetTransaction by (simp add: usersAfter_def txsOf_def)
  next
    case (UpdateDiceBet k f)
    with Cons.prems show ?thesis by (simp add: userWrites_def)
  next
    case (UpdateUltraBet k f)
    with Cons.prems show ?thesis by (simp add: userWrites_def)
  next
    case (SetWinner x)
    with Cons.prems show ?thesis by (simp add: userWrites_def)
  qed
qed

lemma query_where_subset: "set (query_where p c) \<subseteq> set c"
  by (auto simp: query_where_def)

lemma walk_subset: "set (walk us code n seen) \<subseteq> set us"
proof (induction n arbitrary: code seen)
  case 0
  show ?case by simp
next
  case (Suc n)
  show ?case
  proof (cases "query_where (\<lambda>u. referralCode u = code) us")
    case Nil
    then show ?thesis by simp
  next
    case (Cons d rest)
    then have "d \<in> set us" using query_where_subset [of "\<lambda>u. referralCode u = code" us] by auto
    then show ?thesis using Cons Suc.IH by auto
  qed
qed

lemma walk_fresh: "fst ` set (walk us code n seen) \<inter> set seen = {}"
proof (induction n arbitrary: code seen)
  case 0
  show ?case by simp
next
  case (Suc n)
  show ?case
  proof (cases "query_where (\<lambda>u. referralCode u = code) us")
    case Nil
    then show ?thesis by simp
  next
    case (Cons d rest)
    then show ?thesis using Suc.IH [of "referralCodeFriend (snd d)" "fst d # seen"] by auto
  qed
qed

lemma walk_distinct: "distinct (map fst (walk us code n seen))"
proof (induction n arbitrary: code seen)
  case 0
  show ?case by simp
next
  case (Suc n)
  show ?case
  proof (cases "query_where (\<lambda>u. referralCode u = code) us")
    case Nil
    then show ?thesis by simp
  next
    case (Cons d rest)
    then show ?thesis
      using Suc.IH [of "referralCodeFriend (snd d)" "fst d # seen"]
        walk_fresh [of us "referralCodeFriend (snd d)" n "fst d # seen"]
      by auto
  qed
qed

lemma walk_acyclic:
  "distinct (map fst (referralChain us code n)) \<Longrightarrow>
   fst ` set (referralChain us code n) \<inter> set seen = {} \<Longrightarrow>
     walk us code n seen = referralChain us code n"
proof (induction n arbitrary: code seen)
  case 0
  show ?case by simp
next
  case (Suc n)
  show ?case
  proof (cases "code = [] \<or> code = ''Not set''")
    case True
    then show ?thesis by simp
  next
    case False
    note code = this
    show ?thesis
    proof (cases "query_where (\<lambda>u. referralCode u = code) us")
      case Nil
      then show ?thesis using code by simp
    next
      case (Cons d rest)
      have ch: "referralChain us code (Suc n) = d # referralChain us (referralCodeFriend (snd d)) n"
        using code Cons by simp
      from Suc.prems ch have d1: "distinct (map fst (referralChain us (referralCodeFriend (snd d)) n))"
        and d2: "fst d \<notin> fst ` set (referralChain us (referralCodeFriend (snd d)) n)"
        and d3: "fst d \<notin> set seen"
        and d4: "fst ` set (referralChain us (referralCodeFriend (snd d)) n) \<inter> set seen = {}"
        by auto
      have "fst ` set (referralChain us (referralCodeFriend (snd d)) n) \<inter> set (fst d # seen) = {}"
        using d2 d4 by auto
      from Suc.IH [OF d1 this] show ?thesis
        using code Cons d3 by simp
    qed
  qed
qed

lemma walk_length: "length (walk us code n seen) \<le> n"
proof (induction n arbitrary: code seen)
  case 0
  show ?case by simp
next
  case (Suc n)
  show ?case
  proof (cases "query_where (\<lambda>u. referralCode u = code) us")
    case Nil
    then show ?thesis by simp
  next
    case (Cons d rest)
    then show ?thesis using Suc.IH [of "referralCodeFriend (snd d)" "fst d # seen"] by auto
  qed
qed

lemma usersAfter_levels:
  "usersAfter (concat (map (\<lambda>(l, d). levelWrites userId l d) lds)) c =
     fold (\<lambda>(k, l) c. mergeDoc k (levelCredit userId l) c) (map (\<lambda>(l, d). (fst d, l)) lds) c"
  by (induction lds arbitrary: c) (auto simp: usersAfter_def levelWrites_def)

lemma txsOf_levels:
  "txsOf (concat (map (\<lambda>(l, d). levelWrites userId l d) lds)) =
     map (\<lambda>(l, d). referralTx l (fst d) (snd d)) lds"
  by (induction lds) (auto simp: txsOf_def levelWrites_def)

lemma userWrites_levels:
  "set (map snd lds) \<subseteq> set c \<Longrightarrow>
     \<forall>w \<in> set (concat (map (\<lambda>(l, d). levelWrites userId l d) lds)). userWrites c w"
proof (induction lds)
  case Nil
  show ?case by simp
next
  case (Cons x lds)
  obtain l k v where x: "x = (l, (k, v))" by (cases x) auto
  from Cons.prems x have "(k, v) \<in> set c" by simp
  then have "getDoc c k \<noteq> None"
    by (simp add: getDoc_def map_of_eq_None_iff image_iff) (metis fst_conv)
  then show ?case using Cons x by (auto simp: levelWrites_def userWrites_def)
qed

lemma map_fst_levelOf: "length cr \<le> 5 \<Longrightarrow> map fst (levelOf cr) = map fst cr"
  by (simp add: levelOf_def list_eq_iff_nth_eq)

lemma map_of_levelOf:
  assumes "length cr \<le> 5" and "distinct (map fst cr)" and "i < length cr"
  shows "map_of (levelOf cr) (fst (cr ! i)) = Some i"
proof -
  have d: "distinct (map fst (levelOf cr))" using assms by (simp add: map_fst_levelOf)
  have "(fst (cr ! i), i) \<in> set (levelOf cr)"
    using assms by (force simp: levelOf_def in_set_zip)
  with d show ?thesis by simp
qed

lemma map_of_levelOf_None: "length cr \<le> 5 \<Longrightarrow> k \<notin> fst ` set cr \<Longrightarrow> map_of (levelOf cr) k = None"
  using map_fst_levelOf [of cr] by (simp add: map_of_eq_None_iff) (metis set_map)

lemma getDoc_map_keyed: "getDoc (map (\<lambda>(k, v). (k, h k v)) c) k = map_option (h k) (getDoc c k)"
  by (induction c) (auto simp: getDoc_def)

lemma referral_result:
  fixes s userId code
  defines "cr \<equiv> walk (users s) code 5 []"
  shows "processReferralBonuses userId code s =
           Inr (s\<lparr>users := map (\<lambda>(k, v). (k, case map_of (levelOf cr) k of
                                                Some l \<Rightarrow> levelCredit userId l v | None \<Rightarrow> v))
                             (users s),
                  transactions := transactions s
                    @ map (\<lambda>(l, d). referralTx l (fst d) (snd d)) (zip [0..<5] cr)\<rparr>)"
proof (cases "code = [] \<or> code = ''Not set''")
  case True
  then have "cr = []" by (auto simp: cr_def eval_nat_numeral)
  then show ?thesis using True
    by (auto simp: processReferralBonuses_def levelOf_def)
next
  case False
  let ?ws = "concat (map (\<lambda>(l, d). levelWrites userId l d) (zip [0..<5] cr))"
  have loop: "referralLoop (users s) userId 0 code [] [] = ?ws"
    by (simp add: referralLoop_eq cr_def)
  have "set (map snd (zip [0..<5] cr)) \<subseteq> set (users s)"
    using walk_subset [of "users s" code 5 "[]"] by (auto simp: cr_def dest: set_zip_rightD)
  then have "\<forall>w \<in> set ?ws. userWrites (users s) w"
    by (rule userWrites_levels)
  from commit_users_txs [OF this]
  have c: "commit ?ws s = Some (s\<lparr>users := usersAfter ?ws (users s),
                           transactions := transactions s @ txsOf ?ws\<rparr>)" .
  have d: "distinct (map fst (levelOf cr))"
    using walk_distinct [of "users s" code 5 "[]"] walk_length [of "users s" code 5 "[]"]
    by (simp add: map_fst_levelOf cr_def)
  have "usersAfter ?ws (users s) =
          fold (\<lambda>(k, l) c. mergeDoc k (levelCredit userId l) c) (levelOf cr) (users s)"
    by (simp add: usersAfter_levels levelOf_def)
  also have "\<dots> = map (\<lambda>(k, v). case map_of (levelOf cr) k of
                        Some l \<Rightarrow> (k, levelCredit userId l v) | None \<Rightarrow> (k, v)) (users s)"
    by (rule fold_mergeDoc [OF d])
  also have "\<dots> = map (\<lambda>(k, v). (k, case map_of (levelOf cr) k of
                        Some l \<Rightarrow> levelCredit userId l v | None \<Rightarrow> v)) (users s)"
    by (intro map_cong) (auto split: option.splits)
  finally have u: "usersAfter ?ws (users s) = map (\<lambda>(k, v). (k, case map_of (levelOf cr) k of
                        Some l \<Rightarrow> levelCredit userId l v | None \<Rightarrow> v)) (users s)" .
  show ?thesis
    using False by (simp add: processReferralBonuses_def loop c u txsOf_levels)
qed

lemma showNat_digits:
  "showNat 1 = ''1''" "showNat 2 = ''2''" "showNat 3 = ''3''" "showNat 4 = ''4''" "showNat 5 = ''5''"
  by code_simp+

lemma showNat_Suc_digits: "showNat (Suc 0) = ''1''" "showNat (Suc (Suc 0)) = ''2''"
  by code_simp+

lemma lt5_cases: "i < 5 \<Longrightarrow> i = 0 \<or> i = 1 \<or> i = 2 \<or> i = 3 \<or> i = (4::nat)"
  by arith

lemma levelCredit_schedule: "i < 5 \<Longrightarrow> levelCredit userId i u = creditedAncestor userId (i + 1) u"
  by (drule lt5_cases)
     (auto simp: levelCredit_def creditedAncestor_def scheduledBonus_def bonusGive_def
        bonusLevels_def incrementField_def)

lemma referralTx_schedule:
  "i < 5 \<Longrightarrow> tx_userId (referralTx i k u) = k \<and> tx_type (referralTx i k u) = levelTag (i + 1)
     \<and> tx_amount (referralTx i k u) = Some (snd (scheduledBonus (i + 1)))"
  by (drule lt5_cases)
     (auto simp: referralTx_def levelTag_def scheduledBonus_def bonusLevels_def showNat_digits
        showNat_Suc_digits)

lemma commit_Cons_user:
  "getDoc (users s) k = Some v \<Longrightarrow> commit (UpdateUser k f # ws) s = commit ws (s\<lparr>users := mergeDoc k f (users s)\<rparr>)"
  by (simp add: updateDoc_Some)

lemma approveUser_result:
  assumes "getDoc (users s) userId = Some u"
      and "processReferralBonuses userId (referralCodeFriend u) s = Inr s'"
    shows "approveUser userId s =
             Inr (s'\<lparr>users := mergeDoc userId (\<lambda>x. x\<lparr>approved := True\<rparr>) (users s')\<rparr>)"
proof -
  let ?code = "referralCodeFriend u"
  let ?cr = "walk (users s) ?code 5 []"
  let ?ws = "concat (map (\<lambda>(l, d). levelWrites userId l d) (zip [0..<5] ?cr))"
  let ?appr = "\<lambda>x::User. x\<lparr>approved := True\<rparr>"
  let ?s1 = "s\<lparr>users := mergeDoc userId ?appr (users s)\<rparr>"
  let ?credit = "\<lambda>k v. case map_of (levelOf ?cr) k of Some l \<Rightarrow> levelCredit userId l v | None \<Rightarrow> v"
  have s': "s' = s\<lparr>users := map (\<lambda>(k, v). (k, ?credit k v)) (users s),
                   transactions := transactions s
                     @ map (\<lambda>(l, d). referralTx l (fst d) (snd d)) (zip [0..<5] ?cr)\<rparr>"
    using assms(2) by (simp add: referral_result)
  have loop: "referralLoop (users s) userId 0 ?code [] [UpdateUser userId ?appr]
                = UpdateUser userId ?appr # ?ws"
    by (simp add: referralLoop_eq)
  have "set (map snd (zip [0..<5] ?cr)) \<subseteq> set (users s)"
    using walk_subset [of "users s" ?code 5 "[]"] by (auto dest: set_zip_rightD)
  then have "\<forall>w \<in> set ?ws. userWrites (users s) w"
    by (rule userWrites_levels)
  then have "\<forall>w \<in> set ?ws. userWrites (users ?s1) w"
    by (simp add: userWrites_mergeDoc)
  from commit_users_txs [OF this]
  have c: "commit ?ws ?s1 = Some (?s1\<lparr>users := usersAfter ?ws (users ?s1),
                           transactions := transactions ?s1 @ txsOf ?ws\<rparr>)" .
  have d: "distinct (map fst (levelOf ?cr))"
    using walk_distinct [of "users s" ?code 5 "[]"] walk_length [of "users s" ?code 5 "[]"]
    by (simp add: map_fst_levelOf)
  have "usersAfter ?ws (users ?s1) =
          fold (\<lambda>(k, l) c. mergeDoc k (levelCredit userId l) c) (levelOf ?cr)
            (mergeDoc userId ?appr (users s))"
    by (simp add: usersAfter_levels levelOf_def)
  also have "\<dots> = map (\<lambda>(k, v). case map_of (levelOf ?cr) k of
                        Some l \<Rightarrow> (k, levelCredit userId l v) | None \<Rightarrow> (k, v))
                     (mergeDoc userId ?appr (users s))"
    by (rule fold_mergeDoc [OF d])
  also have "\<dots> = mergeDoc userId ?appr (map (\<lambda>(k, v). (k, ?credit k v)) (users s))"
    by (auto simp: mergeDoc_def levelCredit_def incrementField_def split: option.splits BalanceField.splits)
  finally have u: "usersAfter ?ws (users ?s1)
                     = mergeDoc userId ?appr (map (\<lambda>(k, v). (k, ?credit k v)) (users s))" .
  have cm: "commit (UpdateUser userId ?appr # ?ws) s = commit ?ws ?s1"
    by (rule commit_Cons_user [OF assms(1)])
  have "approveUser userId s =
          (case commit (UpdateUser userId ?appr # ?ws) s of
             None \<Rightarrow> Inl (''Failed to approve user'', s) | Some s1 \<Rightarrow> Inr s1)"
    using assms(1) by (simp add: approveUser_def loop del: commit.simps)
  also have "\<dots> = Inr (s'\<lparr>users := mergeDoc userId ?appr (users s')\<rparr>)"
    unfolding cm c using u by (simp add: txsOf_levels s')
  finally show ?thesis .
qed

lemma walk_stop:
  "\<exists>k \<le> length (referralChain us code n).
      walk us code n seen = take k (referralChain us code n)
    \<and> (k < length (referralChain us code n) \<longrightarrow>
         fst (referralChain us code n ! k) \<in> set seen \<union> fst ` set (walk us code n seen))"
proof (induction n arbitrary: code seen)
  case 0
  show ?case by simp
next
  case (Suc n)
  show ?case
  proof (cases "code = [] \<or> code = ''Not set''")
    case True
    then show ?thesis by simp
  next
    case False
    note code = this
    show ?thesis
    proof (cases "query_where (\<lambda>u. referralCode u = code) us")
      case Nil
      then show ?thesis using code by simp
    next
      case (Cons d rest)
      have ch: "referralChain us code (Suc n) = d # referralChain us (referralCodeFriend (snd d)) n"
        using code Cons by simp
      show ?thesis
      proof (cases "fst d \<in> set seen")
        case True
        then have "walk us code (Suc n) seen = take 0 (referralChain us code (Suc n))"
          using code Cons by simp
        moreover have "fst (referralChain us code (Suc n) ! 0) \<in> set seen"
          using True ch by simp
        ultimately show ?thesis by (intro exI [of _ 0]) simp
      next
        case False
        let ?ch = "referralChain us (referralCodeFriend (snd d)) n"
        let ?w = "walk us (referralCodeFriend (snd d)) n (fst d # seen)"
        from Suc.IH [of "referralCodeFriend (snd d)" "fst d # seen"]
        obtain k where k: "k \<le> length ?ch" and w: "?w = take k ?ch"
            and st: "k < length ?ch \<longrightarrow> fst (?ch ! k) \<in> set (fst d # seen) \<union> fst ` set ?w"
          by blast
        have w': "walk us code (Suc n) seen = d # ?w"
          using code Cons False by simp
        have "walk us code (Suc n) seen = take (Suc k) (referralChain us code (Suc n))"
          using w w' ch by simp
        moreover have "Suc k \<le> length (referralChain us code (Suc n))"
          using ch k by simp
        moreover have "Suc k < length (referralChain us code (Suc n)) \<longrightarrow>
            fst (referralChain us code (Suc n) ! Suc k)
              \<in> set seen \<union> fst ` set (walk us code (Suc n) seen)"
          using st unfolding ch w' by auto
        ultimately show ?thesis by blast
      qed
    qed
  qed
qed

lemmas ex_chain_defs = ex_member_def ex_chain_db_def ex_cycle_db_def

lemma ex_chain_values:
  "pointsOf (state_of (processReferralBonuses ''n1'' ''FBT100'' ex_chain_db)) ''a1'' = Some (500 + 100)"
  "cashOf (state_of (processReferralBonuses ''n1'' ''FBT100'' ex_chain_db)) ''a1'' = Some 20"
  "cashOf (state_of (processReferralBonuses ''n1'' ''FBT100'' ex_chain_db)) ''a2'' = Some (20 + 5)"
  "cashOf (state_of (processReferralBonuses ''n1'' ''FBT100'' ex_chain_db)) ''a3'' = Some (20 + 5)"
  "map tx_type (transactions (state_of (processReferralBonuses ''n1'' ''FBT100'' ex_chain_db)))
     = [''referral_bonus_level_1'', ''referral_bonus_level_2'', ''referral_bonus_level_3'']"
  "map tx_amount (transactions (state_of (processReferralBonuses ''n1'' ''FBT100'' ex_chain_db)))
     = [Some 100, Some 5, Some 5]"
  by code_simp+

lemma ex_cycle_values:
  "pointsOf (state_of (processReferralBonuses ''n1'' ''FBT100'' ex_cycle_db)) ''a1'' = Some (500 + 100)"
  "cashOf (state_of (processReferralBonuses ''n1'' ''FBT100'' ex_cycle_db)) ''a1'' = Some 20"
  "pointsOf (state_of (processReferralBonuses ''n1'' ''FBT100'' ex_cycle_db)) ''a2'' = Some 500"
  "cashOf (state_of (processReferralBonuses ''n1'' ''FBT100'' ex_cycle_db)) ''a2'' = Some (20 + 5)"
  "map tx_userId (transactions (state_of (processReferralBonuses ''n1'' ''FBT100'' ex_cycle_db)))
     = [''a1'', ''a2'']"
  by code_simp+

text \<open>
  C3.  Let the chain be the ancestors reached from the referrer code of a newly approved
  user, followed for at most five links.  The referral walk ends without error and credits
  a prefix of the chain in which no account occurs twice, stopping only at the end of the
  chain or at an account it has already credited.  The ancestor at level \<open>N\<close> of
  that prefix receives the bonus of the schedule 100/5/5/10/30 (level 1 on points, levels
  2 to 5 on cash) exactly once and gets the approved user added to its referrals; no
  other account changes; one \<open>referral_bonus_level_N\<close> transaction of that amount
  is appended per credited ancestor, in level order.  When the chain has no cycle the
  credited prefix is the whole chain, so a chain of length \<open>L \<le> 5\<close> credits exactly
  \<open>L\<close> ancestors.  \<open>approveUser\<close> runs the same walk and commits it together
  with the approval flag.
\<close>

theorem referral_walk_credits_each_ancestor_once:
  assumes "distinct (map fst (users s))"
  shows "\<exists>s' cr new.
           processReferralBonuses userId code s = Inr s'
         \<and> (\<exists>k \<le> length (referralChain (users s) code 5).
                cr = take k (referralChain (users s) code 5)
              \<and> (k < length (referralChain (users s) code 5)
                   \<longrightarrow> fst (referralChain (users s) code 5 ! k) \<in> fst ` set cr))
         \<and> distinct (map fst cr)
         \<and> (distinct (map fst (referralChain (users s) code 5))
              \<longrightarrow> cr = referralChain (users s) code 5)
         \<and> (\<forall>i < length cr. getDoc (users s') (fst (cr ! i))
                                = Some (creditedAncestor userId (i + 1) (snd (cr ! i))))
         \<and> (\<forall>uid. uid \<notin> fst ` set cr \<longrightarrow> getDoc (users s') uid = getDoc (users s) uid)
         \<and> transactions s' = transactions s @ new
         \<and> length new = length cr
         \<and> (\<forall>i < length cr. tx_userId (new ! i) = fst (cr ! i)
                \<and> tx_type (new ! i) = levelTag (i + 1)
                \<and> tx_amount (new ! i) = Some (snd (scheduledBonus (i + 1))))
         \<and> (\<forall>u. getDoc (users s) userId = Some u \<and> code = referralCodeFriend u \<longrightarrow>
                approveUser userId s
                  = Inr (s'\<lparr>users := mergeDoc userId (\<lambda>x. x\<lparr>approved := True\<rparr>) (users s')\<rparr>))"
proof -
  define cr where "cr = walk (users s) code 5 []"
  define new where "new = map (\<lambda>(l, d). referralTx l (fst d) (snd d)) (zip [0..<5] cr)"
  define s' where "s' = s\<lparr>users := map (\<lambda>(k, v). (k, case map_of (levelOf cr) k of
                                                Some l \<Rightarrow> levelCredit userId l v | None \<Rightarrow> v))
                             (users s),
                  transactions := transactions s @ new\<rparr>"
  have run: "processReferralBonuses userId code s = Inr s'"
    unfolding s'_def new_def cr_def by (rule referral_result)
  have len: "length cr \<le> 5" unfolding cr_def by (rule walk_length)
  have dist: "distinct (map fst cr)" unfolding cr_def by (rule walk_distinct)
  have pre: "\<exists>k \<le> length (referralChain (users s) code 5).
                cr = take k (referralChain (users s) code 5)
              \<and> (k < length (referralChain (users s) code 5)
                   \<longrightarrow> fst (referralChain (users s) code 5 ! k) \<in> fst ` set cr)"
    unfolding cr_def using walk_stop [of "users s" code 5 "[]"] by simp
  have acyc: "distinct (map fst (referralChain (users s) code 5))
              \<longrightarrow> cr = referralChain (users s) code 5"
    unfolding cr_def by (simp add: walk_acyclic)
  have us': "getDoc (users s') k = map_option (\<lambda>v. case map_of (levelOf cr) k of
                              Some l \<Rightarrow> levelCredit userId l v | None \<Rightarrow> v) (getDoc (users s) k)" for k
    by (simp add: s'_def getDoc_map_keyed)
  have credited: "getDoc (users s') (fst (cr ! i)) = Some (creditedAncestor userId (i + 1) (snd (cr ! i)))"
    if "i < length cr" for i
  proof -
    have "cr ! i \<in> set (users s)"
      using that walk_subset [of "users s" code 5 "[]"] by (auto simp: cr_def)
    then have "getDoc (users s) (fst (cr ! i)) = Some (snd (cr ! i))"
      using assms by (intro getDoc_distinct) simp_all
    moreover have "map_of (levelOf cr) (fst (cr ! i)) = Some i"
      using len dist that by (rule map_of_levelOf)
    moreover have "i < 5" using that len by simp
    ultimately show ?thesis by (simp add: us' levelCredit_schedule)
  qed
  have others: "getDoc (users s') uid = getDoc (users s) uid" if "uid \<notin> fst ` set cr" for uid
    using map_of_levelOf_None [OF len that] by (cases "getDoc (users s) uid") (simp_all add: us')
  have lnew: "length new = length cr" using len by (simp add: new_def)
  have txs: "tx_userId (new ! i) = fst (cr ! i) \<and> tx_type (new ! i) = levelTag (i + 1)
                \<and> tx_amount (new ! i) = Some (snd (scheduledBonus (i + 1)))"
    if "i < length cr" for i
  proof -
    have "i < 5" using that len by simp
    moreover have "new ! i = referralTx i (fst (cr ! i)) (snd (cr ! i))"
      using that len by (simp add: new_def)
    ultimately show ?thesis by (simp add: referralTx_schedule)
  qed
  have appr: "approveUser userId s
                = Inr (s'\<lparr>users := mergeDoc userId (\<lambda>x. x\<lparr>approved := True\<rparr>) (users s')\<rparr>)"
    if "getDoc (users s) userId = Some u \<and> code = referralCodeFriend u" for u
    using that run by (intro approveUser_result [of s userId u]) simp_all
  have tr: "transactions s' = transactions s @ new" by (simp add: s'_def)
  show ?thesis
    using run pre dist acyc credited others tr lnew txs appr
    by (intro exI [of _ s'] exI [of _ cr] exI [of _ new]) blast
qed

theorem referral_walk_credits_each_ancestor_once_witness:
  "distinct (map fst (users ex_chain_db))
   \<and> map fst (referralChain (users ex_chain_db) ''FBT100'' 5) = [''a1'', ''a2'', ''a3'']
   \<and> (\<exists>s'. processReferralBonuses ''n1'' ''FBT100'' ex_chain_db = Inr s'
          \<and> getDoc (users s') ''a1''
               = Some (creditedAncestor ''n1'' 1 (ex_member ''ann'' ''FBT100'' ''FBT200''))
          \<and> getDoc (users s') ''a2''
               = Some (creditedAncestor ''n1'' 2 (ex_member ''ben'' ''FBT200'' ''FBT300''))
          \<and> getDoc (users s') ''a3''
               = Some (creditedAncestor ''n1'' 3 (ex_member ''cat'' ''FBT300'' ''Not set''))
          \<and> getDoc (users s') ''n1'' = getDoc (users ex_chain_db) ''n1''
          \<and> pointsOf s' ''a1'' = Some (500 + 100)
          \<and> cashOf s' ''a2'' = Some (20 + 5) \<and> cashOf s' ''a3'' = Some (20 + 5)
          \<and> map tx_type (transactions s')
               = [''referral_bonus_level_1'', ''referral_bonus_level_2'', ''referral_bonus_level_3'']
          \<and> map tx_amount (transactions s') = [Some 100, Some 5, Some 5])
   \<and> distinct (map fst (users ex_cycle_db))
   \<and> map fst (referralChain (users ex_cycle_db) ''FBT100'' 5) = [''a1'', ''a2'', ''a1'', ''a2'', ''a1'']
   \<and> (\<exists>s'. processReferralBonuses ''n1'' ''FBT100'' ex_cycle_db = Inr s'
          \<and> pointsOf s' ''a1'' = Some (500 + 100) \<and> cashOf s' ''a1'' = Some 20
          \<and> pointsOf s' ''a2'' = Some 500 \<and> cashOf s' ''a2'' = Some (20 + 5)
          \<and> map tx_userId (transactions s') = [''a1'', ''a2''])"
proof -
  have ids: "distinct (map fst (users ex_chain_db))" by (simp add: ex_chain_db_def)
  have ids': "distinct (map fst (users ex_cycle_db))" by (simp add: ex_cycle_db_def)
  have chain: "referralChain (users ex_chain_db) ''FBT100'' 5
                 = [(''a1'', ex_member ''ann'' ''FBT100'' ''FBT200''),
                    (''a2'', ex_member ''ben'' ''FBT200'' ''FBT300''),
                    (''a3'', ex_member ''cat'' ''FBT300'' ''Not set'')]"
    by (simp add: ex_chain_defs eval_nat_numeral query_where_def)
  have cyc: "map fst (referralChain (users ex_cycle_db) ''FBT100'' 5)
               = [''a1'', ''a2'', ''a1'', ''a2'', ''a1'']"
    by (simp add: ex_chain_defs eval_nat_numeral query_where_def)
  from referral_walk_credits_each_ancestor_once [OF ids, of "''n1''" "''FBT100''"]
  obtain s' cr where run: "processReferralBonuses ''n1'' ''FBT100'' ex_chain_db = Inr s'"
      and acyc: "distinct (map fst (referralChain (users ex_chain_db) ''FBT100'' 5))
              \<longrightarrow> cr = referralChain (users ex_chain_db) ''FBT100'' 5"
      and cred: "\<forall>i < length cr. getDoc (users s') (fst (cr ! i))
                                = Some (creditedAncestor ''n1'' (i + 1) (snd (cr ! i)))"
      and oth: "\<forall>uid. uid \<notin> fst ` set cr \<longrightarrow> getDoc (users s') uid = getDoc (users ex_chain_db) uid"
    by blast
  from acyc have cr: "cr = [(''a1'', ex_member ''ann'' ''FBT100'' ''FBT200''),
                    (''a2'', ex_member ''ben'' ''FBT200'' ''FBT300''),
                    (''a3'', ex_member ''cat'' ''FBT300'' ''Not set'')]"
    by (simp add: chain)
  have s'_eq: "s' = state_of (processReferralBonuses ''n1'' ''FBT100'' ex_chain_db)"
    using run by simp
  have c0: "getDoc (users s') ''a1''
               = Some (creditedAncestor ''n1'' 1 (ex_member ''ann'' ''FBT100'' ''FBT200''))"
    using cred [rule_format, of 0] by (simp add: cr)
  have c1: "getDoc (users s') ''a2''
               = Some (creditedAncestor ''n1'' 2 (ex_member ''ben'' ''FBT200'' ''FBT300''))"
    using cred [rule_format, of 1] by (simp add: cr numeral_2_eq_2)
  have c2: "getDoc (users s') ''a3''
               = Some (creditedAncestor ''n1'' 3 (ex_member ''cat'' ''FBT300'' ''Not set''))"
    using cred [rule_format, of 2] by (simp add: cr numeral_3_eq_3)
  have c3: "getDoc (users s') ''n1'' = getDoc (users ex_chain_db) ''n1''"
    using oth [rule_format, of "''n1''"] by (simp add: cr)
  have part1: "\<exists>s'. processReferralBonuses ''n1'' ''FBT100'' ex_chain_db = Inr s'
          \<and> getDoc (users s') ''a1''
               = Some (creditedAncestor ''n1'' 1 (ex_member ''ann'' ''FBT100'' ''FBT200''))
          \<and> getDoc (users s') ''a2''
               = Some (creditedAncestor ''n1'' 2 (ex_member ''ben'' ''FBT200'' ''FBT300''))
          \<and> getDoc (users s') ''a3''
               = Some (creditedAncestor ''n1'' 3 (ex_member ''cat'' ''FBT300'' ''Not set''))
          \<and> getDoc (users s') ''n1'' = getDoc (users ex_chain_db) ''n1''
          \<and> pointsOf s' ''a1'' = Some (500 + 100)
          \<and> cashOf s' ''a2'' = Some (20 + 5) \<and> cashOf s' ''a3'' = Some (20 + 5)
          \<and> map tx_type (transactions s')
               = [''referral_bonus_level_1'', ''referral_bonus_level_2'', ''referral_bonus_level_3'']
          \<and> map tx_amount (transactions s') = [Some 100, Some 5, Some 5]"
    using run c0 c1 c2 c3 ex_chain_values unfolding s'_eq by (intro exI conjI)
  from referral_walk_credits_each_ancestor_once [OF ids', of "''n1''" "''FBT100''"]
  obtain t' where run': "processReferralBonuses ''n1'' ''FBT100'' ex_cycle_db = Inr t'"
    by blast
  have t'_eq: "t' = state_of (processReferralBonuses ''n1'' ''FBT100'' ex_cycle_db)"
    using run' by simp
  have part2: "\<exists>s'. processReferralBonuses ''n1'' ''FBT100'' ex_cycle_db = Inr s'
          \<and> pointsOf s' ''a1'' = Some (500 + 100) \<and> cashOf s' ''a1'' = Some 20
          \<and> pointsOf s' ''a2'' = Some 500 \<and> cashOf s' ''a2'' = Some (20 + 5)
          \<and> map tx_userId (transactions s') = [''a1'', ''a2'']"
    using run' ex_cycle_values unfolding t'_eq by (intro exI conjI)
  from ids ids' cyc part1 part2 show ?thesis
    by (simp add: chain)
qed

subsection \<open>The ledger invariant\<close>

lemma updateDoc_SomeD: "updateDoc k f c = Some c' \<Longrightarrow> c' = mergeDoc k f c"
  by (simp add: updateDoc_def split: option.splits)

lemma in_mergeDoc:
  "(k, v) \<in> set (mergeDoc k0 f c) \<Longrightarrow> \<exists>v0. (k, v0) \<in> set c \<and> (v = v0 \<or> v = f v0)"
  by (auto simp: mergeDoc_def split: if_splits)

lemma all_mergeDoc:
  assumes "\<forall>(k, v) \<in> set c. P v" and "\<forall>v. P v \<longrightarrow> P (f v)"
  shows "\<forall>(k, v) \<in> set (mergeDoc k0 f c). P v"
  using assms by (auto dest!: in_mergeDoc)

lemma all_addDoc:
  assumes "\<forall>(k, v) \<in> set c. P v" and "P d"
  shows "\<forall>(k, v) \<in> set (addDoc k0 d c). P v"
  using assms by (auto simp: addDoc_def)

lemma getDoc_all: "getDoc c k = Some v \<Longrightarrow> \<forall>(k, v) \<in> set c. P v \<Longrightarrow> P v"
  by (auto dest: getDoc_in_set)

lemma ledgerOK_frame [simp]:
  "ledgerOK (s\<lparr>transactions := t\<rparr>) = ledgerOK s"
  "ledgerOK (s\<lparr>winners := w\<rparr>) = ledgerOK s"
  "ledgerOK (s\<lparr>diceBets := b\<rparr>) = ledgerOK s"
  "ledgerOK (s\<lparr>diceRounds := r\<rparr>) = ledgerOK s"
  by (simp_all add: ledgerOK_def)

lemma ledgerOK_users_merge:
  assumes "ledgerOK s" and "\<forall>u. userOK u \<longrightarrow> userOK (f u)"
  shows "ledgerOK (s\<lparr>users := mergeDoc k f (users s)\<rparr>)"
  using assms all_mergeDoc [of "users s" userOK f k] by (simp add: ledgerOK_def)

lemma ledgerOK_requests_merge:
  assumes "ledgerOK s" and "\<forall>r. req_type (f r) = req_type r \<and> req_amount (f r) = req_amount r"
  shows "ledgerOK (s\<lparr>requests := mergeDoc k f (requests s)\<rparr>)"
  using assms
    all_mergeDoc [of "requests s" "\<lambda>r. req_type r = PointTransfer \<longrightarrow> 0 < req_amount r" f k]
  by (simp add: ledgerOK_def)

lemma ledgerOK_requests_add:
  assumes "ledgerOK s" and "0 < req_amount r"
  shows "ledgerOK (s\<lparr>requests := addDoc k r (requests s)\<rparr>)"
  using assms
    all_addDoc [of "requests s" "\<lambda>r. req_type r = PointTransfer \<longrightarrow> 0 < req_amount r" r k]
  by (simp add: ledgerOK_def)

lemma ledgerOK_investments_merge:
  assumes "ledgerOK s"
      and "\<forall>i. 0 < inv_amount i \<and> 0 \<le> inv_interestRate i
               \<longrightarrow> 0 < inv_amount (f i) \<and> 0 \<le> inv_interestRate (f i)"
  shows "ledgerOK (s\<lparr>investments := mergeDoc k f (investments s)\<rparr>)"
  using assms
    all_mergeDoc [of "investments s" "\<lambda>i. 0 < inv_amount i \<and> 0 \<le> inv_interestRate i" f k]
  by (simp add: ledgerOK_def)

lemma ledgerOK_investments_add:
  assumes "ledgerOK s" and "0 < inv_amount i" and "0 \<le> inv_interestRate i"
  shows "ledgerOK (s\<lparr>investments := addDoc k i (investments s)\<rparr>)"
  using assms
    all_addDoc [of "investments s" "\<lambda>i. 0 < inv_amount i \<and> 0 \<le> inv_interestRate i" i k]
  by (simp add: ledgerOK_def)

lemma ledgerOK_ultra_merge:
  assumes "ledgerOK s" and "\<forall>b. ub_amount (f b) = ub_amount b"
  shows "ledgerOK (s\<lparr>ultraManualBets := mergeDoc k f (ultraManualBets s)\<rparr>)"
  using assms all_mergeDoc [of "ultraManualBets s" "\<lambda>b. 0 < ub_amount b" f k]
  by (simp add: ledgerOK_def)

lemma ledgerOK_ultra_add:
  assumes "ledgerOK s" and "0 < ub_amount b"
  shows "ledgerOK (s\<lparr>ultraManualBets := addDoc k b (ultraManualBets s)\<rparr>)"
  using assms all_addDoc [of "ultraManualBets s" "\<lambda>b. 0 < ub_amount b" b k]
  by (simp add: ledgerOK_def)

lemma ledgerOK_user: "ledgerOK s \<Longrightarrow> getDoc (users s) k = Some u \<Longrightarrow> userOK u"
  using getDoc_all [of "users s" k u userOK] by (simp add: ledgerOK_def)

lemma ledgerOK_member: "ledgerOK s \<Longrightarrow> (k, u) \<in> set (users s) \<Longrightarrow> userOK u"
  by (auto simp: ledgerOK_def)

lemma userOK_points: "userOK u \<Longrightarrow> 0 \<le> p \<Longrightarrow> userOK (u\<lparr>points := p\<rparr>)"
  by (simp add: userOK_def)

text \<open>Setting a user's points to a non-negative number keeps the invariant.\<close>

lemma ledgerOK_set_points:
  assumes "ledgerOK s" and "0 \<le> p"
  shows "ledgerOK (s\<lparr>users := mergeDoc k (\<lambda>u. u\<lparr>points := p\<rparr>) (users s)\<rparr>)"
  using assms by (intro ledgerOK_users_merge) (simp_all add: userOK_def)

lemma transferPoints_ledgerOK:
  assumes "ledgerOK s"
  shows "ledgerOK (state_of (transferPoints userId ident amount direct newId s))"
proof (cases "userId = [] \<or> ident = [] \<or> amount \<le> 0")
  case True
  then show ?thesis using assms by (auto simp: transferPoints_def)
next
  case False
  note valid = this
  show ?thesis
  proof (cases "getDoc (users s) userId")
    case None
    then show ?thesis using assms valid by (simp add: transferPoints_def)
  next
    case (Some userData)
    note sender = this
    show ?thesis
    proof (cases "points userData < amount")
      case True
      then show ?thesis using assms valid sender by (simp add: transferPoints_def)
    next
      case False
      note enough = this
      show ?thesis
      proof (cases "recipientQuery ident (users s)")
        case Nil
        then show ?thesis using assms valid sender enough by (simp add: transferPoints_def)
      next
        case (Cons d rest)
        obtain recipientId recipientData where d: "d = (recipientId, recipientData)" by (cases d)
        have "(recipientId, recipientData) \<in> set (users s)"
          using recipientQuery_subset [of ident "users s"] Cons d by auto
        then have rok: "userOK recipientData" using assms by (rule ledgerOK_member [rotated])
        have p1: "0 \<le> points userData - amount" using enough by simp
        have p2: "0 \<le> points recipientData + amount" using rok valid by (simp add: userOK_def)
        let ?s1 = "s\<lparr>users := mergeDoc userId (\<lambda>u. u\<lparr>points := points userData - amount\<rparr>) (users s)\<rparr>"
        have ok1: "ledgerOK ?s1" using assms p1 by (rule ledgerOK_set_points)
        have ok2: "ledgerOK (?s1\<lparr>users := mergeDoc recipientId
                      (\<lambda>u. u\<lparr>points := points recipientData + amount\<rparr>) (users ?s1)\<rparr>)"
          using ok1 p2 by (rule ledgerOK_set_points)
        have ok3: "ledgerOK (s\<lparr>requests := addDoc newId
                           \<lparr>req_userId = userId, req_username = username userData,
                            req_type = PointTransfer, req_recipientId = recipientId,
                            req_recipientUsername = username recipientData, req_amount = amount,
                            req_status = ReqPending, req_declineReason = None,
                            req_directTransfer = direct\<rparr> (requests s)\<rparr>)"
          using assms valid by (intro ledgerOK_requests_add) simp_all
        show ?thesis
          using assms valid sender enough Cons d ok1 ok2 ok3
          by (auto simp: transferPoints_def Let_def dest!: updateDoc_SomeD split: option.splits)
      qed
    qed
  qed
qed

lemma listed_SomeD:
  "listed c k shown = Some x \<Longrightarrow> fst x = k \<and> getDoc c k = Some (snd x) \<and> shown (snd x)"
  by (auto simp: listed_def split: option.splits if_splits)

lemma setRequestStatus_ledgerOK:
  "setRequestStatus rid st reason s = Some s1 \<Longrightarrow> ledgerOK s \<Longrightarrow> ledgerOK s1"
  by (auto simp: setRequestStatus_def dest!: updateDoc_SomeD intro!: ledgerOK_requests_merge)

lemma setRequestStatus_users:
  "setRequestStatus rid st reason s = Some s1 \<Longrightarrow> users s1 = users s"
  by (auto simp: setRequestStatus_def)

lemma handleTransferRequest_ledgerOK:
  assumes "ledgerOK s" and "0 < req_amount (snd request)"
  shows "ledgerOK (state_of (handleTransferRequest busy request approve s))"
proof (cases "busy")
  case True
  then show ?thesis using assms by (simp add: handleTransferRequest_def)
next
  case False
  note idle = this
  show ?thesis
  proof (cases "getDoc (users s) (req_userId (snd request))")
    case None
    then show ?thesis using assms idle by (simp add: handleTransferRequest_def)
  next
    case (Some senderData)
    note sender = this
    show ?thesis
    proof (cases "points senderData < req_amount (snd request)")
      case True
      then show ?thesis using assms idle sender
        by (auto simp: handleTransferRequest_def split: option.splits
              dest: setRequestStatus_ledgerOK)
    next
      case False
      note enough = this
      show ?thesis
      proof (cases approve)
        case False
        then show ?thesis using assms idle sender enough
          by (auto simp: handleTransferRequest_def split: option.splits
                dest: setRequestStatus_ledgerOK)
      next
        case True
        show ?thesis
        proof (cases "getDoc (users s) (req_recipientId (snd request))")
          case None
          then show ?thesis using assms idle sender enough True
            by (simp add: handleTransferRequest_def)
        next
          case (Some recipientData)
          have rok: "userOK recipientData" using assms(1) Some by (rule ledgerOK_user)
          have p1: "0 \<le> points senderData - req_amount (snd request)" using enough by simp
          have p2: "0 \<le> points recipientData + req_amount (snd request)"
            using rok assms(2) by (simp add: userOK_def)
          let ?s1 = "s\<lparr>users := mergeDoc (req_userId (snd request))
                        (\<lambda>u. u\<lparr>points := points senderData - req_amount (snd request)\<rparr>) (users s)\<rparr>"
          let ?s2 = "?s1\<lparr>users := mergeDoc (req_recipientId (snd request))
                        (\<lambda>u. u\<lparr>points := points recipientData + req_amount (snd request)\<rparr>)
                        (users ?s1)\<rparr>"
          have ok1: "ledgerOK ?s1" using assms(1) p1 by (rule ledgerOK_set_points)
          have ok2: "ledgerOK ?s2" using ok1 p2 by (rule ledgerOK_set_points)
          have ok3: "ledgerOK s3" if "setRequestStatus (fst request) ReqApproved None ?s2 = Some s3" for s3
            using that ok2 by (rule setRequestStatus_ledgerOK)
          show ?thesis
            using assms idle sender enough True Some ok1 ok2 ok3
            by (auto simp: handleTransferRequest_def Let_def dest!: updateDoc_SomeD
                  split: option.splits)
        qed
      qed
    qed
  qed
qed

lemma DiceGame_handleBet_ledgerOK:
  assumes "ledgerOK s"
  shows "ledgerOK (state_of (DiceGame_handleBet user rnd amount num newId s))"
proof (cases "\<exists>usr r a. user = Some usr \<and> rnd = Some r \<and> amount = Some a \<and> 0 < a
                        \<and> a \<le> points (snd usr)")
  case False
  then show ?thesis using assms
    by (auto simp: DiceGame_handleBet_def split: option.splits)
next
  case True
  then obtain usr r a where v: "user = Some usr" "rnd = Some r" "amount = Some a" "0 < a"
      "a \<le> points (snd usr)"
    by blast
  let ?s1 = "s\<lparr>diceBets := addDoc newId
               \<lparr>bet_userId = fst usr, bet_username = username (snd usr),
                bet_roundId = fst r, bet_chosenNumber = num, bet_amount = a,
                bet_status = Pending, bet_resultColor = None,
                bet_payout = None, bet_payoutType = None\<rparr> (diceBets s)\<rparr>"
  have ok1: "ledgerOK ?s1" using assms by simp
  have "0 \<le> points (snd usr) - a" using v by simp
  with ok1 have ok2: "ledgerOK (?s1\<lparr>users := mergeDoc (fst usr)
                         (\<lambda>u. u\<lparr>points := points (snd usr) - a\<rparr>) (users ?s1)\<rparr>)"
    by (rule ledgerOK_set_points)
  show ?thesis
    using v ok1 ok2
    by (auto simp: DiceGame_handleBet_def Let_def dest!: updateDoc_SomeD split: option.splits)
qed

lemma InvestmentsGame_handleSubmit_ledgerOK:
  assumes "ledgerOK s"
  shows "ledgerOK (state_of (InvestmentsGame_handleSubmit user amount newId s))"
proof (cases "\<exists>usr a. user = Some usr \<and> amount = Some a \<and> 0 < a \<and> a \<le> points (snd usr)")
  case False
  then show ?thesis using assms
    by (auto simp: InvestmentsGame_handleSubmit_def split: option.splits)
next
  case True
  then obtain usr a where v: "user = Some usr" "amount = Some a" "0 < a" "a \<le> points (snd usr)"
    by blast
  let ?s1 = "s\<lparr>investments := addDoc newId
               \<lparr>inv_userId = fst usr, inv_username = username (snd usr),
                inv_amount = a, inv_status = InvPending,
                inv_interestRate = 0, inv_releaseDate = None,
                inv_adminNotes = None\<rparr> (investments s)\<rparr>"
  have ok1: "ledgerOK ?s1" using assms v by (intro ledgerOK_investments_add) simp_all
  have "0 \<le> points (snd usr) - a" using v by simp
  with ok1 have ok2: "ledgerOK (?s1\<lparr>users := mergeDoc (fst usr)
                         (\<lambda>u. u\<lparr>points := points (snd usr) - a\<rparr>) (users ?s1)\<rparr>)"
    by (rule ledgerOK_set_points)
  show ?thesis
    using v ok1 ok2
    by (auto simp: InvestmentsGame_handleSubmit_def Let_def dest!: updateDoc_SomeD
          split: option.splits)
qed

lemma UltraManualGame_handleSubmit_ledgerOK:
  assumes "ledgerOK s"
  shows "ledgerOK (state_of (UltraManualGame_handleSubmit user amount betNote newId s))"
proof (cases "user = None \<or> amount = None \<or> the amount \<le> 0 \<or> points (snd (the user)) < the amount
                \<or> trim betNote = [] \<or> 100 < length betNote")
  case True
  then show ?thesis using assms
    by (auto simp: UltraManualGame_handleSubmit_def split: option.splits)
next
  case False
  then obtain usr a where v: "user = Some usr" "amount = Some a" "0 < a" "a \<le> points (snd usr)"
      "trim betNote \<noteq> []" "length betNote \<le> 100"
    by (cases user; cases amount) auto
  let ?s1 = "s\<lparr>ultraManualBets := addDoc newId
               \<lparr>ub_userId = fst usr, ub_username = username (snd usr),
                ub_amount = a, ub_note = trim betNote, ub_status = Pending,
                ub_winAmount = None\<rparr> (ultraManualBets s)\<rparr>"
  have ok1: "ledgerOK ?s1" using assms v by (intro ledgerOK_ultra_add) simp_all
  have "0 \<le> points (snd usr) - a" using v by simp
  with ok1 have ok2: "ledgerOK (?s1\<lparr>users := mergeDoc (fst usr)
                         (\<lambda>u. u\<lparr>points := points (snd usr) - a\<rparr>) (users ?s1)\<rparr>)"
    by (rule ledgerOK_set_points)
  show ?thesis
    using v ok1 ok2
    by (auto simp: UltraManualGame_handleSubmit_def Let_def dest!: updateDoc_SomeD
          split: option.splits)
qed

lemma submitApproval_ledgerOK:
  assumes "ledgerOK s"
  shows "ledgerOK (state_of (submitApproval sel rate date adminNotes now s))"
  using assms
  by (auto simp: submitApproval_def split: option.splits dest!: updateDoc_SomeD
        intro!: ledgerOK_investments_merge)

lemma applyWrite_ledgerOK:
  "applyWrite w s = Some s' \<Longrightarrow> keepsOK w \<Longrightarrow> ledgerOK s \<Longrightarrow> ledgerOK s'"
  by (cases w)
     (auto simp: keepsOK_def dest!: updateDoc_SomeD
        intro!: ledgerOK_users_merge ledgerOK_ultra_merge)

lemma commit_ledgerOK:
  "commit ws s = Some s' \<Longrightarrow> \<forall>w \<in> set ws. keepsOK w \<Longrightarrow> ledgerOK s \<Longrightarrow> ledgerOK s'"
proof (induction ws arbitrary: s)
  case Nil
  then show ?case by simp
next
  case (Cons w ws)
  from Cons.prems(1) obtain s1 where w: "applyWrite w s = Some s1" and c: "commit ws s1 = Some s'"
    by (auto split: option.splits)
  have "ledgerOK s1" using w Cons.prems(2,3) by (auto intro: applyWrite_ledgerOK)
  with Cons.IH [OF c] Cons.prems(2) show ?case by simp
qed

lemma resolveBet_keepsOK: "\<forall>w \<in> set (resolveBet nc d). keepsOK w"
proof -
  have "0 \<le> a + payoutOf c a" if "0 < payoutOf c a" for c a
  proof -
    from that have "0 < a div 10" by (auto simp: payoutOf_def split: if_splits)
    then have "0 \<le> a" by (simp add: pos_imp_zdiv_pos_iff)
    with that show ?thesis by simp
  qed
  then show ?thesis
    by (auto simp: resolveBet_def Let_def keepsOK_def userOK_def)
qed

lemma resolveBatch_keepsOK: "\<forall>w \<in> set (resolveBatch rid nc s). keepsOK w"
  using resolveBet_keepsOK by (auto simp: resolveBatch_def)

lemma closeRound_ledgerOK: "closeRound rid nc s = Some s1 \<Longrightarrow> ledgerOK s \<Longrightarrow> ledgerOK s1"
  by (auto simp: closeRound_def)

lemma closeRoundAndResolve_ledgerOK:
  assumes "ledgerOK s"
  shows "ledgerOK (state_of (closeRoundAndResolve rnd nc s))"
proof (cases rnd)
  case None
  then show ?thesis using assms by (simp add: closeRoundAndResolve_def)
next
  case (Some r)
  show ?thesis
  proof (cases "closeRound (fst r) nc s")
    case None
    then show ?thesis using assms Some by (simp add: closeRoundAndResolve_def)
  next
    case (Some s1)
    note s1 = this
    have ok1: "ledgerOK s1" using s1 assms by (rule closeRound_ledgerOK)
    show ?thesis
    proof (cases "commit (resolveBatch (fst r) nc s1) s1")
      case None
      then show ?thesis using assms \<open>rnd = Some r\<close> s1 ok1 by (simp add: closeRoundAndResolve_def)
    next
      case (Some s2)
      have "ledgerOK s2" using Some resolveBatch_keepsOK ok1 by (rule commit_ledgerOK)
      then show ?thesis using assms \<open>rnd = Some r\<close> s1 Some by (simp add: closeRoundAndResolve_def)
    qed
  qed
qed

lemma handleDecline_ledgerOK:
  assumes "ledgerOK s" and "0 < inv_amount (snd investment)"
  shows "ledgerOK (state_of (handleDecline confirmed investment s))"
proof (cases "confirmed")
  case False
  then show ?thesis using assms by (simp add: handleDecline_def)
next
  case True
  show ?thesis
  proof (cases "getDoc (users s) (inv_userId (snd investment))")
    case None
    then show ?thesis using assms True by (simp add: handleDecline_def)
  next
    case (Some userData)
    have uok: "userOK userData" using assms(1) Some by (rule ledgerOK_user)
    let ?s1 = "s\<lparr>investments := mergeDoc (fst investment) (\<lambda>i. i\<lparr>inv_status := InvDeclined\<rparr>)
                    (investments s)\<rparr>"
    have ok1: "ledgerOK ?s1" using assms(1) by (intro ledgerOK_investments_merge) simp_all
    have "0 \<le> points userData + inv_amount (snd investment)"
      using uok assms(2) by (simp add: userOK_def)
    with ok1 have ok2: "ledgerOK (?s1\<lparr>users := mergeDoc (inv_userId (snd investment))
         (\<lambda>u. u\<lparr>points := points userData + inv_amount (snd investment)\<rparr>) (users ?s1)\<rparr>)"
      by (rule ledgerOK_set_points)
    show ?thesis
      using assms True Some ok1 ok2
      by (auto simp: handleDecline_def Let_def dest!: updateDoc_SomeD split: option.splits)
  qed
qed

lemma payoutAmountOf_nonneg:
  assumes "0 < inv_amount i" and "0 \<le> inv_interestRate i"
  shows "0 \<le> payoutAmountOf i"
proof -
  have "0 \<le> toDouble (inv_interestRate i / 100)"
    using assms(2) by (intro toDouble_nonneg) simp
  then have "0 \<le> toDouble (1 + toDouble (inv_interestRate i / 100))"
    by (intro toDouble_nonneg) simp
  then have "0 \<le> of_int (inv_amount i) * toDouble (1 + toDouble (inv_interestRate i / 100))"
    using assms(1) by (intro mult_nonneg_nonneg) simp_all
  then have "0 \<le> toDouble (of_int (inv_amount i) * toDouble (1 + toDouble (inv_interestRate i / 100)))"
    by (rule toDouble_nonneg)
  then show ?thesis by (simp add: payoutAmountOf_def)
qed

lemma handleComplete_ledgerOK:
  assumes "ledgerOK s" and "0 < inv_amount (snd investment)"
      and "0 \<le> inv_interestRate (snd investment)"
  shows "ledgerOK (state_of (handleComplete confirmed investment s))"
proof (cases "confirmed")
  case False
  then show ?thesis using assms by (simp add: handleComplete_def)
next
  case True
  show ?thesis
  proof (cases "getDoc (users s) (inv_userId (snd investment))")
    case None
    then show ?thesis using assms True by (simp add: handleComplete_def)
  next
    case (Some userData)
    have uok: "userOK userData" using assms(1) Some by (rule ledgerOK_user)
    let ?s1 = "s\<lparr>investments := mergeDoc (fst investment) (\<lambda>i. i\<lparr>inv_status := InvCompleted\<rparr>)
                    (investments s)\<rparr>"
    have ok1: "ledgerOK ?s1" using assms(1) by (intro ledgerOK_investments_merge) simp_all
    have "0 \<le> points userData + payoutAmountOf (snd investment)"
      using uok payoutAmountOf_nonneg [OF assms(2,3)] by (simp add: userOK_def)
    with ok1 have ok2: "ledgerOK (?s1\<lparr>users := mergeDoc (inv_userId (snd investment))
         (\<lambda>u. u\<lparr>points := points userData + payoutAmountOf (snd investment)\<rparr>) (users ?s1)\<rparr>)"
      by (rule ledgerOK_set_points)
    show ?thesis
      using assms True Some ok1 ok2
      by (auto simp: handleComplete_def Let_def dest!: updateDoc_SomeD split: option.splits)
  qed
qed

lemma cancelBet_ledgerOK:
  assumes "ledgerOK s" and "0 < ub_amount (snd bet)"
  shows "ledgerOK (state_of (cancelBet bet s))"
proof -
  let ?ws = "[UpdateUltraBet (fst bet) (\<lambda>b. b\<lparr>ub_status := Cancelled\<rparr>),
         UpdateUser (ub_userId (snd bet)) (\<lambda>u. u\<lparr>points := points u + ub_amount (snd bet)\<rparr>),
         SetTransaction
           \<lparr>tx_userId = ub_userId (snd bet), tx_username = ub_username (snd bet),
            tx_amount = Some (ub_amount (snd bet)), tx_type = ''ultra_manual_cancelled'',
            tx_description =
              [Lit ''Ultra Manual Game bet cancelled: '', Num (ub_amount (snd bet)),
               Lit '' points returned''],
            tx_balanceAfter = None\<rparr>]"
  have k: "\<forall>w \<in> set ?ws. keepsOK w" using assms(2) by (simp add: keepsOK_def userOK_def)
  show ?thesis
  proof (cases "commit ?ws s")
    case None
    then show ?thesis using assms by (simp add: cancelBet_def del: commit.simps)
  next
    case (Some s1)
    have "ledgerOK s1" using Some k assms(1) by (rule commit_ledgerOK)
    then show ?thesis using Some by (simp add: cancelBet_def del: commit.simps)
  qed
qed

lemma processBet_ledgerOK:
  assumes "ledgerOK s" and "\<forall>w. winAmount = Some w \<longrightarrow> 0 \<le> w"
  shows "ledgerOK (state_of (processBet bet isWin winAmount s))"
proof -
  let ?paid = "(case winAmount of None \<Rightarrow> False | Some w \<Rightarrow> isWin \<and> w \<noteq> 0)"
  let ?ws = "UpdateUltraBet (fst bet)
           (\<lambda>b. b\<lparr>ub_status := (if isWin then Won else Lost),
                  ub_winAmount := (if ?paid then winAmount else ub_winAmount b)\<rparr>)
         # (case winAmount of
              None \<Rightarrow> []
            | Some w \<Rightarrow>
                if isWin \<and> w \<noteq> 0 then
                  [UpdateUser (ub_userId (snd bet)) (\<lambda>u. u\<lparr>points := points u + w\<rparr>),
                   SetTransaction
                     \<lparr>tx_userId = ub_userId (snd bet), tx_username = ub_username (snd bet),
                      tx_amount = Some w, tx_type = ''ultra_manual_win'',
                      tx_description = [Lit ''Ultra Manual Game win: '', Num w, Lit '' points''],
                      tx_balanceAfter = None\<rparr>,
                   SetWinner \<lparr>win_username = ub_username (snd bet), win_amount = w,
                              win_game = ''Ultra Manual''\<rparr>]
                else [])"
  have k: "\<forall>w \<in> set ?ws. keepsOK w"
    using assms(2) by (auto simp: keepsOK_def userOK_def split: option.splits)
  show ?thesis
  proof (cases "commit ?ws s")
    case None
    then show ?thesis using assms by (simp add: processBet_def Let_def del: commit.simps)
  next
    case (Some s1)
    have "ledgerOK s1" using Some k assms(1) by (rule commit_ledgerOK)
    then show ?thesis using Some by (simp add: processBet_def Let_def del: commit.simps)
  qed
qed

lemma handleWinSubmit_ledgerOK:
  assumes "ledgerOK s"
  shows "ledgerOK (state_of (handleWinSubmit selectedBet winAmount s))"
  using assms
  by (auto simp: handleWinSubmit_def split: option.splits intro!: processBet_ledgerOK)

lemma levelWrites_keepsOK: "l < 5 \<Longrightarrow> \<forall>w \<in> set (levelWrites userId l d). keepsOK w"
  by (drule lt5_cases)
     (auto simp: levelWrites_def keepsOK_def levelCredit_def incrementField_def userOK_def
        bonusLevels_def bonusGive_def)

lemma referral_batch_keepsOK:
  "\<forall>w \<in> set (concat (map (\<lambda>(l, d). levelWrites userId l d) (zip [0..<5] ds))). keepsOK w"
proof -
  have "l < 5" if "(l, d) \<in> set (zip [0..<5] ds)" for l d
    using set_zip_leftD [OF that] by simp
  then show ?thesis using levelWrites_keepsOK by fastforce
qed

lemma approveUser_ledgerOK:
  assumes "ledgerOK s"
  shows "ledgerOK (state_of (approveUser userId s))"
proof (cases "getDoc (users s) userId")
  case None
  then show ?thesis using assms by (simp add: approveUser_def)
next
  case (Some userData)
  let ?ws = "referralLoop (users s) userId 0 (referralCodeFriend userData) []
               [UpdateUser userId (\<lambda>u. u\<lparr>approved := True\<rparr>)]"
  have k: "\<forall>w \<in> set ?ws. keepsOK w"
    using referral_batch_keepsOK [of userId]
    by (simp add: referralLoop_eq) (simp add: keepsOK_def userOK_def)
  show ?thesis
  proof (cases "commit ?ws s")
    case None
    then show ?thesis using assms Some by (simp add: approveUser_def)
  next
    case (Some s1)
    have "ledgerOK s1" using Some k assms by (rule commit_ledgerOK)
    then show ?thesis using Some \<open>getDoc (users s) userId = Some userData\<close>
      by (simp add: approveUser_def)
  qed
qed

lemma in_mergeDoc_key:
  "(k, v) \<in> set (mergeDoc k0 f c) \<Longrightarrow>
     (k \<noteq> k0 \<and> (k, v) \<in> set c) \<or> (k = k0 \<and> (\<exists>v0. (k0, v0) \<in> set c \<and> v = f v0))"
  by (auto simp: mergeDoc_def split: if_splits)

lemma distinct_same_doc:
  "distinct (map fst c) \<Longrightarrow> (k, v) \<in> set c \<Longrightarrow> (k, v') \<in> set c \<Longrightarrow> v = v'"
  by (meson eq_key_imp_eq_value)

lemma adjusted_field:
  "fieldOf field (incrementField field (n - fieldOf field u) u) = n"
  by (cases field) (simp_all add: fieldOf_def incrementField_def)

lemma adjusted_userOK:
  "userOK u \<Longrightarrow> 0 \<le> n \<Longrightarrow> userOK (incrementField field (n - fieldOf field u) u)"
  by (cases field) (simp_all add: fieldOf_def incrementField_def userOK_def)

lemma updateUserBalance_ledgerOK:
  assumes "ledgerOK s" and "\<forall>n. answer = PromptNumber n \<longrightarrow> 0 \<le> n"
  shows "ledgerOK (state_of (updateUserBalance userId field answer s))"
proof (cases answer)
  case PromptCancelled
  then show ?thesis using assms by (simp add: updateUserBalance_def)
next
  case PromptNaN
  then show ?thesis using assms by (simp add: updateUserBalance_def)
next
  case (PromptNumber n)
  with assms(2) have n: "0 \<le> n" by simp
  show ?thesis
  proof (cases "getDoc (users s) userId")
    case None
    then show ?thesis using assms PromptNumber by (simp add: updateUserBalance_def)
  next
    case (Some userData)
    have mem: "(userId, userData) \<in> set (users s)" using Some by (rule getDoc_in_set)
    have d: "distinct (map fst (users s))" using assms(1) by (simp add: ledgerOK_def)
    let ?f = "incrementField field (n - fieldOf field userData)"
    have "userOK v" if "(k, v) \<in> set (mergeDoc userId ?f (users s))" for k v
    proof -
      from in_mergeDoc_key [OF that] show ?thesis
      proof
        assume "k \<noteq> userId \<and> (k, v) \<in> set (users s)"
        then show ?thesis using assms(1) by (auto intro: ledgerOK_member)
      next
        assume "k = userId \<and> (\<exists>v0. (userId, v0) \<in> set (users s) \<and> v = ?f v0)"
        then obtain v0 where v0: "(userId, v0) \<in> set (users s)" "v = ?f v0" by blast
        have "v0 = userData" using d v0(1) mem by (rule distinct_same_doc)
        moreover have "userOK userData" using assms(1) mem by (rule ledgerOK_member)
        ultimately show ?thesis using v0(2) n by (simp add: adjusted_userOK)
      qed
    qed
    then have ok: "ledgerOK (s\<lparr>users := mergeDoc userId ?f (users s)\<rparr>)"
      using assms(1) by (auto simp: ledgerOK_def)
    show ?thesis
      using PromptNumber Some ok assms(1)
      by (auto simp: updateUserBalance_def Let_def dest!: updateDoc_SomeD split: option.splits)
  qed
qed

lemma ledgerOK_request: "ledgerOK s \<Longrightarrow> getDoc (requests s) k = Some r \<Longrightarrow>
    req_type r = PointTransfer \<Longrightarrow> 0 < req_amount r"
  by (auto simp: ledgerOK_def dest!: getDoc_in_set)

lemma ledgerOK_investment: "ledgerOK s \<Longrightarrow> getDoc (investments s) k = Some i \<Longrightarrow>
    0 < inv_amount i \<and> 0 \<le> inv_interestRate i"
  by (auto simp: ledgerOK_def dest!: getDoc_in_set)

lemma ledgerOK_ultra: "ledgerOK s \<Longrightarrow> getDoc (ultraManualBets s) k = Some b \<Longrightarrow> 0 < ub_amount b"
  by (auto simp: ledgerOK_def dest!: getDoc_in_set)

lemma step_ledgerOK:
  assumes "ledgerOK s" and "admissible op"
  shows "ledgerOK (state_of (step op s))"
proof (cases op)
  case (OpTransferPoints userId ident amount direct newId)
  then show ?thesis using assms(1) by (simp add: transferPoints_ledgerOK)
next
  case (OpHandleTransferRequest rid approve)
  show ?thesis
  proof (cases "listed (requests s) rid (\<lambda>r. req_type r = PointTransfer \<and> req_status r = ReqPending)")
    case None
    then show ?thesis using assms(1) OpHandleTransferRequest by simp
  next
    case (Some request)
    from listed_SomeD [OF Some] have "0 < req_amount (snd request)"
      using assms(1) by (auto intro: ledgerOK_request)
    then show ?thesis
      using assms(1) OpHandleTransferRequest Some by (simp add: handleTransferRequest_ledgerOK)
  qed
next
  case (OpDiceBet user rnd amount num newId)
  then show ?thesis using assms(1) by (simp add: DiceGame_handleBet_ledgerOK)
next
  case (OpCloseRoundAndResolve rid nc)
  then show ?thesis using assms(1) by (simp add: closeRoundAndResolve_ledgerOK)
next
  case (OpInvest user amount newId)
  then show ?thesis using assms(1) by (simp add: InvestmentsGame_handleSubmit_ledgerOK)
next
  case (OpApproveInvestment iid rate date adminNotes now)
  then show ?thesis using assms(1) by (simp add: submitApproval_ledgerOK)
next
  case (OpDeclineInvestment iid confirmed)
  show ?thesis
  proof (cases "listed (investments s) iid (\<lambda>i. inv_status i = InvPending)")
    case None
    then show ?thesis using assms(1) OpDeclineInvestment by simp
  next
    case (Some investment)
    from listed_SomeD [OF Some] have "0 < inv_amount (snd investment)"
      using assms(1) by (auto dest: ledgerOK_investment)
    then show ?thesis
      using assms(1) OpDeclineInvestment Some by (simp add: handleDecline_ledgerOK)
  qed
next
  case (OpCompleteInvestment iid confirmed)
  show ?thesis
  proof (cases "listed (investments s) iid (\<lambda>i. inv_status i = InvApproved)")
    case None
    then show ?thesis using assms(1) OpCompleteInvestment by simp
  next
    case (Some investment)
    from listed_SomeD [OF Some]
    have "0 < inv_amount (snd investment) \<and> 0 \<le> inv_interestRate (snd investment)"
      using assms(1) by (auto dest: ledgerOK_investment)
    then show ?thesis
      using assms(1) OpCompleteInvestment Some by (simp add: handleComplete_ledgerOK)
  qed
next
  case (OpUltraBet user amount betNote newId)
  then show ?thesis using assms(1) by (simp add: UltraManualGame_handleSubmit_ledgerOK)
next
  case (OpCancelBet bid)
  show ?thesis
  proof (cases "listed (ultraManualBets s) bid (\<lambda>b. ub_status b = Pending)")
    case None
    then show ?thesis using assms(1) OpCancelBet by simp
  next
    case (Some bet)
    from listed_SomeD [OF Some] have "0 < ub_amount (snd bet)"
      using assms(1) by (auto dest: ledgerOK_ultra)
    then show ?thesis using assms(1) OpCancelBet Some by (simp add: cancelBet_ledgerOK)
  qed
next
  case (OpLoseBet bid)
  then show ?thesis using assms(1)
    by (auto split: option.splits intro!: processBet_ledgerOK)
next
  case (OpWinBet bid winAmount)
  then show ?thesis using assms(1)
    by (auto split: option.splits intro!: handleWinSubmit_ledgerOK)
next
  case (OpApproveUser userId)
  then show ?thesis using assms(1)
    by (auto split: option.splits intro!: approveUser_ledgerOK)
next
  case (OpUpdateUserBalance userId field answer)
  then have "\<forall>n. answer = PromptNumber n \<longrightarrow> 0 \<le> n"
    using assms(2) by (auto simp: admissible_def)
  then show ?thesis
    using assms(1) OpUpdateUserBalance by (simp add: updateUserBalance_ledgerOK)
qed

lemma run_ledgerOK:
  "ledgerOK s \<Longrightarrow> \<forall>op \<in> set ops. admissible op \<Longrightarrow> ledgerOK (run ops s)"
proof (induction ops arbitrary: s)
  case Nil
  then show ?case by simp
next
  case (Cons op ops)
  then show ?case by (simp add: step_ledgerOK)
qed

lemma ex_ledger_ok: "ledgerOK ex_ledger_db"
  by (simp add: ledgerOK_def userOK_def ex_ledger_defs)

text \<open>
  C2, as stated, fails on the code.  In the example ledger no balance is negative and
  alice holds 900 points.  The administrator's balance adjustment, given the number
  \<open>-5\<close>, does not fail: it writes the difference, and alice's points are \<open>-5\<close>.
\<close>

theorem admin_adjustment_makes_balance_negative:
  "ledgerOK ex_ledger_db
   \<and> pointsOf ex_ledger_db ''u1'' = Some 900
   \<and> \<not> isl (updateUserBalance ''u1'' PointsField (PromptNumber (- 5)) ex_ledger_db)
   \<and> pointsOf (run [OpUpdateUserBalance ''u1'' PointsField (PromptNumber (- 5))] ex_ledger_db) ''u1''
       = Some (- 5)"
  using ex_ledger_ok
  by (simp add: ex_ledger_defs updateUserBalance_def updateDoc_def getDoc_def mergeDoc_def
        fieldOf_def incrementField_def pointsOf_def)

lemma ex_ops_admissible: "list_all admissible ex_ops"
  by (simp add: ex_ops_def admissible_def)

lemma ex_run_values:
  "pointsOf (run ex_ops ex_ledger_db) ''u1'' = Some 2950"
  "cashOf (run ex_ops ex_ledger_db) ''u1'' = Some 0"
  "pointsOf (run ex_ops ex_ledger_db) ''u2'' = Some 440"
  "cashOf (run ex_ops ex_ledger_db) ''u2'' = Some 75"
  by code_simp+

text \<open>
  C2 (amended).  Start from a ledger in which account ids are unique, no balance is
  negative, and the stored amounts of transfer requests, investments and ultra-manual bets
  are positive.  After every sequence of point transfers, handled transfer requests, dice
  bets, dice round settlements, investment submissions, approvals, declines and
  completions, ultra-manual bets, their cancellation, loss and win, user approvals with
  their referral bonuses, and administrator balance adjustments to a number that is not
  negative, the ledger is again such a ledger: every account's points and cash are at
  least 0.  A transfer the sender cannot cover fails and leaves the state as it was; a
  transfer request the sender cannot cover when it is handled leaves every account as it
  was.  The administrator's balance adjustment is not guarded: it sets the balance to the
  number entered, whatever its sign.
\<close>

theorem balances_stay_non_negative:
  assumes "ledgerOK s" and "\<forall>op \<in> set ops. admissible op"
  shows "ledgerOK (run ops s)
       \<and> (\<forall>(k, u) \<in> set (users (run ops s)). 0 \<le> points u \<and> 0 \<le> cash u)
       \<and> (\<forall>u. getDoc (users s) userId = Some u \<and> points u < amount \<longrightarrow>
             isl (transferPoints userId ident amount direct newId s)
           \<and> state_of (transferPoints userId ident amount direct newId s) = s)
       \<and> (\<forall>u. getDoc (users s) (req_userId r) = Some u \<and> points u < req_amount r \<longrightarrow>
             users (state_of (handleTransferRequest False (rid, r) approve s)) = users s)
       \<and> (\<forall>u. getDoc (users s) userId = Some u \<longrightarrow>
             map_option (fieldOf field)
               (getDoc (users (state_of (updateUserBalance userId field (PromptNumber n) s))) userId)
             = Some n)"
proof (intro conjI allI impI)
  show ok: "ledgerOK (run ops s)" using assms by (rule run_ledgerOK)
  then show "\<forall>(k, u) \<in> set (users (run ops s)). 0 \<le> points u \<and> 0 \<le> cash u"
    by (auto simp: ledgerOK_def userOK_def)
next
  fix u assume "getDoc (users s) userId = Some u \<and> points u < amount"
  then show "isl (transferPoints userId ident amount direct newId s)"
    and "state_of (transferPoints userId ident amount direct newId s) = s"
    by (auto simp: transferPoints_def)
next
  fix u assume "getDoc (users s) (req_userId r) = Some u \<and> points u < req_amount r"
  then show "users (state_of (handleTransferRequest False (rid, r) approve s)) = users s"
    by (auto simp: handleTransferRequest_def split: option.splits dest: setRequestStatus_users)
next
  fix u assume "getDoc (users s) userId = Some u"
  then show "map_option (fieldOf field)
               (getDoc (users (state_of (updateUserBalance userId field (PromptNumber n) s))) userId)
             = Some n"
    by (simp add: updateUserBalance_def Let_def updateDoc_Some getDoc_mergeDoc adjusted_field)
qed

theorem balances_stay_non_negative_witness:
  "ledgerOK ex_ledger_db \<and> list_all admissible ex_ops
   \<and> getDoc (users ex_ledger_db) ''u2'' = Some ex_bob \<and> points ex_bob < 5000
   \<and> getDoc (users ex_ledger_db) (req_userId (ex_request ''u2'' ''bob'' ''u1'' ''alice'' 5000))
        = Some ex_bob
   \<and> points ex_bob < req_amount (ex_request ''u2'' ''bob'' ''u1'' ''alice'' 5000)
   \<and> ledgerOK (run ex_ops ex_ledger_db)
   \<and> list_all (\<lambda>(k, u). 0 \<le> points u \<and> 0 \<le> cash u) (users (run ex_ops ex_ledger_db))
   \<and> pointsOf (run ex_ops ex_ledger_db) ''u1'' = Some 2950
   \<and> cashOf (run ex_ops ex_ledger_db) ''u1'' = Some 0
   \<and> pointsOf (run ex_ops ex_ledger_db) ''u2'' = Some 440
   \<and> cashOf (run ex_ops ex_ledger_db) ''u2'' = Some 75
   \<and> isl (transferPoints ''u2'' ''FBT100'' 5000 True ''t9'' ex_ledger_db)
   \<and> state_of (transferPoints ''u2'' ''FBT100'' 5000 True ''t9'' ex_ledger_db) = ex_ledger_db
   \<and> users (state_of (handleTransferRequest False
               (''q3'', ex_request ''u2'' ''bob'' ''u1'' ''alice'' 5000) True ex_ledger_db))
        = users ex_ledger_db
   \<and> map_option (fieldOf CashField)
        (getDoc (users (state_of (updateUserBalance ''u2'' CashField (PromptNumber 75) ex_ledger_db)))
           ''u2'') = Some 75"
proof -
  have adm: "\<forall>op \<in> set ex_ops. admissible op"
    using ex_ops_admissible by (simp add: list_all_iff)
  have g: "getDoc (users ex_ledger_db) ''u2'' = Some ex_bob"
    and g': "getDoc (users ex_ledger_db) (req_userId (ex_request ''u2'' ''bob'' ''u1'' ''alice'' 5000))
        = Some ex_bob"
    by (simp_all add: ex_ledger_db_def ex_request_def getDoc_def)
  have lt: "points ex_bob < 5000"
    and lt': "points ex_bob < req_amount (ex_request ''u2'' ''bob'' ''u1'' ''alice'' 5000)"
    by (simp_all add: ex_bob_def ex_request_def)
  note T = balances_stay_non_negative [OF ex_ledger_ok adm,
      where userId = "''u2''" and amount = 5000 and ident = "''FBT100''" and direct = True
        and newId = "''t9''" and r = "ex_request ''u2'' ''bob'' ''u1'' ''alice'' 5000"
        and rid = "''q3''" and approve = True and field = CashField and n = 75]
  from T have c1: "ledgerOK (run ex_ops ex_ledger_db)" by (rule conjunct1)
  from T have "\<forall>(k, u) \<in> set (users (run ex_ops ex_ledger_db)). 0 \<le> points u \<and> 0 \<le> cash u"
    by (rule conjunct2 [THEN conjunct1])
  then have c2: "list_all (\<lambda>(k, u). 0 \<le> points u \<and> 0 \<le> cash u) (users (run ex_ops ex_ledger_db))"
    by (simp add: list_all_iff)
  from T g lt have c3: "isl (transferPoints ''u2'' ''FBT100'' 5000 True ''t9'' ex_ledger_db)
       \<and> state_of (transferPoints ''u2'' ''FBT100'' 5000 True ''t9'' ex_ledger_db) = ex_ledger_db"
    by blast
  from T g' lt' have c4: "users (state_of (handleTransferRequest False
               (''q3'', ex_request ''u2'' ''bob'' ''u1'' ''alice'' 5000) True ex_ledger_db))
        = users ex_ledger_db"
    by blast
  from T g have c5: "map_option (fieldOf CashField)
        (getDoc (users (state_of (updateUserBalance ''u2'' CashField (PromptNumber 75) ex_ledger_db)))
           ''u2'') = Some 75"
    by blast
  show ?thesis
    using ex_ledger_ok ex_ops_admissible g lt g' lt' c1 c2 ex_run_values c3 c4 c5
    by (intro conjI) simp_all
qed

end
